(* ===== verification/Prelude.thy ===== *)
theory Prelude
  imports Main "HOL-Library.Word" "HOL-Library.Sublist"
begin

text \<open>
  Shared vocabulary of the development: machine integers and byte strings as Rust has
  them, the result type of fallible operations, big-endian integer layout, UTF-8
  validation and the string operations of the Rust standard library that the components
  use, and the lemmas on lists and words that several components rely on.

  Rust's \<open>usize\<close> is the 64-bit one. Lengths and offsets of slices are natural numbers: a Rust
  allocation holds at most \<open>isize::MAX\<close> bytes, which \<open>fits_isize\<close> states where a
  conversion of a length to \<open>u64\<close> has to be exact.
\<close>

unbundle bit_operations_syntax

named_theorems be_simps \<open>big-endian layout of integers\<close>
named_theorems utf8_simps \<open>UTF-8 validation and string conversion\<close>
named_theorems rbind_simps \<open>sequencing of fallible operations\<close>

section \<open>Types\<close>

type_synonym u8 = "8 word"
type_synonym u16 = "16 word"
type_synonym u32 = "32 word"
type_synonym u64 = "64 word"
type_synonym bytes = "8 word list"

type_synonym ('e, 'a) result = "'e + 'a"

abbreviation Ok :: "'a \<Rightarrow> ('e, 'a) result" where
  "Ok \<equiv> Inr"

abbreviation Err :: "'e \<Rightarrow> ('e, 'a) result" where
  "Err \<equiv> Inl"

text \<open>The \<open>?\<close> operator: continue with the value, or return the error.\<close>

definition rbind :: "('e, 'a) result \<Rightarrow> ('a \<Rightarrow> ('e, 'b) result) \<Rightarrow> ('e, 'b) result" where
  "rbind r f = (case r of Inl e \<Rightarrow> Inl e | Inr x \<Rightarrow> f x)"

definition map_err :: "('e \<Rightarrow> 'f) \<Rightarrow> ('e, 'a) result \<Rightarrow> ('f, 'a) result" where
  "map_err f r = (case r of Inl e \<Rightarrow> Inl (f e) | Inr x \<Rightarrow> Inr x)"

definition is_ok :: "('e, 'a) result \<Rightarrow> bool" where
  "is_ok r = (case r of Inl _ \<Rightarrow> False | Inr _ \<Rightarrow> True)"

lemma rbind_Inl [simp, rbind_simps]: "rbind (Inl e) f = Inl e"
  by (simp add: rbind_def)

lemma rbind_Inr [simp, rbind_simps]: "rbind (Inr x) f = f x"
  by (simp add: rbind_def)

lemma rbind_eq_Inr_iff [rbind_simps]:
  "rbind r f = Inr y \<longleftrightarrow> (\<exists>x. r = Inr x \<and> f x = Inr y)"
  by (cases r) auto

lemma rbind_eq_Inl_iff [rbind_simps]:
  "rbind r f = Inl e \<longleftrightarrow> r = Inl e \<or> (\<exists>x. r = Inr x \<and> f x = Inl e)"
  by (cases r) auto

lemma rbind_assoc: "rbind (rbind r f) g = rbind r (\<lambda>x. rbind (f x) g)"
  by (cases r) auto

lemma map_err_simps [simp]:
  "map_err f (Inl e) = Inl (f e)" "map_err f (Inr x) = Inr x"
  by (auto simp: map_err_def)

lemma map_err_eq_Inr_iff [simp]: "map_err f r = Inr x \<longleftrightarrow> r = Inr x"
  by (cases r) auto

lemma is_ok_simps [simp]: "\<not> is_ok (Inl e)" "is_ok (Inr x)"
  by (auto simp: is_ok_def)

lemma is_ok_iff: "is_ok r \<longleftrightarrow> (\<exists>x. r = Inr x)"
  by (cases r) auto

lemma is_ok_rbind: "is_ok (rbind r f) \<longleftrightarrow> (\<exists>x. r = Inr x \<and> is_ok (f x))"
  by (cases r) auto

definition fits_isize :: "'a list \<Rightarrow> bool" where
  "fits_isize xs \<longleftrightarrow> length xs < 2 ^ 63"

text \<open>\<open>std::io::Error\<close>: a kind and a message.\<close>

datatype io_error_kind =
    UnexpectedEof | InvalidData | InvalidInput | NotFound | PermissionDenied | TimedOut
  | ConnectionReset | ConnectionRefused | ConnectionAborted | BrokenPipe | AlreadyExists
  | HostUnreachable | NetworkUnreachable | WouldBlock | Other

datatype io_error = IoError io_error_kind string

text \<open>An I/O error together with its operating system code.\<close>

type_synonym os_error = "io_error \<times> int option"

section \<open>Big-endian integers\<close>

text \<open>\<open>to_be k n\<close> is the \<open>k\<close>-byte big-endian layout of \<open>n\<close> (\<open>to_be_bytes\<close>), \<open>of_be\<close> reads one
  back (\<open>from_be_bytes\<close>).\<close>

fun to_be :: "nat \<Rightarrow> nat \<Rightarrow> bytes" where
  "to_be 0 n = []"
| "to_be (Suc k) n = word_of_nat (n div 256 ^ k) # to_be k n"

fun of_be :: "bytes \<Rightarrow> nat" where
  "of_be [] = 0"
| "of_be (b # bs) = unat b * 256 ^ length bs + of_be bs"

lemma length_to_be [simp, be_simps]: "length (to_be k n) = k"
  by (induction k) auto

lemma unat_byte_less: "unat (b :: u8) < 256"
  by (rule order_less_le_trans [OF unsigned_less]) simp

lemma byte_256: "(256 :: u8) = 0"
  by simp

lemma of_be_less: "of_be bs < 256 ^ length bs"
proof (induction bs)
  case (Cons b bs)
  have "unat b \<le> 255" using unat_byte_less [of b] by simp
  then have "unat b * 256 ^ length bs \<le> 255 * 256 ^ length bs"
    by (rule mult_le_mono1)
  with Cons show ?case
    by (simp only: of_be.simps length_Cons power_Suc)
qed simp

lemma unat_of_nat_byte: "unat (word_of_nat n :: u8) = n mod 256"
  by (simp add: unat_of_nat)

lemma of_be_to_be_mod: "of_be (to_be k n) = n mod 256 ^ k"
proof (induction k)
  case (Suc k)
  have "n mod (256 ^ k * 256) = 256 ^ k * (n div 256 ^ k mod 256) + n mod 256 ^ k"
    by (rule mod_mult2_eq)
  with Suc show ?case
    by (simp add: unat_of_nat_byte mult.commute)
qed simp

lemma of_be_to_be [simp, be_simps]: "n < 256 ^ k \<Longrightarrow> of_be (to_be k n) = n"
  by (simp add: of_be_to_be_mod)

lemma to_be_add_high: "to_be k (a * 256 ^ k + n) = to_be k n"
proof -
  have "to_be j (a * 256 ^ k + n) = to_be j n" if "j \<le> k" for j
    using that
  proof (induction j)
    case (Suc j)
    then have "256 ^ k = (256::nat) ^ j * 256 * 256 ^ (k - Suc j)"
      by (metis le_add_diff_inverse power_Suc2 power_add)
    then have "a * 256 ^ k + n = n + 256 ^ j * (a * 256 ^ (k - Suc j) * 256)"
      by simp
    then have "(a * 256 ^ k + n) div 256 ^ j = a * 256 ^ (k - Suc j) * 256 + n div 256 ^ j"
      by (simp only: div_mult_self2) simp
    then have "word_of_nat ((a * 256 ^ k + n) div 256 ^ j) = (word_of_nat (n div 256 ^ j) :: u8)"
      by (simp only: of_nat_add of_nat_mult of_nat_numeral byte_256 mult_zero_right add_0)
    with Suc show ?case by simp
  qed simp
  then show ?thesis by simp
qed

lemma to_be_of_be [simp, be_simps]: "length bs = k \<Longrightarrow> to_be k (of_be bs) = bs"
proof (induction bs arbitrary: k)
  case (Cons b bs)
  then obtain j where k: "k = Suc j" "length bs = j" by auto
  have "(unat b * 256 ^ length bs + of_be bs) div 256 ^ length bs = unat b"
    using of_be_less [of bs] by (simp add: div_nat_eqI)
  with Cons k show ?case by (simp add: to_be_add_high)
qed simp

lemma mult_add_eq_iff:
  fixes a b k x y :: nat
  assumes "b < k" and "y < k"
  shows "a * k + b = x * k + y \<longleftrightarrow> a = x \<and> b = y"
proof
  assume eq: "a * k + b = x * k + y"
  have "(a * k + b) div k = a" "(x * k + y) div k = x"
    using assms by (simp_all add: div_mult_self3)
  moreover have "(a * k + b) mod k = b" "(x * k + y) mod k = y"
    using assms by simp_all
  ultimately show "a = x \<and> b = y" using eq by metis
qed simp

lemma to_be_append: "to_be (a + b) n = to_be a (n div 256 ^ b) @ to_be b n"
  by (induction a) (simp_all add: div_mult2_eq [symmetric] power_add mult.commute)

lemma of_be_append: "of_be (xs @ ys) = of_be xs * 256 ^ length ys + of_be ys"
  by (induction xs) (simp_all add: power_add algebra_simps)

lemma of_be_zero_iff: "of_be bs = 0 \<longleftrightarrow> list_all (\<lambda>x. x = 0) bs"
  by (induction bs) (simp_all add: unat_eq_zero)

lemma zero_bytes_iff: "list_all (\<lambda>x. x = 0) bs \<longleftrightarrow> bs = replicate (length bs) (0 :: u8)"
  by (induction bs) auto

lemma to_be_mod: "to_be k (n mod 256 ^ k) = to_be k n"
  using to_be_add_high [of k "n div 256 ^ k" "n mod 256 ^ k"] by (simp only: div_mult_mod_eq)

lemma to_be_eval:
  "to_be (numeral k) n = word_of_nat (n div 256 ^ pred_numeral k) # to_be (pred_numeral k) n"
  by (simp add: numeral_eq_Suc)

lemma to_be_inj: "m < 256 ^ k \<Longrightarrow> n < 256 ^ k \<Longrightarrow> to_be k m = to_be k n \<longleftrightarrow> m = n"
  by (metis of_be_to_be)

section \<open>Strings\<close>

text \<open>
  A Rust \<open>String\<close> is a sequence of bytes that is valid UTF-8. It is modelled by the list of
  its bytes, written as characters (\<open>char\<close> is an 8-bit type); \<open>is_str\<close> states validity.
  Searching for an ASCII character or an ASCII literal in the characters of a Rust string and in
  its bytes is the same.
\<close>

definition as_bytes :: "string \<Rightarrow> bytes" where
  "as_bytes s = map (\<lambda>c. word_of_nat (of_char c)) s"

definition chars_of :: "bytes \<Rightarrow> string" where
  "chars_of bs = map (\<lambda>b. char_of (unat b)) bs"

definition utf8_cont :: "u8 \<Rightarrow> bool" where
  "utf8_cont b \<longleftrightarrow> 0x80 \<le> b \<and> b \<le> 0xBF"

text \<open>The byte sequences that \<open>core::str::from_utf8\<close> accepts.\<close>

fun utf8_valid :: "bytes \<Rightarrow> bool" where
  "utf8_valid [] = True"
| "utf8_valid (b # bs) =
    (if b < 0x80 then utf8_valid bs
     else if 0xC2 \<le> b \<and> b \<le> 0xDF then
       (case bs of c1 # r \<Rightarrow> utf8_cont c1 \<and> utf8_valid r | _ \<Rightarrow> False)
     else if 0xE0 \<le> b \<and> b \<le> 0xEF then
       (case bs of
          c1 # c2 # r \<Rightarrow>
            utf8_cont c1 \<and> (b = 0xE0 \<longrightarrow> 0xA0 \<le> c1) \<and> (b = 0xED \<longrightarrow> c1 \<le> 0x9F)
            \<and> utf8_cont c2 \<and> utf8_valid r
        | _ \<Rightarrow> False)
     else if 0xF0 \<le> b \<and> b \<le> 0xF4 then
       (case bs of
          c1 # c2 # c3 # r \<Rightarrow>
            utf8_cont c1 \<and> (b = 0xF0 \<longrightarrow> 0x90 \<le> c1) \<and> (b = 0xF4 \<longrightarrow> c1 \<le> 0x8F)
            \<and> utf8_cont c2 \<and> utf8_cont c3 \<and> utf8_valid r
        | _ \<Rightarrow> False)
     else False)"

definition is_str :: "string \<Rightarrow> bool" where
  "is_str s \<longleftrightarrow> utf8_valid (as_bytes s)"

text \<open>\<open>String::from_utf8\<close>; the error carries the rejected bytes.\<close>

definition from_utf8 :: "bytes \<Rightarrow> (bytes, string) result" where
  "from_utf8 bs = (if utf8_valid bs then Ok (chars_of bs) else Err bs)"

lemma byte_char_byte [simp]: "word_of_nat (of_char (char_of (unat b))) = (b :: u8)"
  using unat_byte_less [of b] by (simp add: of_char_of)

lemma char_byte_char [simp]: "char_of (unat (word_of_nat (of_char c) :: u8)) = c"
proof -
  have "(of_char c :: nat) \<in> {0..<256}"
    using range_nat_of_char by blast
  then show ?thesis
    by (simp add: unat_of_nat_byte)
qed

lemma chars_of_as_bytes [simp, utf8_simps]: "chars_of (as_bytes s) = s"
  by (simp add: chars_of_def as_bytes_def comp_def)

lemma as_bytes_chars_of [simp, utf8_simps]: "as_bytes (chars_of bs) = bs"
  by (simp add: chars_of_def as_bytes_def comp_def del: of_char_of)

lemma length_as_bytes [simp]: "length (as_bytes s) = length s"
  by (simp add: as_bytes_def)

lemma as_bytes_inj [simp]: "as_bytes s = as_bytes t \<longleftrightarrow> s = t"
  by (metis chars_of_as_bytes)

lemma from_utf8_as_bytes [simp, utf8_simps]: "is_str s \<Longrightarrow> from_utf8 (as_bytes s) = Inr s"
  by (simp add: from_utf8_def is_str_def)

lemma from_utf8_eq_Inr [utf8_simps]:
  "from_utf8 bs = Inr s \<longleftrightarrow> is_str s \<and> bs = as_bytes s"
  by (auto simp: from_utf8_def is_str_def)

lemma ascii_utf8_valid: "list_all (\<lambda>b. b < 0x80) bs \<Longrightarrow> utf8_valid bs"
  by (induction bs) auto

text \<open>\<open>s.chars().take(n).collect()\<close>: the first \<open>n\<close> characters, each one to four bytes wide.\<close>

definition utf8_width :: "char \<Rightarrow> nat" where
  "utf8_width c =
    (let n = (of_char c :: nat) in
     if n < 0x80 then 1 else if n < 0xE0 then 2 else if n < 0xF0 then 3 else 4)"

fun take_chars :: "nat \<Rightarrow> string \<Rightarrow> string" where
  "take_chars 0 s = []"
| "take_chars (Suc n) [] = []"
| "take_chars (Suc n) (c # s) =
     take (utf8_width c) (c # s) @ take_chars n (drop (utf8_width c) (c # s))"

definition starts_with :: "string \<Rightarrow> string \<Rightarrow> bool" where
  "starts_with s p = (take (length p) s = p)"

definition strip_prefix :: "string \<Rightarrow> string \<Rightarrow> string option" where
  "strip_prefix s p = (if starts_with s p then Some (drop (length p) s) else None)"

definition split_once :: "char \<Rightarrow> string \<Rightarrow> (string \<times> string) option" where
  "split_once c s =
     (case dropWhile (\<lambda>x. x \<noteq> c) s of
        [] \<Rightarrow> None
      | _ # r \<Rightarrow> Some (takeWhile (\<lambda>x. x \<noteq> c) s, r))"

lemma starts_with_append [simp]: "starts_with (p @ s) p"
  by (simp add: starts_with_def)

lemma starts_with_iff: "starts_with s p \<longleftrightarrow> (\<exists>t. s = p @ t)"
  by (metis append_take_drop_id starts_with_append starts_with_def)

lemma strip_prefix_append [simp]: "strip_prefix (p @ s) p = Some s"
  by (simp add: strip_prefix_def)

lemma strip_prefix_eq_Some: "strip_prefix s p = Some t \<longleftrightarrow> s = p @ t"
  by (auto simp: strip_prefix_def starts_with_iff)

lemma split_once_Some:
  "split_once c s = Some (a, b) \<longleftrightarrow> s = a @ c # b \<and> c \<notin> set a"
proof
  assume "split_once c s = Some (a, b)"
  then obtain x where d: "dropWhile (\<lambda>x. x \<noteq> c) s = x # b" and a: "a = takeWhile (\<lambda>x. x \<noteq> c) s"
    by (auto simp: split_once_def split: list.splits)
  from d have "x = c" by (auto dest: dropWhile_eq_Cons_conv [THEN iffD1])
  with d a show "s = a @ c # b \<and> c \<notin> set a"
    by (metis takeWhile_dropWhile_id set_takeWhileD)
next
  assume "s = a @ c # b \<and> c \<notin> set a"
  then show "split_once c s = Some (a, b)"
    by (auto simp: split_once_def dropWhile_append takeWhile_append)
qed

lemma split_once_None: "split_once c s = None \<longleftrightarrow> c \<notin> set s"
  by (auto simp: split_once_def dropWhile_eq_Nil_conv dropWhile_eq_Cons_conv split: list.splits)
    (metis in_set_conv_decomp takeWhile_dropWhile_id)

section \<open>Words\<close>

text \<open>Unsigned values of \<open>OR\<close> with a high part, of \<open>AND\<close> with a low mask and of narrowing
  conversions, as arithmetic on natural numbers.\<close>

lemma unat_or_high:
  fixes w h :: "'a :: len word"
  assumes "unat w < 2 ^ n" and "2 ^ n dvd unat h" and "unat w + unat h < 2 ^ LENGTH('a)"
  shows "unat (w OR h) = unat w + unat h"
proof -
  have "unat w AND unat h = 0"
  proof (rule bit_eqI)
    fix i
    have "\<not> bit (unat h) i" if "i < n"
    proof -
      from assms(2) have "take_bit n (unat h) = 0"
        by (simp add: take_bit_eq_mod)
      with that show ?thesis
        by (metis bit_0_eq bit_take_bit_iff bot_apply bot_bool_def)
    qed
    moreover have "\<not> bit (unat w) i" if "n \<le> i"
    proof -
      from assms(1) have "take_bit n (unat w) = unat w"
        by (simp add: take_bit_nat_eq_self)
      with that show ?thesis
        by (metis bit_take_bit_iff not_le)
    qed
    ultimately show "bit (unat w AND unat h) i \<longleftrightarrow> bit 0 i"
      by (cases "i < n") (auto simp: bit_and_iff)
  qed
  then have "unat w + unat h = unat w OR unat h"
    by (rule disjunctive_add_eq_or)
  then show ?thesis
    by (simp add: unsigned_or_eq)
qed

lemma unat_and_mask: "unat (w AND mask n) = unat w mod 2 ^ n"
  by (simp add: take_bit_eq_mask [symmetric] unsigned_take_bit_eq take_bit_nat_def)

section \<open>Formatting\<close>

text \<open>\<open>{}\<close> of an unsigned integer, and \<open>{:02X}\<close> of a byte.\<close>

definition digit_char :: "nat \<Rightarrow> char" where
  "digit_char d = char_of (if d < 10 then 48 + d else 55 + d)"

fun show_nat :: "nat \<Rightarrow> string" where
  "show_nat n = (if n < 10 then [digit_char n] else show_nat (n div 10) @ [digit_char (n mod 10)])"

declare show_nat.simps [simp del]

definition show_hex2 :: "u8 \<Rightarrow> string" where
  "show_hex2 b = [digit_char (unat b div 16), digit_char (unat b mod 16)]"

text \<open>\<open>slice.chunks(n)\<close> for a positive \<open>n\<close>, and \<open>join\<close>.\<close>

function chunks :: "nat \<Rightarrow> 'a list \<Rightarrow> 'a list list" where
  "chunks n xs = (if n = 0 \<or> xs = [] then [] else take n xs # chunks n (drop n xs))"
  by pat_completeness auto
termination
  by (relation "measure (\<lambda>(_, xs). length xs)") auto

declare chunks.simps [simp del]

fun join :: "string \<Rightarrow> string list \<Rightarrow> string" where
  "join sep [] = []"
| "join sep [s] = s"
| "join sep (s # t # ss) = s @ sep @ join sep (t # ss)"

lemma concat_chunks: "0 < n \<Longrightarrow> concat (chunks n xs) = xs"
  by (induction n xs rule: chunks.induct) (subst chunks.simps, auto)

section \<open>Panics\<close>

text \<open>Code that may panic returns an \<open>outcome\<close>; \<open>Buf::advance\<close>, \<open>Buf::get_u8\<close> and
  \<open>Bytes::split_to\<close> panic when the buffer is too short.\<close>

datatype 'a outcome = Panic | Ret 'a

definition obind :: "'a outcome \<Rightarrow> ('a \<Rightarrow> 'b outcome) \<Rightarrow> 'b outcome" where
  "obind r f = (case r of Panic \<Rightarrow> Panic | Ret x \<Rightarrow> f x)"

lemma obind_simps [simp]: "obind Panic f = Panic" "obind (Ret x) f = f x"
  by (simp_all add: obind_def)

lemma obind_eq_Ret: "obind r f = Ret y \<longleftrightarrow> (\<exists>x. r = Ret x \<and> f x = Ret y)"
  by (cases r) auto

definition buf_advance :: "nat \<Rightarrow> bytes \<Rightarrow> bytes outcome" where
  "buf_advance n b = (if n \<le> length b then Ret (drop n b) else Panic)"

definition buf_get_u8 :: "bytes \<Rightarrow> (u8 \<times> bytes) outcome" where
  "buf_get_u8 b = (case b of [] \<Rightarrow> Panic | x # r \<Rightarrow> Ret (x, r))"

definition buf_split_to :: "nat \<Rightarrow> bytes \<Rightarrow> (bytes \<times> bytes) outcome" where
  "buf_split_to n b = (if n \<le> length b then Ret (take n b, drop n b) else Panic)"

lemma buf_advance_Ret [simp]: "n \<le> length b \<Longrightarrow> buf_advance n b = Ret (drop n b)"
  by (simp add: buf_advance_def)

lemma buf_get_u8_Cons [simp]: "buf_get_u8 (x # b) = Ret (x, b)" "buf_get_u8 [] = Panic"
  by (simp_all add: buf_get_u8_def)

lemma buf_split_to_Ret [simp]: "n \<le> length b \<Longrightarrow> buf_split_to n b = Ret (take n b, drop n b)"
  by (simp add: buf_split_to_def)

section \<open>High bits of words\<close>

lemma unat_and_not_mask:
  fixes w :: "'a :: len word"
  shows "unat (w AND NOT (mask k)) = unat w div 2 ^ k * 2 ^ k"
proof -
  let ?a = "w AND NOT (mask k)" and ?b = "w AND mask k"
  have or: "?a OR ?b = w"
    by (rule bit_eqI) (auto simp: bit_simps)
  have "?a AND ?b = 0"
    by (rule bit_eqI) (auto simp: bit_simps)
  then have "unat ?a AND unat ?b = 0"
    by (metis unsigned_and_eq unsigned_0)
  then have "unat ?a + unat ?b = unat ?a OR unat ?b"
    by (rule disjunctive_add_eq_or)
  also have "\<dots> = unat w"
    by (metis or unsigned_or_eq)
  finally have "unat w = unat ?a + unat w mod 2 ^ k"
    by (simp add: unat_and_mask)
  then show ?thesis
    by (metis add_diff_cancel_right' minus_mod_eq_div_mult)
qed


section \<open>More buffer reads\<close>

text \<open>\<open>get_u16\<close> and \<open>get_u32\<close> of the \<open>bytes\<close> crate: \<open>k\<close> big-endian bytes. Subtraction on \<open>usize\<close>
  panics on underflow in builds with overflow checks; no such panic is reachable where the
  components state it.\<close>

definition buf_get_be :: "nat \<Rightarrow> bytes \<Rightarrow> (nat \<times> bytes) outcome" where
  "buf_get_be k b = (if k \<le> length b then Ret (of_be (take k b), drop k b) else Panic)"

definition usize_sub :: "nat \<Rightarrow> nat \<Rightarrow> nat outcome" where
  "usize_sub a b = (if b \<le> a then Ret (a - b) else Panic)"

lemma buf_get_be_Ret [simp]: "k \<le> length b \<Longrightarrow> buf_get_be k b = Ret (of_be (take k b), drop k b)"
  by (simp add: buf_get_be_def)

lemma usize_sub_Ret [simp]: "b \<le> a \<Longrightarrow> usize_sub a b = Ret (a - b)"
  by (simp add: usize_sub_def)

lemma buf_get_be_to_be: "n < 256 ^ k \<Longrightarrow> buf_get_be k (to_be k n @ rest) = Ret (n, rest)"
  by (simp add: buf_get_be_def)

lemma obind_eq_Panic: "obind r f = Panic \<longleftrightarrow> r = Panic \<or> (\<exists>x. r = Ret x \<and> f x = Panic)"
  by (cases r) auto

text \<open>What an await sees: nothing yet, or a value.\<close>

datatype 'a poll = Pending | Ready 'a


section \<open>Parsing of text\<close>

text \<open>\<open>rsplit_once\<close> at a character, \<open>trim\<close> of an ASCII string, and \<open>parse::<uN>()\<close>: an optional plus
  sign, then digits whose value fits.\<close>

definition rsplit_once :: "char \<Rightarrow> string \<Rightarrow> (string \<times> string) option" where
  "rsplit_once c s =
    (case split_once c (rev s) of None \<Rightarrow> None | Some (b, a) \<Rightarrow> Some (rev a, rev b))"

definition is_ascii_space :: "char \<Rightarrow> bool" where
  "is_ascii_space c \<longleftrightarrow> (of_char c :: nat) \<in> {9, 10, 11, 12, 13, 32}"

definition trim_start :: "string \<Rightarrow> string" where
  "trim_start s = dropWhile is_ascii_space s"

definition trim :: "string \<Rightarrow> string" where
  "trim s = rev (trim_start (rev (trim_start s)))"

definition is_digit :: "char \<Rightarrow> bool" where
  "is_digit c \<longleftrightarrow> 48 \<le> (of_char c :: nat) \<and> (of_char c :: nat) \<le> 57"

definition digits_value :: "string \<Rightarrow> nat" where
  "digits_value s = foldl (\<lambda>n c. 10 * n + (of_char c - 48)) 0 s"

definition parse_uint :: "nat \<Rightarrow> string \<Rightarrow> nat option" where
  "parse_uint bound s =
    (let d = (case s of c # r \<Rightarrow> if c = CHR ''+'' then r else s | [] \<Rightarrow> [])
     in if d \<noteq> [] \<and> list_all is_digit d \<and> digits_value d < bound then Some (digits_value d) else None)"

lemma rsplit_once_Some:
  "rsplit_once c s = Some (a, b) \<longleftrightarrow> s = a @ c # b \<and> c \<notin> set b"
proof -
  have "rsplit_once c s = Some (a, b) \<longleftrightarrow> split_once c (rev s) = Some (rev b, rev a)"
    by (auto simp: rsplit_once_def split: option.splits)
  also have "\<dots> \<longleftrightarrow> s = a @ c # b \<and> c \<notin> set b"
    by (simp add: split_once_Some rev_swap)
  finally show ?thesis .
qed

lemma starts_with_Cons [simp]: "starts_with (c # s) [d] \<longleftrightarrow> c = d"
  by (simp add: starts_with_def)

end
