(* ===== verification/Deeplink_Types.thy ===== *)
theory Deeplink_Types
  imports Prelude
begin

text \<open>
  The data of the deep-link library: \<^verbatim>\<open>deeplink/src/error.rs\<close> and
  \<^verbatim>\<open>deeplink/src/types.rs\<close>. TLV tags and protocols with their byte codes, the configuration
  record with its validation, and the builder. The \<^verbatim>\<open>hex\<close> crate is not part of the
  repository: \<open>hex_decode\<close> is an argument of the operations that call \<^verbatim>\<open>hex::decode\<close>, its
  error being the displayed message.
\<close>

section \<open>Errors\<close>

datatype deep_link_error =
    InvalidBase64 string
  | TruncatedTlv u8 nat nat
  | MissingRequiredField string
  | InvalidSubscriptionUrl string
  | InvalidProtocol u8
  | UnsupportedVersion u64 u64
  | TruncatedListEntry nat nat
  | VarintOverflow u64
  | InvalidCertificate string
  | InvalidUtf8 bytes
  | InvalidAddress string
  | InvalidBoolean u8
  | InvalidScheme string
  | Io io_error

section \<open>Tags and protocols\<close>

datatype tlv_tag =
    Version | Hostname | Address | CustomSni | HasIpv6 | Username | Password | SkipVerification
  | Certificate | UpstreamProtocol | AntiDpi | ClientRandomPrefix | Name | DnsUpstreams
  | SubscriptionUrl | ClientRandomAuthKey

fun tag_as_u8 :: "tlv_tag \<Rightarrow> u8" where
  "tag_as_u8 Version = 0x00"
| "tag_as_u8 Hostname = 0x01"
| "tag_as_u8 Address = 0x02"
| "tag_as_u8 CustomSni = 0x03"
| "tag_as_u8 HasIpv6 = 0x04"
| "tag_as_u8 Username = 0x05"
| "tag_as_u8 Password = 0x06"
| "tag_as_u8 SkipVerification = 0x07"
| "tag_as_u8 Certificate = 0x08"
| "tag_as_u8 UpstreamProtocol = 0x09"
| "tag_as_u8 AntiDpi = 0x0A"
| "tag_as_u8 ClientRandomPrefix = 0x0B"
| "tag_as_u8 Name = 0x0C"
| "tag_as_u8 DnsUpstreams = 0x0D"
| "tag_as_u8 SubscriptionUrl = 0x0E"
| "tag_as_u8 ClientRandomAuthKey = 0x0F"

definition tag_from_u8 :: "u8 \<Rightarrow> tlv_tag option" where
  "tag_from_u8 value =
    (if value = 0x00 then Some Version
     else if value = 0x01 then Some Hostname
     else if value = 0x02 then Some Address
     else if value = 0x03 then Some CustomSni
     else if value = 0x04 then Some HasIpv6
     else if value = 0x05 then Some Username
     else if value = 0x06 then Some Password
     else if value = 0x07 then Some SkipVerification
     else if value = 0x08 then Some Certificate
     else if value = 0x09 then Some UpstreamProtocol
     else if value = 0x0A then Some AntiDpi
     else if value = 0x0B then Some ClientRandomPrefix
     else if value = 0x0C then Some Name
     else if value = 0x0D then Some DnsUpstreams
     else if value = 0x0E then Some SubscriptionUrl
     else if value = 0x0F then Some ClientRandomAuthKey
     else None)"

datatype protocol = Http2 | Http3

fun protocol_as_u8 :: "protocol \<Rightarrow> u8" where
  "protocol_as_u8 Http2 = 0x01"
| "protocol_as_u8 Http3 = 0x02"

definition protocol_from_u8 :: "u8 \<Rightarrow> (deep_link_error, protocol) result" where
  "protocol_from_u8 value =
    (if value = 0x01 then Ok Http2
     else if value = 0x02 then Ok Http3
     else Err (InvalidProtocol value))"

definition protocol_from_str :: "string \<Rightarrow> (deep_link_error, protocol) result" where
  "protocol_from_str s =
    (if s = ''http2'' then Ok Http2
     else if s = ''http3'' then Ok Http3
     else Err (InvalidAddress (''unknown upstream_protocol: '' @ s)))"

fun protocol_display :: "protocol \<Rightarrow> string" where
  "protocol_display Http2 = ''http2''"
| "protocol_display Http3 = ''http3''"

lemma tag_from_as_u8 [simp]: "tag_from_u8 (tag_as_u8 t) = Some t"
  by (cases t) (simp_all add: tag_from_u8_def)

lemma tag_as_u8_small: "tag_as_u8 t < 64"
  by (cases t) simp_all

lemma tag_from_u8_None: "tag_from_u8 v = None \<longleftrightarrow> 0x0F < v"
proof
  assume "0x0F < v"
  then show "tag_from_u8 v = None"
    by (auto simp: tag_from_u8_def)
next
  assume none: "tag_from_u8 v = None"
  show "0x0F < v"
  proof (rule ccontr)
    assume "\<not> 0x0F < v"
    then have "unat v < 16" by (simp add: word_less_nat_alt)
    then have "unat v \<in> set [0..<16]" by simp
    then have "word_of_nat (unat v) \<in> (word_of_nat ` set [0..<16] :: u8 set)"
      by (rule imageI)
    with none show False
      by (auto simp: tag_from_u8_def upt_conv_Cons split: if_splits)
  qed
qed

lemma protocol_from_as_u8 [simp]: "protocol_from_u8 (protocol_as_u8 p) = Inr p"
  by (cases p) (simp_all add: protocol_from_u8_def)

lemma protocol_from_str_display [simp]: "protocol_from_str (protocol_display p) = Inr p"
  by (cases p) (simp_all add: protocol_from_str_def)

section \<open>The configuration\<close>

definition CURRENT_VERSION :: u64 where
  "CURRENT_VERSION = 2"

record deep_link_config =
  hostname :: "string option"
  addresses :: "string list"
  username :: "string option"
  password :: "string option"
  client_random_prefix :: "string option"
  client_random_auth_key :: "string option"
  custom_sni :: "string option"
  has_ipv6 :: bool
  skip_verification :: bool
  certificate :: "bytes option"
  upstream_protocol :: protocol
  anti_dpi :: bool
  name :: "string option"
  dns_upstreams :: "string list"
  subscription_url :: "string option"

text \<open>\<open>Option::is_none_or(str::is_empty)\<close>.\<close>

definition none_or_empty :: "string option \<Rightarrow> bool" where
  "none_or_empty s = (case s of None \<Rightarrow> True | Some t \<Rightarrow> t = [])"

definition validate :: "deep_link_config \<Rightarrow> (deep_link_error, unit) result" where
  "validate c =
    (case subscription_url c of
       Some url \<Rightarrow>
         if \<not> starts_with url ''https://'' then Err (InvalidSubscriptionUrl url) else Ok ()
     | None \<Rightarrow>
         if none_or_empty (hostname c) then Err (MissingRequiredField ''hostname'')
         else if addresses c = [] then Err (MissingRequiredField ''addresses'')
         else if none_or_empty (username c) then Err (MissingRequiredField ''username'')
         else if none_or_empty (password c) then Err (MissingRequiredField ''password'')
         else Ok ())"

text \<open>What a validated configuration is: an HTTPS subscription, or all static parameters.\<close>

lemma validate_Ok_iff:
  "validate c = Inr () \<longleftrightarrow>
     (\<exists>r. subscription_url c = Some (''https://'' @ r)) \<or>
     (subscription_url c = None \<and> \<not> none_or_empty (hostname c) \<and> addresses c \<noteq> []
      \<and> \<not> none_or_empty (username c) \<and> \<not> none_or_empty (password c))"
  by (cases "subscription_url c") (auto simp: validate_def starts_with_iff)

section \<open>The builder\<close>

record deep_link_config_builder =
  b_hostname :: "string option"
  b_addresses :: "string list option"
  b_username :: "string option"
  b_password :: "string option"
  b_client_random_prefix :: "string option"
  b_client_random_auth_key :: "string option"
  b_custom_sni :: "string option"
  b_has_ipv6 :: "bool option"
  b_skip_verification :: "bool option"
  b_certificate :: "bytes option"
  b_upstream_protocol :: "protocol option"
  b_anti_dpi :: "bool option"
  b_name :: "string option"
  b_dns_upstreams :: "string list option"
  b_subscription_url :: "string option"

definition builder :: deep_link_config_builder where
  "builder = \<lparr>b_hostname = None, b_addresses = None, b_username = None, b_password = None,
     b_client_random_prefix = None, b_client_random_auth_key = None, b_custom_sni = None,
     b_has_ipv6 = None, b_skip_verification = None, b_certificate = None,
     b_upstream_protocol = None, b_anti_dpi = None, b_name = None, b_dns_upstreams = None,
     b_subscription_url = None\<rparr>"

text \<open>The setters; an argument of type \<open>Option\<close> replaces the field, any other sets it.\<close>

definition with_hostname :: "string \<Rightarrow> deep_link_config_builder \<Rightarrow> deep_link_config_builder" where
  "with_hostname v self = self\<lparr>b_hostname := Some v\<rparr>"

definition with_addresses :: "string list \<Rightarrow> deep_link_config_builder \<Rightarrow> deep_link_config_builder" where
  "with_addresses v self = self\<lparr>b_addresses := Some v\<rparr>"

definition with_username :: "string \<Rightarrow> deep_link_config_builder \<Rightarrow> deep_link_config_builder" where
  "with_username v self = self\<lparr>b_username := Some v\<rparr>"

definition with_password :: "string \<Rightarrow> deep_link_config_builder \<Rightarrow> deep_link_config_builder" where
  "with_password v self = self\<lparr>b_password := Some v\<rparr>"

definition with_custom_sni :: "string option \<Rightarrow> deep_link_config_builder \<Rightarrow> deep_link_config_builder" where
  "with_custom_sni v self = self\<lparr>b_custom_sni := v\<rparr>"

definition with_has_ipv6 :: "bool \<Rightarrow> deep_link_config_builder \<Rightarrow> deep_link_config_builder" where
  "with_has_ipv6 v self = self\<lparr>b_has_ipv6 := Some v\<rparr>"

definition with_skip_verification :: "bool \<Rightarrow> deep_link_config_builder \<Rightarrow> deep_link_config_builder" where
  "with_skip_verification v self = self\<lparr>b_skip_verification := Some v\<rparr>"

definition with_certificate :: "bytes option \<Rightarrow> deep_link_config_builder \<Rightarrow> deep_link_config_builder" where
  "with_certificate v self = self\<lparr>b_certificate := v\<rparr>"

definition with_upstream_protocol :: "protocol \<Rightarrow> deep_link_config_builder \<Rightarrow> deep_link_config_builder" where
  "with_upstream_protocol v self = self\<lparr>b_upstream_protocol := Some v\<rparr>"

definition with_anti_dpi :: "bool \<Rightarrow> deep_link_config_builder \<Rightarrow> deep_link_config_builder" where
  "with_anti_dpi v self = self\<lparr>b_anti_dpi := Some v\<rparr>"

definition with_client_random_prefix :: "string option \<Rightarrow> deep_link_config_builder \<Rightarrow> deep_link_config_builder" where
  "with_client_random_prefix v self = self\<lparr>b_client_random_prefix := v\<rparr>"

definition with_client_random_auth_key :: "string option \<Rightarrow> deep_link_config_builder \<Rightarrow> deep_link_config_builder" where
  "with_client_random_auth_key v self = self\<lparr>b_client_random_auth_key := v\<rparr>"

definition with_name :: "string option \<Rightarrow> deep_link_config_builder \<Rightarrow> deep_link_config_builder" where
  "with_name v self = self\<lparr>b_name := v\<rparr>"

definition with_dns_upstreams :: "string list \<Rightarrow> deep_link_config_builder \<Rightarrow> deep_link_config_builder" where
  "with_dns_upstreams v self = self\<lparr>b_dns_upstreams := Some v\<rparr>"

definition with_subscription_url :: "string option \<Rightarrow> deep_link_config_builder \<Rightarrow> deep_link_config_builder" where
  "with_subscription_url v self = self\<lparr>b_subscription_url := v\<rparr>"

lemmas setter_defs =
  with_hostname_def with_addresses_def with_username_def with_password_def with_custom_sni_def
  with_has_ipv6_def with_skip_verification_def with_certificate_def with_upstream_protocol_def
  with_anti_dpi_def with_client_random_prefix_def with_client_random_auth_key_def with_name_def
  with_dns_upstreams_def with_subscription_url_def

definition unwrap_or :: "'a \<Rightarrow> 'a option \<Rightarrow> 'a" where
  "unwrap_or d x = (case x of None \<Rightarrow> d | Some y \<Rightarrow> y)"

lemma unwrap_or_simps [simp]: "unwrap_or d None = d" "unwrap_or d (Some x) = x"
  by (simp_all add: unwrap_or_def)

text \<open>The check \<open>build\<close> makes of an optional hexadecimal field, with the name it reports.\<close>

definition check_hex_field ::
  "(string \<Rightarrow> (string, bytes) result) \<Rightarrow> string \<Rightarrow> string option \<Rightarrow> (deep_link_error, unit) result"
where
  "check_hex_field hex_decode field v =
    (case v of
       None \<Rightarrow> Ok ()
     | Some s \<Rightarrow>
         if s \<noteq> [] then
           rbind (map_err (\<lambda>e. InvalidAddress (field @ '' must be valid hex: '' @ e)) (hex_decode s))
             (\<lambda>_. Ok ())
         else Ok ())"

definition build ::
  "(string \<Rightarrow> (string, bytes) result) \<Rightarrow> deep_link_config_builder
    \<Rightarrow> (deep_link_error, deep_link_config) result" where
  "build hex_decode b =
    rbind (check_hex_field hex_decode ''client_random_prefix'' (b_client_random_prefix b)) (\<lambda>_.
    rbind (check_hex_field hex_decode ''client_random_auth_key'' (b_client_random_auth_key b)) (\<lambda>_.
    let config = \<lparr>
      hostname = b_hostname b,
      addresses = unwrap_or [] (b_addresses b),
      username = b_username b,
      password = b_password b,
      client_random_prefix = b_client_random_prefix b,
      client_random_auth_key = b_client_random_auth_key b,
      custom_sni = b_custom_sni b,
      has_ipv6 = unwrap_or True (b_has_ipv6 b),
      skip_verification = unwrap_or False (b_skip_verification b),
      certificate = b_certificate b,
      upstream_protocol = unwrap_or Http2 (b_upstream_protocol b),
      anti_dpi = unwrap_or False (b_anti_dpi b),
      name = b_name b,
      dns_upstreams = unwrap_or [] (b_dns_upstreams b),
      subscription_url = b_subscription_url b\<rparr>
    in rbind (validate config) (\<lambda>_. Ok config)))"

text \<open>The builder that the setters produce for a given configuration.\<close>

definition if_some :: "('a \<Rightarrow> 'b \<Rightarrow> 'b) \<Rightarrow> 'a option \<Rightarrow> 'b \<Rightarrow> 'b" where
  "if_some f v b = (case v of None \<Rightarrow> b | Some x \<Rightarrow> f x b)"

definition builder_of :: "deep_link_config \<Rightarrow> deep_link_config_builder" where
  "builder_of c =
    (with_subscription_url (subscription_url c) \<circ> with_dns_upstreams (dns_upstreams c)
     \<circ> with_name (name c) \<circ> with_client_random_auth_key (client_random_auth_key c)
     \<circ> with_client_random_prefix (client_random_prefix c) \<circ> with_anti_dpi (anti_dpi c)
     \<circ> with_upstream_protocol (upstream_protocol c) \<circ> with_certificate (certificate c)
     \<circ> with_skip_verification (skip_verification c) \<circ> with_has_ipv6 (has_ipv6 c)
     \<circ> with_custom_sni (custom_sni c) \<circ> if_some with_password (password c)
     \<circ> if_some with_username (username c) \<circ> with_addresses (addresses c)
     \<circ> if_some with_hostname (hostname c)) builder"

text \<open>The value a field has after it was set, or left alone.\<close>

definition merge :: "'a option \<Rightarrow> 'a option \<Rightarrow> 'a option" where
  "merge v old = (case v of None \<Rightarrow> old | Some x \<Rightarrow> Some x)"

lemma merge_None [simp]: "merge v None = v"
  by (cases v) (simp_all add: merge_def)

lemma if_some_updates:
  "if_some with_hostname v b = b\<lparr>b_hostname := merge v (b_hostname b)\<rparr>"
  "if_some with_username v b = b\<lparr>b_username := merge v (b_username b)\<rparr>"
  "if_some with_password v b = b\<lparr>b_password := merge v (b_password b)\<rparr>"
  by (cases v; simp add: if_some_def setter_defs merge_def)+

lemma check_hex_field_Ok_iff:
  "check_hex_field hex_decode f v = Inr u \<longleftrightarrow>
     (\<forall>s. v = Some s \<and> s \<noteq> [] \<longrightarrow> is_ok (hex_decode s))"
  by (auto simp: check_hex_field_def is_ok_iff rbind_eq_Inr_iff split: option.splits)

lemma build_validates: "build hex_decode b = Inr c \<Longrightarrow> validate c = Inr ()"
  by (auto simp: build_def rbind_eq_Inr_iff Let_def)

lemma build_hex_valid:
  assumes "build hex_decode b = Inr c"
  shows "client_random_prefix c = Some s \<Longrightarrow> s \<noteq> [] \<Longrightarrow> is_ok (hex_decode s)"
    and "client_random_auth_key c = Some s \<Longrightarrow> s \<noteq> [] \<Longrightarrow> is_ok (hex_decode s)"
  using assms by (auto simp: build_def rbind_eq_Inr_iff Let_def check_hex_field_Ok_iff)

lemma build_builder_of:
  assumes "validate c = Inr ()"
    and "\<And>s. client_random_prefix c = Some s \<Longrightarrow> s \<noteq> [] \<Longrightarrow> is_ok (hex_decode s)"
    and "\<And>s. client_random_auth_key c = Some s \<Longrightarrow> s \<noteq> [] \<Longrightarrow> is_ok (hex_decode s)"
  shows "build hex_decode (builder_of c) = Inr c"
proof -
  have "check_hex_field hex_decode f (client_random_prefix c) = Inr ()"
    and "check_hex_field hex_decode f (client_random_auth_key c) = Inr ()" for f
    using assms(2,3) by (auto simp: check_hex_field_Ok_iff)
  with assms(1) show ?thesis
    by (cases c) (simp add: build_def builder_of_def if_some_updates setter_defs builder_def Let_def)
qed

section \<open>Properties\<close>

text \<open>
  \<open>build\<close> returns a configuration exactly when the client-random fields that are present and
  non-empty are hexadecimal and the assembled configuration validates: every configuration that
  meets the two conditions can be built with the setters, and everything built meets them.
\<close>

theorem builder_builds_valid_configs:
  "(\<exists>b. build hex_decode b = Inr c) \<longleftrightarrow>
     validate c = Inr ()
     \<and> check_hex_field hex_decode ''client_random_prefix'' (client_random_prefix c) = Inr ()
     \<and> check_hex_field hex_decode ''client_random_auth_key'' (client_random_auth_key c) = Inr ()"
proof
  assume "\<exists>b. build hex_decode b = Inr c"
  then obtain b where b: "build hex_decode b = Inr c" by blast
  from build_validates [OF b] build_hex_valid [OF b]
  show "validate c = Inr ()
     \<and> check_hex_field hex_decode ''client_random_prefix'' (client_random_prefix c) = Inr ()
     \<and> check_hex_field hex_decode ''client_random_auth_key'' (client_random_auth_key c) = Inr ()"
    by (simp add: check_hex_field_Ok_iff)
next
  assume "validate c = Inr ()
     \<and> check_hex_field hex_decode ''client_random_prefix'' (client_random_prefix c) = Inr ()
     \<and> check_hex_field hex_decode ''client_random_auth_key'' (client_random_auth_key c) = Inr ()"
  then have "build hex_decode (builder_of c) = Inr c"
    by (intro build_builder_of) (simp_all add: check_hex_field_Ok_iff)
  then show "\<exists>b. build hex_decode b = Inr c" by blast
qed

end
