(* ===== verification/Varint.thy ===== *)
theory Varint
  imports Deeplink_Types
begin

text \<open>
  Variable-length integers of \<^verbatim>\<open>deeplink/src/varint.rs\<close> (RFC 9000, section 16): the encoder and
  the offset-based decoder, translated branch by branch, their reading as arithmetic on natural
  numbers, and the round trip at an arbitrary position of a larger buffer.
\<close>

section \<open>Operations\<close>

definition encode_varint :: "u64 \<Rightarrow> (deep_link_error, bytes) result" where
  "encode_varint value =
    (if value \<le> 0x3F then Ok [ucast value]
     else if value \<le> 0x3FFF then Ok (to_be 2 (unat (ucast (value OR 0x4000) :: u16)))
     else if value \<le> 0x3FFFFFFF then Ok (to_be 4 (unat (ucast (value OR 0x80000000) :: u32)))
     else if value \<le> 0x3FFFFFFFFFFFFFFF then Ok (to_be 8 (unat (value OR 0xC000000000000000)))
     else Err (VarintOverflow value))"

definition varint_eof :: "string \<Rightarrow> io_error" where
  "varint_eof msg = IoError UnexpectedEof msg"

definition decode_varint :: "bytes \<Rightarrow> nat \<Rightarrow> (io_error, u64 \<times> nat) result" where
  "decode_varint data offset =
    (if length data \<le> offset then
       Err (varint_eof ''unexpected end of data while reading varint'')
     else
       let first = data ! offset; prefix = drop_bit 6 first in
       if prefix = 0 then Ok (ucast (first AND 0x3F), offset + 1)
       else if prefix = 1 then
         if length data < offset + 2 then Err (varint_eof ''truncated 2-byte varint'')
         else
           let value = (word_of_nat (of_be [data ! offset, data ! (offset + 1)]) :: u16) AND 0x3FFF
           in Ok (ucast value, offset + 2)
       else if prefix = 2 then
         if length data < offset + 4 then Err (varint_eof ''truncated 4-byte varint'')
         else
           let value = (word_of_nat (of_be [data ! offset, data ! (offset + 1),
                          data ! (offset + 2), data ! (offset + 3)]) :: u32) AND 0x3FFFFFFF
           in Ok (ucast value, offset + 4)
       else
         if length data < offset + 8 then Err (varint_eof ''truncated 8-byte varint'')
         else
           let value = (word_of_nat (of_be [data ! offset, data ! (offset + 1),
                          data ! (offset + 2), data ! (offset + 3), data ! (offset + 4),
                          data ! (offset + 5), data ! (offset + 6), data ! (offset + 7)]) :: u64)
                        AND 0x3FFFFFFFFFFFFFFF
           in Ok (value, offset + 8))"

section \<open>Reading as arithmetic\<close>

text \<open>The number of bytes that a varint with this first byte occupies.\<close>

definition varint_width :: "u8 \<Rightarrow> nat" where
  "varint_width first = 2 ^ (unat first div 64)"

lemma unat_div_64_less: "unat (b :: u8) div 64 < 4"
  using unat_byte_less [of b] by linarith

lemma unat_drop_bit_6: "unat (drop_bit 6 (b :: u8)) = unat b div 64"
  by (simp add: unsigned_drop_bit_eq drop_bit_nat_def take_bit_nat_eq_self unat_div_64_less
      order_less_le_trans [OF unat_byte_less])

lemma drop_bit_6_eq: "drop_bit 6 (b :: u8) = word_of_nat k \<longleftrightarrow> unat b div 64 = k" if "k < 4"
  using that by (auto simp: word_unat_eq_iff unat_drop_bit_6 unat_of_nat_byte)

lemma take_drop_nth:
  assumes "offset + k \<le> length xs"
  shows "take k (drop offset xs) = map (\<lambda>i. xs ! (offset + i)) [0..<k]"
  using assms by (intro nth_equalityI) auto

lemma ucast_and_mask:
  fixes n k :: nat
  assumes "k \<le> LENGTH('a)" and "LENGTH('a) \<le> 64"
  shows "(ucast ((word_of_nat n :: 'a::len word) AND mask k) :: u64) = word_of_nat (n mod 2 ^ k)"
proof -
  have "n mod 2 ^ LENGTH('a) mod 2 ^ k = n mod 2 ^ k"
    using assms(1) by (simp add: mod_mod_cancel le_imp_power_dvd)
  moreover have "n mod 2 ^ k < 2 ^ 64"
  proof -
    have "n mod 2 ^ k < 2 ^ k" by simp
    also have "(2::nat) ^ k \<le> 2 ^ 64" using assms by (intro power_increasing) auto
    finally show ?thesis .
  qed
  ultimately show ?thesis
    by (simp add: word_unat_eq_iff unsigned_ucast_eq unat_and_mask unat_of_nat take_bit_nat_def)
qed

lemma slice_bytes:
  "offset < length xs \<Longrightarrow> take 1 (drop offset xs) = [xs ! offset]"
  "offset + 2 \<le> length xs \<Longrightarrow> take 2 (drop offset xs) = [xs ! offset, xs ! (offset + 1)]"
  "offset + 4 \<le> length xs \<Longrightarrow> take 4 (drop offset xs) =
     [xs ! offset, xs ! (offset + 1), xs ! (offset + 2), xs ! (offset + 3)]"
  "offset + 8 \<le> length xs \<Longrightarrow> take 8 (drop offset xs) =
     [xs ! offset, xs ! (offset + 1), xs ! (offset + 2), xs ! (offset + 3),
      xs ! (offset + 4), xs ! (offset + 5), xs ! (offset + 6), xs ! (offset + 7)]"
  by (simp_all add: take_drop_nth upt_conv_Cons eval_nat_numeral)

lemma varint_masks:
  "(0x3F :: u8) = mask 6" "(0x3FFF :: u16) = mask 14" "(0x3FFFFFFF :: u32) = mask 30"
  "(0x3FFFFFFFFFFFFFFF :: u64) = mask 62"
  by (simp_all add: mask_eq_exp_minus_1)

lemma varint_width_cases:
  obtains "drop_bit 6 b = 0" "varint_width b = 1"
  | "drop_bit 6 b = 1" "varint_width b = 2"
  | "drop_bit 6 b = 2" "varint_width b = 4"
  | "drop_bit 6 b = 3" "varint_width b = 8"
proof -
  have "unat b div 64 = 0 \<or> unat b div 64 = 1 \<or> unat b div 64 = 2 \<or> unat b div 64 = 3"
    using unat_div_64_less [of b] by linarith
  with drop_bit_6_eq [of 0 b] drop_bit_6_eq [of 1 b] drop_bit_6_eq [of 2 b] drop_bit_6_eq [of 3 b]
  show thesis
    by (elim disjE) (auto simp: varint_width_def intro: that)
qed

lemma decode_varint_Ok:
  assumes "offset < length data" and "offset + varint_width (data ! offset) \<le> length data"
  shows "decode_varint data offset =
    Inr (word_of_nat (of_be (take (varint_width (data ! offset)) (drop offset data))
           mod 2 ^ (8 * varint_width (data ! offset) - 2)),
         offset + varint_width (data ! offset))"
proof -
  have byte: "ucast (w AND mask 6) = (word_of_nat (unat w mod 2 ^ 6) :: u64)" for w :: u8
    using ucast_and_mask [where 'a = 8, of 6 "unat w"] by simp
  have full: "word_of_nat n AND mask 62 = (word_of_nat (n mod 2 ^ 62) :: u64)" for n
    using ucast_and_mask [where 'a = 64, of 62 n] by simp
  have one: "of_be (take (Suc 0) (drop offset data)) = unat (data ! offset)"
    using assms(1) slice_bytes(1) [of offset data] by simp
  show ?thesis
    using assms
    by (cases "data ! offset" rule: varint_width_cases)
      (simp_all add: decode_varint_def Let_def one slice_bytes varint_masks byte full
        ucast_and_mask del: of_be.simps(2) power.simps)
qed

lemma decode_varint_Err:
  assumes "length data \<le> offset \<or> length data < offset + varint_width (data ! offset)"
  shows "\<exists>msg. decode_varint data offset = Inl (varint_eof msg)"
  using assms
  by (cases "data ! offset" rule: varint_width_cases) (auto simp: decode_varint_def Let_def)

lemma varint_width_bounds: "0 < varint_width b" "varint_width b \<le> 8"
  by (cases b rule: varint_width_cases; simp)+

lemma decode_varint_InrE:
  assumes "decode_varint data offset = Inr (v, offset')"
  obtains k where "k = varint_width (data ! offset)" "offset + k \<le> length data"
    "offset' = offset + k"
    "unat v = of_be (take k (drop offset data)) mod 2 ^ (8 * k - 2)"
proof -
  let ?k = "varint_width (data ! offset)"
  from assms decode_varint_Err [of data offset]
  have in_range: "offset < length data" "offset + ?k \<le> length data"
    by (metis Inl_Inr_False not_le)+
  let ?n = "of_be (take ?k (drop offset data)) mod 2 ^ (8 * ?k - 2)"
  have "Inr (v, offset') = (Inr (word_of_nat ?n, offset + ?k) :: (io_error, u64 \<times> nat) result)"
    using decode_varint_Ok [OF in_range] assms by (simp only:)
  then have v: "v = word_of_nat ?n" and o: "offset' = offset + ?k"
    by (simp_all only: sum.inject prod.inject)
  have "?n < 2 ^ (8 * ?k - 2)" by simp
  also have "(2::nat) ^ (8 * ?k - 2) \<le> 2 ^ 64"
    using varint_width_bounds(2) [of "data ! offset"] by (intro power_increasing) auto
  finally have "unat v = ?n"
    unfolding v unat_of_nat by (intro mod_less) (simp only: len_bit0 len_num1, simp)
  with in_range o show thesis by (intro that) auto
qed

text \<open>A successful decode consumes the bytes of one varint, all inside the buffer.\<close>

lemma decode_varint_SomeD:
  assumes "decode_varint data offset = Inr (v, offset')"
  shows "offset < offset'" and "offset' \<le> length data" and "offset' \<le> offset + 8"
    and "unat v < 2 ^ 62"
proof -
  from assms obtain k where k: "k = varint_width (data ! offset)" and r: "offset + k \<le> length data"
    and o: "offset' = offset + k"
    and v: "unat v = of_be (take k (drop offset data)) mod 2 ^ (8 * k - 2)"
    by (rule decode_varint_InrE)
  have kb: "0 < k" "k \<le> 8" using varint_width_bounds k by auto
  from o r kb show "offset < offset'" "offset' \<le> length data" "offset' \<le> offset + 8"
    by simp_all
  have "unat v < 2 ^ (8 * k - 2)" by (simp only: v) simp
  also have "(2::nat) ^ (8 * k - 2) \<le> 2 ^ 62"
    using kb by (intro power_increasing) auto
  finally show "unat v < 2 ^ 62" .
qed

section \<open>Encoding as arithmetic, and the round trip\<close>

lemma encode_varint_nat:
  "encode_varint v =
    (if unat v < 2 ^ 6 then Inr (to_be 1 (unat v))
     else if unat v < 2 ^ 14 then Inr (to_be 2 (unat v + 2 ^ 14))
     else if unat v < 2 ^ 30 then Inr (to_be 4 (unat v + 2 ^ 31))
     else if unat v < 2 ^ 62 then Inr (to_be 8 (unat v + 3 * 2 ^ 62))
     else Inl (VarintOverflow v))"
proof -
  have "unat (ucast (v OR 0x4000) :: u16) = unat v + 2 ^ 14" if "unat v < 2 ^ 14"
    using unat_or_high [of v 14 "0x4000"] that by (simp add: unsigned_ucast_eq take_bit_nat_def)
  moreover have "unat (ucast (v OR 0x80000000) :: u32) = unat v + 2 ^ 31" if "unat v < 2 ^ 30"
    using unat_or_high [of v 31 "0x80000000"] that
    by (simp add: unsigned_ucast_eq take_bit_nat_def)
  moreover have "unat (v OR 0xC000000000000000) = unat v + 3 * 2 ^ 62" if "unat v < 2 ^ 62"
    using unat_or_high [of v 62 "0xC000000000000000"] that by simp
  moreover have "ucast v = (word_of_nat (unat v) :: u8)"
    by simp
  ultimately show ?thesis
    by (simp add: encode_varint_def word_le_nat_alt del: unsigned_or_eq)
qed

lemma decode_varint_to_be:
  assumes j: "j < 4" and k: "k = 2 ^ j" and n: "n < 2 ^ (8 * k - 2)"
  shows "decode_varint (pre @ to_be k (n + j * 2 ^ (8 * k - 2)) @ post) (length pre) =
    Inr (word_of_nat n, length pre + k)"
proof -
  let ?m = "n + j * 2 ^ (8 * k - 2)"
  let ?data = "pre @ to_be k ?m @ post"
  have "0 < k" using k by simp
  then obtain i where i: "k = Suc i" using gr0_implies_Suc by blast
  then have pw: "2 ^ (8 * k - 2) = 256 ^ i * (64::nat)" "(256::nat) ^ k = 4 * 2 ^ (8 * k - 2)"
  proof -
    have "8 * k - 2 = 8 * i + 6" using i by simp
    then have "2 ^ (8 * k - 2) = 2 ^ (8 * i) * (64::nat)" by (simp add: power_add)
    also have "(2::nat) ^ (8 * i) = 256 ^ i" by (simp add: power_mult)
    finally show "2 ^ (8 * k - 2) = 256 ^ i * (64::nat)" .
    then show "(256::nat) ^ k = 4 * 2 ^ (8 * k - 2)" using i by simp
  qed
  have m: "?m < 256 ^ k"
  proof -
    have "j * 2 ^ (8 * k - 2) \<le> 3 * 2 ^ (8 * k - 2)" using j by (intro mult_le_mono1) simp
    with n pw(2) show ?thesis by linarith
  qed
  have first: "?data ! length pre = word_of_nat (?m div 256 ^ i)"
    using i by (simp add: nth_append)
  have "?m div 256 ^ i < 256" using m i by (simp add: less_mult_imp_div_less)
  then have "unat (?data ! length pre) = ?m div 256 ^ i" by (simp add: first unat_of_nat_byte)
  then have "unat (?data ! length pre) div 64 = ?m div 2 ^ (8 * k - 2)"
    by (simp add: pw(1) div_mult2_eq)
  also have "\<dots> = j" using n by simp
  finally have width: "varint_width (?data ! length pre) = k"
    by (simp add: varint_width_def k)
  have "take k (drop (length pre) ?data) = to_be k ?m" by simp
  then have val: "of_be (take k (drop (length pre) ?data)) = ?m"
    using m by simp
  from i have "length pre < length ?data" by simp
  moreover have "length pre + varint_width (?data ! length pre) \<le> length ?data"
    using width by simp
  ultimately have "decode_varint ?data (length pre) =
      Inr (word_of_nat (?m mod 2 ^ (8 * k - 2)), length pre + k)"
    using decode_varint_Ok [of "length pre" ?data] by (simp only: width val)
  then show ?thesis
    using n by (simp only: mod_mult_self1 mod_less)
qed

text \<open>The width class \<open>j\<close> that the encoder picks, and the integer it lays out.\<close>

lemma encode_varint_cases:
  assumes "encode_varint v = Inr bs"
  obtains j k where "j < 4" "k = 2 ^ j" "unat v < 2 ^ (8 * k - 2)"
    "bs = to_be k (unat v + j * 2 ^ (8 * k - 2))"
proof (cases "unat v < 2 ^ 6")
  case True
  with assms have "bs = to_be 1 (unat v)" by (simp add: encode_varint_nat)
  with True show thesis by (intro that [of 0 1]) simp_all
next
  case ge6: False
  show thesis
  proof (cases "unat v < 2 ^ 14")
    case True
    with assms ge6 have "bs = to_be 2 (unat v + 2 ^ 14)" by (simp add: encode_varint_nat)
    with True show thesis by (intro that [of 1 2]) simp_all
  next
    case ge14: False
    show thesis
    proof (cases "unat v < 2 ^ 30")
      case True
      with assms ge6 ge14 have "bs = to_be 4 (unat v + 2 ^ 31)" by (simp add: encode_varint_nat)
      with True show thesis by (intro that [of 2 4]) simp_all
    next
      case ge30: False
      have lt: "unat v < 2 ^ 62"
      proof (rule ccontr)
        assume "\<not> unat v < 2 ^ 62"
        with assms ge6 ge14 ge30 show False by (simp add: encode_varint_nat)
      qed
      with assms ge6 ge14 ge30 have "bs = to_be 8 (unat v + 3 * 2 ^ 62)"
        by (simp add: encode_varint_nat)
      with lt show thesis by (intro that [of 3 8]) simp_all
    qed
  qed
qed

lemma decode_encode_varint:
  assumes "encode_varint v = Inr bs"
  shows "decode_varint (pre @ bs @ post) (length pre) = Inr (v, length pre + length bs)"
  using assms by (rule encode_varint_cases) (simp add: decode_varint_to_be)

text \<open>Every varint that decodes has a canonical encoding that decodes to the same value, and
  that is never longer than the one read.\<close>

lemma encode_varint_Ok_iff: "is_ok (encode_varint v) \<longleftrightarrow> unat v < 2 ^ 62"
  by (cases "unat v < 2 ^ 6"; cases "unat v < 2 ^ 14"; cases "unat v < 2 ^ 30";
      cases "unat v < 2 ^ 62"; simp add: encode_varint_nat)

lemma encode_varint_length:
  assumes "encode_varint v = Inr bs"
  shows "length bs = (if unat v < 2 ^ 6 then 1 else if unat v < 2 ^ 14 then 2
                 else if unat v < 2 ^ 30 then 4 else 8)"
proof -
  from assms have "unat v < 2 ^ 62"
    using encode_varint_Ok_iff [of v] by simp
  with assms show ?thesis
    by (cases "unat v < 2 ^ 6"; cases "unat v < 2 ^ 14"; cases "unat v < 2 ^ 30")
      (auto simp: encode_varint_nat)
qed

lemma encode_varint_byte: "unat v < 64 \<Longrightarrow> encode_varint v = Inr [word_of_nat (unat v)]"
  by (simp add: encode_varint_nat)

lemma encode_varint_shortest:
  assumes "decode_varint data offset = Inr (v, offset')"
  shows "\<exists>bs. encode_varint v = Inr bs \<and> length bs \<le> offset' - offset"
proof -
  from assms obtain k where k: "k = varint_width (data ! offset)" and o: "offset' = offset + k"
    and v: "unat v = of_be (take k (drop offset data)) mod 2 ^ (8 * k - 2)"
    by (rule decode_varint_InrE)
  from decode_varint_SomeD(4) [OF assms] obtain bs where bs: "encode_varint v = Inr bs"
    using encode_varint_Ok_iff [of v] is_ok_iff [of "encode_varint v"] by blast
  define n where "n = unat v"
  have n: "n < 2 ^ (8 * k - 2)" by (simp only: n_def v) simp
  have len: "length bs = (if n < 2 ^ 6 then 1 else if n < 2 ^ 14 then 2
      else if n < 2 ^ 30 then 4 else 8)"
    using encode_varint_length [OF bs] unfolding n_def .
  have "k = 1 \<or> k = 2 \<or> k = 4 \<or> k = 8"
    by (cases "data ! offset" rule: varint_width_cases) (simp_all add: k)
  then have "length bs \<le> k"
    using n unfolding len by (elim disjE) (simp_all only: split: if_split, simp_all)
  with bs o show ?thesis by auto
qed

end
