(* ===== verification/Deeplink_Encode.thy ===== *)
theory Deeplink_Encode
  imports Varint
begin

text \<open>
  The encoder of \<^verbatim>\<open>deeplink/src/encode.rs\<close>: tag-length-value entries, the payload of a
  configuration and the \<^verbatim>\<open>tt://?\<close> link. Base64 comes from a crate outside the repository and
  is the argument \<open>b64_encode\<close> of \<open>encode\<close>.

  The second half describes a payload as a list of fields: a successful \<open>encode_tlv_payload\<close>
  is the concatenation of the entries of \<open>config_fields\<close>.
\<close>

section \<open>Operations\<close>

definition PREFIX :: string where
  "PREFIX = ''tt://?''"

definition encode_tlv :: "tlv_tag \<Rightarrow> bytes \<Rightarrow> (deep_link_error, bytes) result" where
  "encode_tlv tag value =
    rbind (encode_varint (ucast (tag_as_u8 tag))) (\<lambda>result.
    rbind (encode_varint (word_of_nat (length value))) (\<lambda>len.
    Ok (result @ len @ value)))"

definition encode_string_field :: "tlv_tag \<Rightarrow> string \<Rightarrow> (deep_link_error, bytes) result" where
  "encode_string_field tag value = encode_tlv tag (as_bytes value)"

definition encode_bool_field :: "tlv_tag \<Rightarrow> bool \<Rightarrow> (deep_link_error, bytes) result" where
  "encode_bool_field tag value = encode_tlv tag (if value then [0x01] else [0x00])"

definition encode_protocol_field :: "protocol \<Rightarrow> (deep_link_error, bytes) result" where
  "encode_protocol_field p = encode_tlv UpstreamProtocol [protocol_as_u8 p]"

fun encode_string_array :: "string list \<Rightarrow> (deep_link_error, bytes) result" where
  "encode_string_array [] = Ok []"
| "encode_string_array (s # ss) =
    rbind (encode_varint (word_of_nat (length (as_bytes s)))) (\<lambda>len.
    rbind (encode_string_array ss) (\<lambda>rest.
    Ok (len @ as_bytes s @ rest)))"

text \<open>\<open>if let Some(ref v) = field\<close> and \<open>if condition\<close> around one \<open>payload.extend\<close>.\<close>

definition encode_if_some ::
  "('a \<Rightarrow> (deep_link_error, bytes) result) \<Rightarrow> 'a option \<Rightarrow> (deep_link_error, bytes) result" where
  "encode_if_some f v = (case v of None \<Rightarrow> Ok [] | Some x \<Rightarrow> f x)"

definition encode_if :: "bool \<Rightarrow> (deep_link_error, bytes) result \<Rightarrow> (deep_link_error, bytes) result" where
  "encode_if b r = (if b then r else Ok [])"

fun encode_addresses :: "string list \<Rightarrow> (deep_link_error, bytes) result" where
  "encode_addresses [] = Ok []"
| "encode_addresses (addr # rest) =
    rbind (encode_string_field Address addr) (\<lambda>b.
    rbind (encode_addresses rest) (\<lambda>bs. Ok (b @ bs)))"

definition encode_tlv_payload :: "deep_link_config \<Rightarrow> (deep_link_error, bytes) result" where
  "encode_tlv_payload config =
    rbind (validate config) (\<lambda>_.
    rbind (encode_varint CURRENT_VERSION) (\<lambda>version_bytes.
    rbind (encode_tlv Version version_bytes) (\<lambda>b_version.
    rbind (encode_if_some (encode_string_field Hostname) (hostname config)) (\<lambda>b_host.
    rbind (encode_if_some (encode_string_field Username) (username config)) (\<lambda>b_user.
    rbind (encode_if_some (encode_string_field Password) (password config)) (\<lambda>b_pass.
    rbind (encode_addresses (addresses config)) (\<lambda>b_addrs.
    rbind (encode_if_some
             (\<lambda>prefix. encode_if (prefix \<noteq> []) (encode_string_field ClientRandomPrefix prefix))
             (client_random_prefix config)) (\<lambda>b_prefix.
    rbind (encode_if_some
             (\<lambda>key. encode_if (key \<noteq> []) (encode_string_field ClientRandomAuthKey key))
             (client_random_auth_key config)) (\<lambda>b_key.
    rbind (encode_if_some (encode_string_field CustomSni) (custom_sni config)) (\<lambda>b_sni.
    rbind (encode_if (\<not> has_ipv6 config) (encode_bool_field HasIpv6 False)) (\<lambda>b_ipv6.
    rbind (encode_if (skip_verification config) (encode_bool_field SkipVerification True)) (\<lambda>b_skip.
    rbind (encode_if (anti_dpi config) (encode_bool_field AntiDpi True)) (\<lambda>b_dpi.
    rbind (encode_if_some (encode_tlv Certificate) (certificate config)) (\<lambda>b_cert.
    rbind (encode_if (upstream_protocol config \<noteq> Http2)
             (encode_protocol_field (upstream_protocol config))) (\<lambda>b_proto.
    rbind (encode_if_some (encode_string_field Name) (name config)) (\<lambda>b_name.
    rbind (encode_if (dns_upstreams config \<noteq> [])
             (rbind (encode_string_array (dns_upstreams config)) (encode_tlv DnsUpstreams))) (\<lambda>b_dns.
    rbind (encode_if_some (encode_string_field SubscriptionUrl) (subscription_url config)) (\<lambda>b_url.
    Ok (b_version @ b_host @ b_user @ b_pass @ b_addrs @ b_prefix @ b_key @ b_sni @ b_ipv6
        @ b_skip @ b_dpi @ b_cert @ b_proto @ b_name @ b_dns @ b_url)))))))))))))))))))"

definition encode ::
  "(bytes \<Rightarrow> string) \<Rightarrow> deep_link_config \<Rightarrow> (deep_link_error, string) result" where
  "encode b64_encode config =
    rbind (encode_tlv_payload config) (\<lambda>payload. Ok (PREFIX @ b64_encode payload))"

section \<open>A payload as a list of fields\<close>

text \<open>One entry with an arbitrary tag number, and a sequence of them.\<close>

definition raw_tlv :: "u64 \<Rightarrow> bytes \<Rightarrow> (deep_link_error, bytes) result" where
  "raw_tlv t value =
    rbind (encode_varint t) (\<lambda>a.
    rbind (encode_varint (word_of_nat (length value))) (\<lambda>b. Ok (a @ b @ value)))"

fun raw_tlvs :: "(u64 \<times> bytes) list \<Rightarrow> (deep_link_error, bytes) result" where
  "raw_tlvs [] = Ok []"
| "raw_tlvs ((t, v) # fs) = rbind (raw_tlv t v) (\<lambda>b. rbind (raw_tlvs fs) (\<lambda>bs. Ok (b @ bs)))"

definition tag_number :: "tlv_tag \<Rightarrow> u64" where
  "tag_number t = ucast (tag_as_u8 t)"

definition fields_if_some :: "('a \<Rightarrow> (tlv_tag \<times> bytes) list) \<Rightarrow> 'a option \<Rightarrow> (tlv_tag \<times> bytes) list" where
  "fields_if_some f v = (case v of None \<Rightarrow> [] | Some x \<Rightarrow> f x)"

definition string_fields :: "tlv_tag \<Rightarrow> string option \<Rightarrow> (tlv_tag \<times> bytes) list" where
  "string_fields t v = fields_if_some (\<lambda>s. [(t, as_bytes s)]) v"

definition nonempty_string_fields :: "tlv_tag \<Rightarrow> string option \<Rightarrow> (tlv_tag \<times> bytes) list" where
  "nonempty_string_fields t v = fields_if_some (\<lambda>s. if s = [] then [] else [(t, as_bytes s)]) v"

text \<open>The fields of a configuration in the order of the payload; \<open>dns\<close> is the encoded
  \<open>dns_upstreams\<close> array.\<close>

definition config_fields :: "deep_link_config \<Rightarrow> bytes \<Rightarrow> (tlv_tag \<times> bytes) list" where
  "config_fields c dns =
     [(Version, [2])] @ string_fields Hostname (hostname c) @ string_fields Username (username c)
     @ string_fields Password (password c) @ map (\<lambda>a. (Address, as_bytes a)) (addresses c)
     @ nonempty_string_fields ClientRandomPrefix (client_random_prefix c)
     @ nonempty_string_fields ClientRandomAuthKey (client_random_auth_key c)
     @ string_fields CustomSni (custom_sni c)
     @ (if has_ipv6 c then [] else [(HasIpv6, [0x00])])
     @ (if skip_verification c then [(SkipVerification, [0x01])] else [])
     @ (if anti_dpi c then [(AntiDpi, [0x01])] else [])
     @ fields_if_some (\<lambda>der. [(Certificate, der)]) (certificate c)
     @ (if upstream_protocol c \<noteq> Http2 then [(UpstreamProtocol, [protocol_as_u8 (upstream_protocol c)])]
        else [])
     @ string_fields Name (name c)
     @ (if dns_upstreams c \<noteq> [] then [(DnsUpstreams, dns)] else [])
     @ string_fields SubscriptionUrl (subscription_url c)"

definition tagged :: "(tlv_tag \<times> bytes) list \<Rightarrow> (u64 \<times> bytes) list" where
  "tagged fs = map (\<lambda>(t, v). (tag_number t, v)) fs"

lemma tagged_simps [simp]:
  "tagged [] = []" "tagged ((t, v) # fs) = (tag_number t, v) # tagged fs"
  "tagged (fs @ gs) = tagged fs @ tagged gs"
  by (simp_all add: tagged_def)

lemma encode_tlv_raw: "encode_tlv t v = raw_tlv (tag_number t) v"
  by (simp add: encode_tlv_def raw_tlv_def tag_number_def)

lemma raw_tlvs_append:
  "raw_tlvs (fs @ gs) = rbind (raw_tlvs fs) (\<lambda>a. rbind (raw_tlvs gs) (\<lambda>b. Ok (a @ b)))"
  by (induction fs rule: raw_tlvs.induct) (simp_all add: rbind_assoc rbind_def split: sum.splits)

lemma raw_tlvs_appendI:
  "raw_tlvs fs = Inr a \<Longrightarrow> raw_tlvs gs = Inr b \<Longrightarrow> raw_tlvs (fs @ gs) = Inr (a @ b)"
  by (simp add: raw_tlvs_append)

lemma raw_tlvs_single: "raw_tlvs [(t, v)] = raw_tlv t v"
  by (cases "raw_tlv t v") simp_all

text \<open>Each \<open>payload.extend\<close> appends the entries of its field.\<close>

lemma encode_string_field_fields:
  "encode_string_field t s = raw_tlvs (tagged [(t, as_bytes s)])"
  by (simp add: encode_string_field_def encode_tlv_raw raw_tlvs_single del: raw_tlvs.simps)

lemma encode_if_some_fields:
  assumes "\<And>x. f x = raw_tlvs (tagged (g x))"
  shows "encode_if_some f v = raw_tlvs (tagged (fields_if_some g v))"
  using assms by (cases v) (simp_all add: encode_if_some_def fields_if_some_def)

lemma encode_if_fields:
  "encode_if b r = Inr p \<Longrightarrow> r = raw_tlvs (tagged fs) \<Longrightarrow>
     raw_tlvs (tagged (if b then fs else [])) = Inr p"
  by (simp add: encode_if_def split: if_splits)

lemma encode_addresses_fields:
  "encode_addresses as = raw_tlvs (tagged (map (\<lambda>a. (Address, as_bytes a)) as))"
  by (induction as) (simp_all add: encode_string_field_fields raw_tlvs_single del: raw_tlvs.simps,
      simp_all)

lemma encode_bool_field_fields:
  "encode_bool_field t b = raw_tlvs (tagged [(t, if b then [0x01] else [0x00])])"
  by (simp add: encode_bool_field_def encode_tlv_raw raw_tlvs_single del: raw_tlvs.simps)

lemma encode_protocol_field_fields:
  "encode_protocol_field p = raw_tlvs (tagged [(UpstreamProtocol, [protocol_as_u8 p])])"
  by (simp add: encode_protocol_field_def encode_tlv_raw raw_tlvs_single del: raw_tlvs.simps)

lemma encode_string_option_fields:
  "encode_if_some (encode_string_field t) v = raw_tlvs (tagged (string_fields t v))"
  unfolding string_fields_def
  by (rule encode_if_some_fields) (rule encode_string_field_fields)

lemma encode_nonempty_string_fields:
  "encode_if_some (\<lambda>s. encode_if (s \<noteq> []) (encode_string_field t s)) v =
     raw_tlvs (tagged (nonempty_string_fields t v))"
  unfolding nonempty_string_fields_def
  by (rule encode_if_some_fields) (simp add: encode_if_def encode_string_field_fields)

lemma encode_certificate_fields:
  "encode_if_some (encode_tlv Certificate) v =
     raw_tlvs (tagged (fields_if_some (\<lambda>der. [(Certificate, der)]) v))"
  by (rule encode_if_some_fields) (simp add: encode_tlv_raw raw_tlvs_single del: raw_tlvs.simps)

lemma encode_version: "encode_varint CURRENT_VERSION = Inr [2]"
  by (simp add: CURRENT_VERSION_def encode_varint_def)

lemma encode_dns_fields:
  assumes "encode_if b (rbind (encode_string_array ds) (encode_tlv DnsUpstreams)) = Inr p"
  shows "\<exists>dns. (b \<longrightarrow> encode_string_array ds = Inr dns) \<and>
           raw_tlvs (tagged (if b then [(DnsUpstreams, dns)] else [])) = Inr p"
  using assms
  by (auto simp: encode_if_def rbind_eq_Inr_iff encode_tlv_raw split: if_splits)

lemmas payload_field_rules =
  encode_string_option_fields encode_nonempty_string_fields encode_certificate_fields
  encode_addresses_fields

text \<open>A successful encoding of a configuration is the concatenation of its fields.\<close>

lemma encode_tlv_payload_fields:
  assumes "encode_tlv_payload c = Inr p"
  shows "validate c = Inr ()"
    and "\<exists>dns. (dns_upstreams c \<noteq> [] \<longrightarrow> encode_string_array (dns_upstreams c) = Inr dns) \<and>
           raw_tlvs (tagged (config_fields c dns)) = Inr p"
proof -
  note chain = assms [unfolded encode_tlv_payload_def encode_version, simplified rbind_Inr]
  show "validate c = Inr ()"
    using chain by (auto simp: rbind_eq_Inr_iff)
  from chain obtain b1 b2 b3 b4 b5 b6 b7 b8 b9 b10 b11 b12 b13 b14 b15 b16 where
    fs: "encode_tlv Version [2] = Inr b1"
      "encode_if_some (encode_string_field Hostname) (hostname c) = Inr b2"
      "encode_if_some (encode_string_field Username) (username c) = Inr b3"
      "encode_if_some (encode_string_field Password) (password c) = Inr b4"
      "encode_addresses (addresses c) = Inr b5"
      "encode_if_some (\<lambda>s. encode_if (s \<noteq> []) (encode_string_field ClientRandomPrefix s))
         (client_random_prefix c) = Inr b6"
      "encode_if_some (\<lambda>s. encode_if (s \<noteq> []) (encode_string_field ClientRandomAuthKey s))
         (client_random_auth_key c) = Inr b7"
      "encode_if_some (encode_string_field CustomSni) (custom_sni c) = Inr b8"
      "encode_if (\<not> has_ipv6 c) (encode_bool_field HasIpv6 False) = Inr b9"
      "encode_if (skip_verification c) (encode_bool_field SkipVerification True) = Inr b10"
      "encode_if (anti_dpi c) (encode_bool_field AntiDpi True) = Inr b11"
      "encode_if_some (encode_tlv Certificate) (certificate c) = Inr b12"
      "encode_if (upstream_protocol c \<noteq> Http2) (encode_protocol_field (upstream_protocol c)) = Inr b13"
      "encode_if_some (encode_string_field Name) (name c) = Inr b14"
      "encode_if (dns_upstreams c \<noteq> [])
         (rbind (encode_string_array (dns_upstreams c)) (encode_tlv DnsUpstreams)) = Inr b15"
      "encode_if_some (encode_string_field SubscriptionUrl) (subscription_url c) = Inr b16"
    and p: "p = b1 @ b2 @ b3 @ b4 @ b5 @ b6 @ b7 @ b8 @ b9 @ b10 @ b11 @ b12 @ b13 @ b14 @ b15 @ b16"
    by (auto simp: rbind_eq_Inr_iff)
  from encode_dns_fields [OF fs(15)] obtain dns
    where dns: "dns_upstreams c \<noteq> [] \<longrightarrow> encode_string_array (dns_upstreams c) = Inr dns"
      and f15: "raw_tlvs (tagged (if dns_upstreams c \<noteq> [] then [(DnsUpstreams, dns)] else [])) = Inr b15"
    by blast
  have f1: "raw_tlvs (tagged [(Version, [2])]) = Inr b1"
    using fs(1) by (simp add: encode_tlv_raw)
  have f9: "raw_tlvs (tagged (if has_ipv6 c then [] else [(HasIpv6, [0x00])])) = Inr b9"
    using encode_if_fields [OF fs(9) encode_bool_field_fields] by (simp split: if_splits)
  note flags = encode_if_fields [OF fs(10) encode_bool_field_fields, simplified if_True]
    encode_if_fields [OF fs(11) encode_bool_field_fields, simplified if_True]
    encode_if_fields [OF fs(13) encode_protocol_field_fields]
  note rest = fs(2-8,12,14,16) [unfolded payload_field_rules]
  have "raw_tlvs (tagged (config_fields c dns)) = Inr p"
    unfolding config_fields_def p tagged_simps(3)
    by (intro raw_tlvs_appendI f1 f9 f15 flags rest)
  with dns show "\<exists>dns. (dns_upstreams c \<noteq> [] \<longrightarrow> encode_string_array (dns_upstreams c) = Inr dns) \<and>
      raw_tlvs (tagged (config_fields c dns)) = Inr p" by blast
qed

end
