(* ===== verification/Deeplink_Decode.thy ===== *)
theory Deeplink_Decode
  imports Deeplink_Encode
begin

text \<open>
  The decoder of \<^verbatim>\<open>deeplink/src/decode.rs\<close>: the value decoders, the offset-based TLV parser,
  the field loop of \<open>decode_tlv_payload\<close> and the link decoder. Base64 and hexadecimal decoding
  come from crates outside the repository and are the arguments \<open>b64_decode\<close> and \<open>hex_decode\<close>.

  The parser is shown to split a concatenation of entries back into its fields, whatever their
  tags; the round trip of whole configurations and links rests on that.
\<close>

section \<open>Value decoders\<close>

definition decode_string :: "bytes \<Rightarrow> (deep_link_error, string) result" where
  "decode_string data = map_err InvalidUtf8 (from_utf8 data)"

text \<open>The loop of \<open>decode_string_array\<close>, from a given offset on.\<close>

function decode_string_array_from :: "bytes \<Rightarrow> nat \<Rightarrow> (deep_link_error, string list) result" where
  "decode_string_array_from data offset =
    (if offset < length data then
       case decode_varint data offset of
         Inl e \<Rightarrow> Err (Io e)
       | Inr (len, new_offset) \<Rightarrow>
           (if length data < new_offset + unat len then
              Err (TruncatedListEntry (unat len) (length data - new_offset))
            else
              case decode_string (take (unat len) (drop new_offset data)) of
                Inl e \<Rightarrow> Err e
              | Inr s \<Rightarrow>
                  (case decode_string_array_from data (new_offset + unat len) of
                     Inl e \<Rightarrow> Err e
                   | Inr rest \<Rightarrow> Ok (s # rest)))
     else Ok [])"
  by pat_completeness auto
termination
  by (relation "measure (\<lambda>(data, offset). length data - offset)")
    (auto dest: decode_varint_SomeD(1,2))

declare decode_string_array_from.simps [simp del]

definition decode_string_array :: "bytes \<Rightarrow> (deep_link_error, string list) result" where
  "decode_string_array data = decode_string_array_from data 0"

definition first_or_FF :: "bytes \<Rightarrow> u8" where
  "first_or_FF data = (case data of [] \<Rightarrow> 0xFF | b # _ \<Rightarrow> b)"

definition decode_bool :: "bytes \<Rightarrow> (deep_link_error, bool) result" where
  "decode_bool data =
    (if length data \<noteq> 1 then Err (InvalidBoolean (first_or_FF data))
     else if data ! 0 = 0x00 then Ok False
     else if data ! 0 = 0x01 then Ok True
     else Err (InvalidBoolean (data ! 0)))"

definition decode_protocol :: "bytes \<Rightarrow> (deep_link_error, protocol) result" where
  "decode_protocol data =
    (if length data \<noteq> 1 then Err (InvalidProtocol (first_or_FF data))
     else protocol_from_u8 (data ! 0))"

section \<open>The parser\<close>

record tlv_parser =
  data :: bytes
  offset :: nat

definition new_parser :: "bytes \<Rightarrow> tlv_parser" where
  "new_parser d = \<lparr>data = d, offset = 0\<rparr>"

text \<open>\<open>next_field\<close> returns the field (or the error, or \<open>None\<close> at the end) and the parser as the
  call leaves it.\<close>

definition next_field ::
  "tlv_parser \<Rightarrow> (deep_link_error, tlv_tag option \<times> bytes) result option \<times> tlv_parser" where
  "next_field self =
    (if length (data self) \<le> offset self then (None, self)
     else
       case decode_varint (data self) (offset self) of
         Inl e \<Rightarrow> (Some (Err (Io e)), self)
       | Inr (tag_u64, new_offset) \<Rightarrow>
           (let self = self\<lparr>offset := new_offset\<rparr>;
                tag = tag_from_u8 (ucast tag_u64)
            in case decode_varint (data self) (offset self) of
                 Inl e \<Rightarrow> (Some (Err (Io e)), self)
               | Inr (length_u64, new_offset) \<Rightarrow>
                   (let self = self\<lparr>offset := new_offset\<rparr>;
                        len = unat length_u64
                    in if length (data self) < offset self + len then
                         (Some (Err (TruncatedTlv (ucast tag_u64) len
                                       (length (data self) - offset self))), self)
                       else
                         let field = take len (drop (offset self) (data self));
                             self = self\<lparr>offset := offset self + len\<rparr>
                         in (Some (Ok (tag, field)), self))))"

lemma next_field_SomeE:
  assumes "next_field p = (Some (Inr f), p')"
  obtains t o1 l o2 where "decode_varint (data p) (offset p) = Inr (t, o1)"
    "decode_varint (data p) o1 = Inr (l, o2)" "o2 + unat l \<le> length (data p)"
    "f = (tag_from_u8 (ucast t), take (unat l) (drop o2 (data p)))"
    "p' = p\<lparr>offset := o2 + unat l\<rparr>"
  using assms
  by (auto simp: next_field_def Let_def split: if_splits sum.splits prod.splits)

lemma next_field_progress:
  assumes "next_field p = (Some (Inr f), p')"
  shows "offset p < offset p'" and "offset p' \<le> length (data p)" and "data p' = data p"
proof -
  from assms obtain t o1 l o2 where "decode_varint (data p) (offset p) = Inr (t, o1)"
    and "decode_varint (data p) o1 = Inr (l, o2)" and "o2 + unat l \<le> length (data p)"
    and "p' = p\<lparr>offset := o2 + unat l\<rparr>"
    by (rule next_field_SomeE)
  with decode_varint_SomeD(1) [of "data p" "offset p" t o1] decode_varint_SomeD(1) [of "data p" o1 l o2]
  show "offset p < offset p'" "offset p' \<le> length (data p)" "data p' = data p"
    by simp_all
qed

section \<open>Payload and link\<close>

definition default_config :: deep_link_config where
  "default_config = \<lparr>hostname = None, addresses = [], username = None, password = None,
     client_random_prefix = None, client_random_auth_key = None, custom_sni = None,
     has_ipv6 = True, skip_verification = False, certificate = None,
     upstream_protocol = Http2, anti_dpi = False, name = None, dns_upstreams = [],
     subscription_url = None\<rparr>"

text \<open>One arm of the \<open>match tag\<close> of the field loop; the local variables of the source are the
  configuration under construction.\<close>

fun apply_field ::
  "(string \<Rightarrow> (string, bytes) result) \<Rightarrow> tlv_tag \<Rightarrow> bytes \<Rightarrow> deep_link_config
    \<Rightarrow> (deep_link_error, deep_link_config) result" where
  "apply_field hex_decode Version v c =
    rbind (map_err Io (decode_varint v 0)) (\<lambda>(ver, _).
      if CURRENT_VERSION < ver then Err (UnsupportedVersion ver CURRENT_VERSION) else Ok c)"
| "apply_field hex_decode Hostname v c = rbind (decode_string v) (\<lambda>s. Ok (c\<lparr>hostname := Some s\<rparr>))"
| "apply_field hex_decode Address v c =
    rbind (decode_string v) (\<lambda>s. Ok (c\<lparr>addresses := addresses c @ [s]\<rparr>))"
| "apply_field hex_decode CustomSni v c = rbind (decode_string v) (\<lambda>s. Ok (c\<lparr>custom_sni := Some s\<rparr>))"
| "apply_field hex_decode HasIpv6 v c = rbind (decode_bool v) (\<lambda>b. Ok (c\<lparr>has_ipv6 := b\<rparr>))"
| "apply_field hex_decode Username v c = rbind (decode_string v) (\<lambda>s. Ok (c\<lparr>username := Some s\<rparr>))"
| "apply_field hex_decode Password v c = rbind (decode_string v) (\<lambda>s. Ok (c\<lparr>password := Some s\<rparr>))"
| "apply_field hex_decode SkipVerification v c =
    rbind (decode_bool v) (\<lambda>b. Ok (c\<lparr>skip_verification := b\<rparr>))"
| "apply_field hex_decode Certificate v c = Ok (c\<lparr>certificate := Some v\<rparr>)"
| "apply_field hex_decode UpstreamProtocol v c =
    rbind (decode_protocol v) (\<lambda>p. Ok (c\<lparr>upstream_protocol := p\<rparr>))"
| "apply_field hex_decode AntiDpi v c = rbind (decode_bool v) (\<lambda>b. Ok (c\<lparr>anti_dpi := b\<rparr>))"
| "apply_field hex_decode ClientRandomPrefix v c =
    rbind (decode_string v) (\<lambda>prefix.
    case unwrap_or (prefix, []) (split_once (CHR ''/'') prefix) of (prefix_part, mask_part) \<Rightarrow>
    rbind (map_err (\<lambda>e. InvalidAddress (''client_random_prefix must be valid hex: '' @ e))
             (hex_decode prefix_part)) (\<lambda>_.
    rbind (map_err (\<lambda>e. InvalidAddress (''client_random_prefix mask must be valid hex: '' @ e))
             (hex_decode mask_part)) (\<lambda>_.
    Ok (c\<lparr>client_random_prefix := Some prefix\<rparr>))))"
| "apply_field hex_decode ClientRandomAuthKey v c =
    rbind (decode_string v) (\<lambda>auth_key.
    rbind (map_err (\<lambda>e. InvalidAddress (''client_random_auth_key must be valid hex: '' @ e))
             (hex_decode auth_key)) (\<lambda>_.
    Ok (c\<lparr>client_random_auth_key := Some auth_key\<rparr>)))"
| "apply_field hex_decode Name v c = rbind (decode_string v) (\<lambda>s. Ok (c\<lparr>name := Some s\<rparr>))"
| "apply_field hex_decode DnsUpstreams v c =
    rbind (decode_string_array v) (\<lambda>ss. Ok (c\<lparr>dns_upstreams := ss\<rparr>))"
| "apply_field hex_decode SubscriptionUrl v c =
    rbind (decode_string v) (\<lambda>s. Ok (c\<lparr>subscription_url := Some s\<rparr>))"

text \<open>The \<open>while let Some(field_result) = parser.next_field()\<close> loop.\<close>

function decode_fields ::
  "(string \<Rightarrow> (string, bytes) result) \<Rightarrow> tlv_parser \<Rightarrow> deep_link_config
    \<Rightarrow> (deep_link_error, deep_link_config) result" where
  "decode_fields hex_decode parser c =
    (case next_field parser of
       (None, _) \<Rightarrow> Ok c
     | (Some (Inl e), _) \<Rightarrow> Err e
     | (Some (Inr (None, _)), parser') \<Rightarrow> decode_fields hex_decode parser' c
     | (Some (Inr (Some tag, field)), parser') \<Rightarrow>
         (case apply_field hex_decode tag field c of
            Inl e \<Rightarrow> Err e
          | Inr c' \<Rightarrow> decode_fields hex_decode parser' c'))"
  by pat_completeness auto
termination
proof (relation "measure (\<lambda>(_, p, _). length (data p) - offset p)", goal_cases)
  case (2 h p c r p' f e t)
  then show ?case using next_field_progress [of p e p'] by (simp add: diff_less_mono2)
next
  case (3 h p c r p' f e t)
  then show ?case using next_field_progress [of p e p'] by simp
qed simp

declare decode_fields.simps [simp del]

definition decode_tlv_payload ::
  "(string \<Rightarrow> (string, bytes) result) \<Rightarrow> bytes \<Rightarrow> (deep_link_error, deep_link_config) result" where
  "decode_tlv_payload hex_decode payload =
    rbind (decode_fields hex_decode (new_parser payload) default_config) (\<lambda>config.
    rbind (validate config) (\<lambda>_. Ok config))"

definition decode ::
  "(string \<Rightarrow> (string, bytes) result) \<Rightarrow> (string \<Rightarrow> (string, bytes) result) \<Rightarrow> string
    \<Rightarrow> (deep_link_error, deep_link_config) result" where
  "decode b64_decode hex_decode uri =
    (if \<not> starts_with uri ''tt://'' then Err (InvalidScheme (take_chars 20 uri))
     else
       case (case strip_prefix uri ''tt://?'' of
               Some e \<Rightarrow> Some e
             | None \<Rightarrow> strip_prefix uri ''tt://'') of
         None \<Rightarrow> Err (InvalidScheme uri)
       | Some encoded \<Rightarrow>
           rbind (map_err InvalidBase64 (b64_decode encoded)) (\<lambda>payload.
             decode_tlv_payload hex_decode payload))"

section \<open>The parser inverts the entry encoding\<close>

definition short :: "'a list \<Rightarrow> bool" where
  "short xs \<longleftrightarrow> length xs < 2 ^ 62"

lemma unat_word_of_nat_length: "short xs \<Longrightarrow> unat (word_of_nat (length xs) :: u64) = length xs"
  by (simp add: short_def unat_of_nat)

lemma decode_encode_varint_at:
  assumes "encode_varint v = Inr bs" and "n = length pre"
  shows "decode_varint (pre @ bs @ post) n = Inr (v, n + length bs)"
  using decode_encode_varint [OF assms(1)] assms(2) by simp

lemma encode_length_Ok:
  assumes "short xs"
  obtains bs where "encode_varint (word_of_nat (length xs)) = Inr bs"
  using encode_varint_Ok_iff [of "word_of_nat (length xs)"] assms
  by (auto simp: is_ok_iff unat_word_of_nat_length) (auto simp: short_def)

lemma encode_varint_not_Nil: "encode_varint v = Inr bs \<Longrightarrow> bs \<noteq> []"
  by (drule encode_varint_length) (auto split: if_splits)

lemma next_field_raw:
  assumes "raw_tlv t v = Inr b" and "short v"
  shows "next_field \<lparr>data = pre @ b @ post, offset = length pre\<rparr> =
    (Some (Inr (tag_from_u8 (ucast t), v)),
     \<lparr>data = pre @ b @ post, offset = length pre + length b\<rparr>)"
proof -
  from assms(1) obtain a l where a: "encode_varint t = Inr a"
    and l: "encode_varint (word_of_nat (length v)) = Inr l" and b: "b = a @ l @ v"
    by (auto simp: raw_tlv_def rbind_eq_Inr_iff)
  have first: "decode_varint (pre @ b @ post) (length pre) = Inr (t, length pre + length a)"
    using decode_encode_varint_at [OF a, of "length pre" pre "l @ v @ post"] b by simp
  have second: "decode_varint (pre @ b @ post) (length pre + length a) =
      Inr (word_of_nat (length v), length pre + length a + length l)"
    using decode_encode_varint_at [OF l, of "length pre + length a" "pre @ a" "v @ post"] b by simp
  have "take (length v) (drop (length pre + length a + length l) (pre @ b @ post)) = v"
    by (simp add: b)
  with first second encode_varint_not_Nil [OF a] b unat_word_of_nat_length [OF assms(2)]
  show ?thesis
    by (simp add: next_field_def)
qed

text \<open>The field loop on a list of fields.\<close>

fun apply_raw ::
  "(string \<Rightarrow> (string, bytes) result) \<Rightarrow> (u64 \<times> bytes) list \<Rightarrow> deep_link_config
    \<Rightarrow> (deep_link_error, deep_link_config) result" where
  "apply_raw hex_decode [] c = Ok c"
| "apply_raw hex_decode ((t, v) # fs) c =
    (case tag_from_u8 (ucast t) of
       None \<Rightarrow> apply_raw hex_decode fs c
     | Some tag \<Rightarrow> rbind (apply_field hex_decode tag v c) (apply_raw hex_decode fs))"

lemma apply_raw_append:
  "apply_raw hex (fs @ gs) c = rbind (apply_raw hex fs c) (apply_raw hex gs)"
  by (induction hex fs c rule: apply_raw.induct)
    (auto simp: rbind_def split: option.splits sum.splits)

lemma decode_fields_raw:
  assumes "raw_tlvs fs = Inr bs" and "list_all (\<lambda>(t, v). short v) fs"
  shows "decode_fields hex \<lparr>data = pre @ bs, offset = length pre\<rparr> c = apply_raw hex fs c"
  using assms
proof (induction fs arbitrary: bs pre c rule: raw_tlvs.induct)
  case 1
  then show ?case
    by (simp add: decode_fields.simps next_field_def)
next
  case (2 t v fs)
  from "2.prems"(1) obtain b bs' where b: "raw_tlv t v = Inr b" and bs': "raw_tlvs fs = Inr bs'"
    and bs: "bs = b @ bs'"
    by (auto simp: rbind_eq_Inr_iff)
  from "2.prems"(2) have v: "short v" and fs: "list_all (\<lambda>(t, v). short v) fs" by auto
  have IH: "decode_fields hex \<lparr>data = pre @ bs, offset = length pre + length b\<rparr> c'
      = apply_raw hex fs c'" for c'
    using "2.IH" [OF bs' fs, of "pre @ b" c'] bs by simp
  have next_f: "next_field \<lparr>data = pre @ bs, offset = length pre\<rparr> =
    (Some (Inr (tag_from_u8 (ucast t), v)), \<lparr>data = pre @ bs, offset = length pre + length b\<rparr>)"
    using next_field_raw [OF b v] bs by simp
  show ?case
    by (subst decode_fields.simps) (simp add: next_f IH rbind_def split: option.splits sum.splits)
qed

lemma decode_fields_payload:
  "raw_tlvs fs = Inr bs \<Longrightarrow> list_all (\<lambda>(t, v). short v) fs \<Longrightarrow>
    decode_fields hex (new_parser bs) c = apply_raw hex fs c"
  using decode_fields_raw [of fs bs hex "[]"] by (simp add: new_parser_def)

lemma tag_from_number [simp]: "tag_from_u8 (ucast (tag_number t)) = Some t"
  by (cases t) (simp_all add: tag_number_def tag_from_u8_def)

lemma decode_string_as_bytes [simp]: "is_str s \<Longrightarrow> decode_string (as_bytes s) = Inr s"
  by (simp add: decode_string_def)

lemma decode_encode_string_array_from:
  assumes "encode_string_array ss = Inr bs" and "list_all (\<lambda>s. is_str s \<and> short s) ss"
  shows "decode_string_array_from (pre @ bs) (length pre) = Inr ss"
  using assms
proof (induction ss arbitrary: bs pre)
  case Nil
  then show ?case by (simp add: decode_string_array_from.simps)
next
  case (Cons s ss)
  from Cons.prems(1) obtain l bs' where l: "encode_varint (word_of_nat (length s)) = Inr l"
    and bs': "encode_string_array ss = Inr bs'" and bs: "bs = l @ as_bytes s @ bs'"
    by (auto simp: rbind_eq_Inr_iff)
  from Cons.prems(2) have s: "is_str s" "short s" by auto
  have first: "decode_varint (pre @ bs) (length pre) =
      Inr (word_of_nat (length s), length pre + length l)"
    using decode_encode_varint_at [OF l, of "length pre" pre "as_bytes s @ bs'"] bs by simp
  have IH: "decode_string_array_from (pre @ bs) (length pre + length l + length s) = Inr ss"
    using Cons.IH [OF bs', of "pre @ l @ as_bytes s"] Cons.prems(2) bs by (simp add: add.assoc)
  have slice: "take (length s) (drop (length pre + length l) (pre @ bs)) = as_bytes s"
    by (simp add: bs)
  show ?case
    using encode_varint_not_Nil [OF l] first IH slice s bs unat_word_of_nat_length [OF s(2)]
    by (subst decode_string_array_from.simps) simp
qed

lemma decode_encode_string_array:
  "encode_string_array ss = Inr bs \<Longrightarrow> list_all (\<lambda>s. is_str s \<and> short s) ss \<Longrightarrow>
     decode_string_array bs = Inr ss"
  using decode_encode_string_array_from [of ss bs "[]"] by (simp add: decode_string_array_def)

section \<open>Round trip of configurations\<close>

text \<open>
  What the decoder returns for an encoded configuration: the configuration itself, except that an
  empty \<open>client_random_prefix\<close> or \<open>client_random_auth_key\<close> is not sent and comes back as absent.
\<close>

definition drop_empty :: "string option \<Rightarrow> string option" where
  "drop_empty v = (case v of None \<Rightarrow> None | Some s \<Rightarrow> if s = [] then None else Some s)"

definition normalise :: "deep_link_config \<Rightarrow> deep_link_config" where
  "normalise c = c\<lparr>client_random_prefix := drop_empty (client_random_prefix c),
                   client_random_auth_key := drop_empty (client_random_auth_key c)\<rparr>"

definition opt_list :: "'a option \<Rightarrow> 'a list" where
  "opt_list v = (case v of None \<Rightarrow> [] | Some x \<Rightarrow> [x])"

definition config_strings :: "deep_link_config \<Rightarrow> string list" where
  "config_strings c = opt_list (hostname c) @ addresses c @ opt_list (username c)
     @ opt_list (password c) @ opt_list (client_random_prefix c)
     @ opt_list (client_random_auth_key c) @ opt_list (custom_sni c) @ opt_list (name c)
     @ dns_upstreams c @ opt_list (subscription_url c)"

definition prefix_hex_ok :: "(string \<Rightarrow> (string, bytes) result) \<Rightarrow> string \<Rightarrow> bool" where
  "prefix_hex_ok hex_decode s =
    (case unwrap_or (s, []) (split_once (CHR ''/'') s) of
       (p, m) \<Rightarrow> is_ok (hex_decode p) \<and> is_ok (hex_decode m))"

definition nonempty_field_ok :: "(string \<Rightarrow> bool) \<Rightarrow> string option \<Rightarrow> bool" where
  "nonempty_field_ok P v = (case v of None \<Rightarrow> True | Some s \<Rightarrow> s = [] \<or> P s)"

text \<open>A configuration as a Rust program can hold it (strings are UTF-8, no field exceeds the
  varint range), with hexadecimal client-random fields.\<close>

definition wf_config :: "(string \<Rightarrow> (string, bytes) result) \<Rightarrow> deep_link_config \<Rightarrow> bool" where
  "wf_config hex_decode c \<longleftrightarrow>
     list_all (\<lambda>s. is_str s \<and> short s) (config_strings c)
     \<and> list_all short (opt_list (certificate c))
     \<and> (case encode_string_array (dns_upstreams c) of Inl _ \<Rightarrow> True | Inr dns \<Rightarrow> short dns)
     \<and> nonempty_field_ok (prefix_hex_ok hex_decode) (client_random_prefix c)
     \<and> nonempty_field_ok (\<lambda>s. is_ok (hex_decode s)) (client_random_auth_key c)"

lemma opt_list_simps [simp]: "opt_list None = []" "opt_list (Some x) = [x]"
  by (simp_all add: opt_list_def)

lemma string_fields_simps [simp]:
  "string_fields t None = []" "string_fields t (Some s) = [(t, as_bytes s)]"
  by (simp_all add: string_fields_def fields_if_some_def)

lemma fields_if_some_simps [simp]:
  "fields_if_some f None = []" "fields_if_some f (Some x) = f x"
  by (simp_all add: fields_if_some_def)

lemma apply_string_fields:
  assumes "list_all (\<lambda>s. is_str s \<and> short s) (opt_list v)"
  shows "apply_raw hex (tagged (string_fields Hostname v)) c = Inr (c\<lparr>hostname := merge v (hostname c)\<rparr>)"
    and "apply_raw hex (tagged (string_fields Username v)) c = Inr (c\<lparr>username := merge v (username c)\<rparr>)"
    and "apply_raw hex (tagged (string_fields Password v)) c = Inr (c\<lparr>password := merge v (password c)\<rparr>)"
    and "apply_raw hex (tagged (string_fields CustomSni v)) c =
           Inr (c\<lparr>custom_sni := merge v (custom_sni c)\<rparr>)"
    and "apply_raw hex (tagged (string_fields Name v)) c = Inr (c\<lparr>name := merge v (name c)\<rparr>)"
    and "apply_raw hex (tagged (string_fields SubscriptionUrl v)) c =
           Inr (c\<lparr>subscription_url := merge v (subscription_url c)\<rparr>)"
  using assms by (cases v; simp add: merge_def)+

lemma apply_address_fields:
  "list_all (\<lambda>s. is_str s \<and> short s) as \<Longrightarrow>
    apply_raw hex (tagged (map (\<lambda>a. (Address, as_bytes a)) as)) c =
      Inr (c\<lparr>addresses := addresses c @ as\<rparr>)"
  by (induction as arbitrary: c) simp_all

lemma apply_prefix_fields:
  assumes "list_all (\<lambda>s. is_str s \<and> short s) (opt_list v)"
    and "nonempty_field_ok (prefix_hex_ok hex) v"
  shows "apply_raw hex (tagged (nonempty_string_fields ClientRandomPrefix v)) c =
    Inr (c\<lparr>client_random_prefix := merge (drop_empty v) (client_random_prefix c)\<rparr>)"
  using assms
  by (cases v) (auto simp: nonempty_string_fields_def merge_def drop_empty_def nonempty_field_ok_def
      prefix_hex_ok_def is_ok_iff split: prod.splits)

lemma apply_auth_key_fields:
  assumes "list_all (\<lambda>s. is_str s \<and> short s) (opt_list v)"
    and "nonempty_field_ok (\<lambda>s. is_ok (hex s)) v"
  shows "apply_raw hex (tagged (nonempty_string_fields ClientRandomAuthKey v)) c =
    Inr (c\<lparr>client_random_auth_key := merge (drop_empty v) (client_random_auth_key c)\<rparr>)"
  using assms
  by (cases v) (auto simp: nonempty_string_fields_def merge_def drop_empty_def nonempty_field_ok_def
      is_ok_iff)

lemma apply_flag_fields:
  "apply_raw hex (tagged (if b then [] else [(HasIpv6, [0])])) c = Inr (c\<lparr>has_ipv6 := b \<and> has_ipv6 c\<rparr>)"
  "apply_raw hex (tagged (if b then [(SkipVerification, [1])] else [])) c =
     Inr (c\<lparr>skip_verification := b \<or> skip_verification c\<rparr>)"
  "apply_raw hex (tagged (if b then [(AntiDpi, [1])] else [])) c = Inr (c\<lparr>anti_dpi := b \<or> anti_dpi c\<rparr>)"
  by (simp_all add: decode_bool_def)

lemma apply_certificate_fields:
  "apply_raw hex (tagged (fields_if_some (\<lambda>der. [(Certificate, der)]) v)) c =
     Inr (c\<lparr>certificate := merge v (certificate c)\<rparr>)"
  by (cases v) (simp_all add: merge_def)

lemma apply_protocol_fields:
  "apply_raw hex (tagged (if p \<noteq> Http2 then [(UpstreamProtocol, [protocol_as_u8 p])] else [])) c =
     Inr (c\<lparr>upstream_protocol := (if p = Http2 then upstream_protocol c else p)\<rparr>)"
  by (simp add: decode_protocol_def)

lemma apply_dns_fields:
  assumes "list_all (\<lambda>s. is_str s \<and> short s) ds" and "ds \<noteq> [] \<longrightarrow> encode_string_array ds = Inr dns"
  shows "apply_raw hex (tagged (if ds \<noteq> [] then [(DnsUpstreams, dns)] else [])) c =
     Inr (c\<lparr>dns_upstreams := (if ds = [] then dns_upstreams c else ds)\<rparr>)"
  using assms by (auto dest: decode_encode_string_array)

lemma apply_version_field: "apply_raw hex (tagged [(Version, [2])]) c = Inr c"
  using decode_encode_varint_at [OF encode_version, of 0 "[]" "[]"]
  by (simp add: CURRENT_VERSION_def)

lemmas apply_field_rules =
  apply_version_field apply_string_fields apply_address_fields apply_prefix_fields
  apply_auth_key_fields apply_flag_fields apply_certificate_fields apply_protocol_fields
  apply_dns_fields

lemma wf_configD:
  assumes "wf_config hex c"
  shows "list_all (\<lambda>s. is_str s \<and> short s) (opt_list (hostname c))"
    "list_all (\<lambda>s. is_str s \<and> short s) (addresses c)"
    "list_all (\<lambda>s. is_str s \<and> short s) (opt_list (username c))"
    "list_all (\<lambda>s. is_str s \<and> short s) (opt_list (password c))"
    "list_all (\<lambda>s. is_str s \<and> short s) (opt_list (client_random_prefix c))"
    "list_all (\<lambda>s. is_str s \<and> short s) (opt_list (client_random_auth_key c))"
    "list_all (\<lambda>s. is_str s \<and> short s) (opt_list (custom_sni c))"
    "list_all (\<lambda>s. is_str s \<and> short s) (opt_list (name c))"
    "list_all (\<lambda>s. is_str s \<and> short s) (dns_upstreams c)"
    "list_all (\<lambda>s. is_str s \<and> short s) (opt_list (subscription_url c))"
    "nonempty_field_ok (prefix_hex_ok hex) (client_random_prefix c)"
    "nonempty_field_ok (\<lambda>s. is_ok (hex s)) (client_random_auth_key c)"
    "list_all short (opt_list (certificate c))"
  using assms by (simp_all add: wf_config_def config_strings_def)

lemma apply_config_fields:
  assumes "wf_config hex c"
    and "dns_upstreams c \<noteq> [] \<longrightarrow> encode_string_array (dns_upstreams c) = Inr dns"
  shows "apply_raw hex (tagged (config_fields c dns)) default_config = Inr (normalise c)"
proof -
  note wf = wf_configD [OF assms(1)]
  note rules = apply_field_rules wf apply_dns_fields [OF wf(9) assms(2)]
  show ?thesis
    unfolding config_fields_def tagged_simps(3) default_config_def
    by (simp only: apply_raw_append rules rbind_Inr deep_link_config.simps merge_None append_Nil
        simp_thms if_cancel if_True if_False)
      (cases c; simp add: normalise_def)
qed

lemma config_fields_short:
  assumes "wf_config hex c"
    and "dns_upstreams c \<noteq> [] \<longrightarrow> encode_string_array (dns_upstreams c) = Inr dns"
  shows "list_all (\<lambda>(t, v). short v) (config_fields c dns)"
proof -
  have str: "list_all (\<lambda>(t, v). short v) (string_fields t v)"
    and nonempty: "list_all (\<lambda>(t, v). short v) (nonempty_string_fields t v)"
    if "list_all (\<lambda>s. is_str s \<and> short s) (opt_list v)" for t v
    using that by (cases v; simp add: short_def nonempty_string_fields_def)+
  have addr: "list_all (\<lambda>(t, v). short v) (map (\<lambda>a. (Address, as_bytes a)) as)"
    if "list_all (\<lambda>s. is_str s \<and> short s) as" for as
    using that by (induction as) (simp_all add: short_def)
  have cert: "list_all (\<lambda>(t, v). short v) (fields_if_some (\<lambda>der. [(Certificate, der)]) v)"
    if "list_all short (opt_list v)" for v
    using that by (cases v) simp_all
  have dns: "dns_upstreams c \<noteq> [] \<Longrightarrow> short dns"
    using assms by (simp add: wf_config_def)
  have bytes: "short [b :: u8]" for b by (simp add: short_def)
  show ?thesis
    by (simp add: config_fields_def dns bytes str nonempty addr cert wf_configD [OF assms(1)])
qed

lemma tagged_short [simp]:
  "list_all (\<lambda>(t, v). short v) (tagged fs) \<longleftrightarrow> list_all (\<lambda>(t, v). short v) fs"
  by (induction fs) (auto simp: tagged_def)

lemma validate_normalise: "validate (normalise c) = validate c"
  by (simp add: validate_def normalise_def)

text \<open>Decoding an encoded payload gives the configuration back.\<close>

lemma decode_encode_payload:
  assumes "encode_tlv_payload c = Inr p" and "wf_config hex c"
  shows "decode_tlv_payload hex p = Inr (normalise c)"
proof -
  from encode_tlv_payload_fields [OF assms(1)] obtain dns
    where v: "validate c = Inr ()"
      and dns: "dns_upstreams c \<noteq> [] \<longrightarrow> encode_string_array (dns_upstreams c) = Inr dns"
      and raw: "raw_tlvs (tagged (config_fields c dns)) = Inr p"
    by blast
  have "decode_fields hex (new_parser p) default_config = Inr (normalise c)"
    using decode_fields_payload [OF raw] config_fields_short [OF assms(2) dns]
      apply_config_fields [OF assms(2) dns] by simp
  moreover have "validate (normalise c) = Inr ()"
    using v by (simp only: validate_normalise)
  ultimately show ?thesis
    by (simp add: decode_tlv_payload_def)
qed

lemma strip_link_prefix: "decode b64_decode hex (PREFIX @ e) =
    rbind (map_err InvalidBase64 (b64_decode e)) (decode_tlv_payload hex)"
  by (simp add: decode_def PREFIX_def starts_with_def strip_prefix_def)

section \<open>Encoding succeeds\<close>

lemma is_ok_rbindI: "is_ok r \<Longrightarrow> (\<And>x. is_ok (f x)) \<Longrightarrow> is_ok (rbind r f)"
  by (cases r) simp_all

lemma raw_tlv_ok: "unat t < 2 ^ 62 \<Longrightarrow> short v \<Longrightarrow> is_ok (raw_tlv t v)"
  unfolding raw_tlv_def
  by (intro is_ok_rbindI)
    (simp_all only: encode_varint_Ok_iff unat_word_of_nat_length, simp_all add: short_def)

lemma tag_number_small: "unat (tag_number t) < 2 ^ 62"
  by (cases t) (simp_all add: tag_number_def)

lemma raw_tlvs_ok: "list_all (\<lambda>(t, v). short v) fs \<Longrightarrow> is_ok (raw_tlvs (tagged fs))"
proof (induction fs)
  case (Cons f fs)
  then show ?case
    by (cases f) (auto intro!: is_ok_rbindI raw_tlv_ok tag_number_small)
qed simp

lemma encode_string_array_ok:
  "list_all (\<lambda>s. is_str s \<and> short s) ss \<Longrightarrow> is_ok (encode_string_array ss)"
proof (induction ss)
  case (Cons s ss)
  then have "is_ok (encode_varint (word_of_nat (length s)))"
    using unat_word_of_nat_length [of s] by (simp add: encode_varint_Ok_iff short_def)
  with Cons show ?case
    by (auto intro!: is_ok_rbindI)
qed simp

lemma encode_if_some_string_ok:
  "list_all (\<lambda>s. is_str s \<and> short s) (opt_list v) \<Longrightarrow>
     is_ok (encode_if_some (encode_string_field t) v)"
  "list_all (\<lambda>s. is_str s \<and> short s) (opt_list v) \<Longrightarrow>
     is_ok (encode_if_some (\<lambda>s. encode_if (s \<noteq> []) (encode_string_field t s)) v)"
  unfolding encode_string_option_fields encode_nonempty_string_fields
  by (intro raw_tlvs_ok; cases v; simp add: short_def nonempty_string_fields_def)+

lemma encode_tlv_payload_ok:
  assumes "validate c = Inr ()" and "wf_config hex c"
  shows "is_ok (encode_tlv_payload c)"
proof -
  from assms(2) have dns: "is_ok (encode_string_array (dns_upstreams c))"
    by (intro encode_string_array_ok) (simp add: wf_config_def config_strings_def)
  have one: "is_ok (encode_tlv t [b])" for t b
    unfolding encode_tlv_raw by (rule raw_tlv_ok [OF tag_number_small]) (simp add: short_def)
  have addr: "is_ok (encode_addresses (addresses c))"
    unfolding encode_addresses_fields using assms(2)
    by (intro raw_tlvs_ok) (auto simp: wf_config_def config_strings_def list_all_iff short_def)
  have cert: "is_ok (encode_if_some (encode_tlv Certificate) (certificate c))"
    unfolding encode_certificate_fields using assms(2)
    by (intro raw_tlvs_ok) (cases "certificate c"; simp add: wf_config_def)
  have "is_ok (encode_if (dns_upstreams c \<noteq> [])
      (rbind (encode_string_array (dns_upstreams c)) (encode_tlv DnsUpstreams)))"
    using dns assms(2)
    by (auto simp: encode_if_def is_ok_iff [of "encode_string_array _"] wf_config_def encode_tlv_raw
        intro!: raw_tlv_ok tag_number_small)
  moreover have "is_ok (encode_if b (encode_bool_field t v))"
    and "is_ok (encode_if b (encode_protocol_field q))" for b t v q
    using one by (simp_all add: encode_if_def encode_bool_field_def encode_protocol_field_def)
  ultimately show ?thesis
    unfolding encode_tlv_payload_def assms(1) encode_version rbind_Inr
    using assms(2) one addr cert
    by (intro is_ok_rbindI encode_if_some_string_ok)
      (simp_all add: wf_config_def config_strings_def)
qed

section \<open>What a decoded configuration satisfies\<close>

lemma decode_string_Inr: "decode_string bs = Inr s \<longleftrightarrow> is_str s \<and> bs = as_bytes s"
  by (simp add: decode_string_def from_utf8_eq_Inr)

text \<open>Re-encoding a decoded array succeeds and is never longer.\<close>

lemma decode_string_array_from_sound:
  "decode_string_array_from d n = Inr ss \<Longrightarrow> length d \<le> m + n \<Longrightarrow> m < 2 ^ 62 \<Longrightarrow>
     list_all (\<lambda>s. is_str s \<and> length s \<le> m) ss \<and>
     (\<exists>bs. encode_string_array ss = Inr bs \<and> length bs \<le> m)"
proof (induction d n arbitrary: ss m rule: decode_string_array_from.induct)
  case (1 d n)
  show ?case
  proof (cases "n < length d")
    case False
    with "1.prems"(1) show ?thesis
      by (subst (asm) decode_string_array_from.simps) simp
  next
    case True
    with "1.prems"(1) obtain len n1 s rest where
      v: "decode_varint d n = Inr (len, n1)" and bound: "n1 + unat len \<le> length d"
      and s: "decode_string (take (unat len) (drop n1 d)) = Inr s"
      and rest: "decode_string_array_from d (n1 + unat len) = Inr rest" and ss: "ss = s # rest"
      by (subst (asm) decode_string_array_from.simps)
        (auto split: sum.splits if_splits prod.splits)
    have n1: "n < n1" using v by (rule decode_varint_SomeD(1))
    have s': "is_str s" "length s = unat len"
      using s bound by (auto simp: decode_string_Inr dest: arg_cong [of _ _ length])
    define k where "k = m - (n1 + unat len - n)"
    have k: "length d \<le> k + (n1 + unat len)" "k < 2 ^ 62" "k + (n1 - n) + unat len \<le> m"
      using "1.prems"(2,3) n1 bound by (auto simp: k_def)
    from "1.IH" [OF True v refl _ s rest k(1,2)] bound
    obtain bs where wf: "list_all (\<lambda>s. is_str s \<and> length s \<le> k) rest"
      and bs: "encode_string_array rest = Inr bs" "length bs \<le> k"
      by auto
    obtain l where l: "encode_varint len = Inr l" "length l \<le> n1 - n"
      using encode_varint_shortest [OF v] by blast
    have "encode_string_array ss = Inr (l @ as_bytes s @ bs)"
      using l(1) bs(1) s'(2) by (simp add: ss)
    moreover have "length (l @ as_bytes s @ bs) \<le> m"
      using l(2) bs(2) s'(2) k(3) by simp
    moreover have "list_all (\<lambda>s. is_str s \<and> length s \<le> m) ss"
      using wf s' k(3) by (auto simp: ss list_all_iff intro: le_trans)
    ultimately show ?thesis by blast
  qed
qed

lemma decode_string_array_sound:
  assumes "decode_string_array d = Inr ss" and "short d"
  shows "list_all (\<lambda>s. is_str s \<and> short s) ss"
    and "\<exists>bs. encode_string_array ss = Inr bs \<and> short bs"
  using decode_string_array_from_sound [of d 0 ss "length d"] assms
  by (auto simp: decode_string_array_def short_def list_all_iff)

lemma decode_string_sound:
  "decode_string bs = Inr s \<Longrightarrow> short bs \<Longrightarrow> is_str s \<and> short s"
  by (simp add: decode_string_Inr short_def)

lemma wf_config_updates:
  assumes "wf_config hex c"
  shows "is_str s \<and> short s \<Longrightarrow> wf_config hex (c\<lparr>hostname := Some s\<rparr>)"
    and "is_str s \<and> short s \<Longrightarrow> wf_config hex (c\<lparr>addresses := addresses c @ [s]\<rparr>)"
    and "is_str s \<and> short s \<Longrightarrow> wf_config hex (c\<lparr>username := Some s\<rparr>)"
    and "is_str s \<and> short s \<Longrightarrow> wf_config hex (c\<lparr>password := Some s\<rparr>)"
    and "is_str s \<and> short s \<Longrightarrow> prefix_hex_ok hex s \<Longrightarrow>
           wf_config hex (c\<lparr>client_random_prefix := Some s\<rparr>)"
    and "is_str s \<and> short s \<Longrightarrow> is_ok (hex s) \<Longrightarrow>
           wf_config hex (c\<lparr>client_random_auth_key := Some s\<rparr>)"
    and "is_str s \<and> short s \<Longrightarrow> wf_config hex (c\<lparr>custom_sni := Some s\<rparr>)"
    and "is_str s \<and> short s \<Longrightarrow> wf_config hex (c\<lparr>name := Some s\<rparr>)"
    and "is_str s \<and> short s \<Longrightarrow> wf_config hex (c\<lparr>subscription_url := Some s\<rparr>)"
    and "short v \<Longrightarrow> wf_config hex (c\<lparr>certificate := Some v\<rparr>)"
    and "wf_config hex (c\<lparr>has_ipv6 := b\<rparr>)" and "wf_config hex (c\<lparr>skip_verification := b\<rparr>)"
    and "wf_config hex (c\<lparr>anti_dpi := b\<rparr>)" and "wf_config hex (c\<lparr>upstream_protocol := q\<rparr>)"
  using assms by (simp_all add: wf_config_def config_strings_def nonempty_field_ok_def)

lemma wf_config_dns:
  assumes "wf_config hex c" and "decode_string_array v = Inr ss" and "short v"
  shows "wf_config hex (c\<lparr>dns_upstreams := ss\<rparr>)"
proof -
  from decode_string_array_sound(2) [OF assms(2,3)] obtain bs
    where "encode_string_array ss = Inr bs" "short bs" by blast
  with assms(1) decode_string_array_sound(1) [OF assms(2,3)] show ?thesis
    by (simp add: wf_config_def config_strings_def)
qed

lemma apply_field_wf:
  assumes "apply_field hex t v c = Inr c'" and "short v" and "wf_config hex c"
  shows "wf_config hex c'"
proof -
  note updates = wf_config_updates [OF assms(3)] wf_config_dns [OF assms(3) _ assms(2)]
  have str: "is_str s \<and> short s" if "decode_string v = Inr s" for s
    using that assms(2) by (rule decode_string_sound)
  show ?thesis
  proof (cases "t = ClientRandomPrefix")
    case True
    with assms(1) obtain s where s: "decode_string v = Inr s"
      by (cases "decode_string v") simp_all
    obtain p m where pm: "unwrap_or (s, []) (split_once (CHR ''/'') s) = (p, m)"
      by (cases "unwrap_or (s, []) (split_once (CHR ''/'') s)")
    from assms(1) True s pm have "is_ok (hex p)" "is_ok (hex m)"
      and c': "c' = c\<lparr>client_random_prefix := Some s\<rparr>"
      by (auto simp: rbind_eq_Inr_iff)
    then show ?thesis using str [OF s] updates(5) pm by (simp add: prefix_hex_ok_def)
  next
    case False
    with assms show ?thesis
      by (cases t) (auto simp: rbind_eq_Inr_iff is_ok_iff [of "hex _"] split: if_splits
          intro!: updates str)
  qed
qed

lemma next_field_short:
  "next_field p = (Some (Inr (t, v)), p') \<Longrightarrow> short (data p) \<Longrightarrow> short v"
  by (erule next_field_SomeE) (auto simp: short_def)

lemma decode_fields_wf:
  "decode_fields hex p c = Inr c' \<Longrightarrow> short (data p) \<Longrightarrow> wf_config hex c \<Longrightarrow> wf_config hex c'"
proof (induction hex p c rule: decode_fields.induct)
  case (1 hex p c)
  show ?case
  proof (cases "next_field p")
    case (Pair r p')
    consider "r = None" | e where "r = Some (Inl e)" | v where "r = Some (Inr (None, v))"
      | t v where "r = Some (Inr (Some t, v))"
      by (metis not_Some_eq old.sum.exhaust surj_pair)
    then show ?thesis
    proof cases
      case 1
      with Pair "1.prems" show ?thesis by (simp add: decode_fields.simps [of hex p])
    next
      case 2
      with Pair "1.prems" show ?thesis by (simp add: decode_fields.simps [of hex p])
    next
      case (3 v)
      with Pair have nf: "next_field p = (Some (Inr (None, v)), p')" by simp
      from "1.prems"(1) nf have "decode_fields hex p' c = Inr c'"
        by (simp add: decode_fields.simps [of hex p])
      with "1.IH"(1) [OF nf [symmetric] refl refl refl refl] "1.prems"(2,3)
        next_field_progress(3) [OF nf]
      show ?thesis by simp
    next
      case (4 t v)
      with Pair have nf: "next_field p = (Some (Inr (Some t, v)), p')" by simp
      from "1.prems"(1) nf obtain c1 where c1: "apply_field hex t v c = Inr c1"
        and rest: "decode_fields hex p' c1 = Inr c'"
        by (auto simp: decode_fields.simps [of hex p] split: sum.splits)
      have "wf_config hex c1"
        using c1 next_field_short [OF nf "1.prems"(2)] "1.prems"(3) by (rule apply_field_wf)
      with "1.IH"(2) [OF nf [symmetric] refl refl refl refl c1 rest] "1.prems"(2)
        next_field_progress(3) [OF nf]
      show ?thesis by simp
    qed
  qed
qed

lemma default_config_wf: "wf_config hex default_config"
  by (simp add: wf_config_def default_config_def config_strings_def nonempty_field_ok_def short_def)

lemma decode_tlv_payload_sound:
  assumes "decode_tlv_payload hex p = Inr c" and "short p"
  shows "validate c = Inr ()" and "wf_config hex c"
proof -
  from assms(1) show "validate c = Inr ()"
    by (auto simp: decode_tlv_payload_def rbind_eq_Inr_iff)
  from assms(1) have "decode_fields hex (new_parser p) default_config = Inr c"
    by (auto simp: decode_tlv_payload_def rbind_eq_Inr_iff)
  moreover have "short (data (new_parser p))"
    using assms(2) by (simp add: new_parser_def)
  ultimately show "wf_config hex c"
    using default_config_wf by (rule decode_fields_wf)
qed

section \<open>Properties\<close>

text \<open>
  C5: a validated configuration with UTF-8 strings and hexadecimal client-random fields encodes
  to a \<open>tt://?\<close> link, and decoding that link returns the configuration, an empty
  \<open>client_random_prefix\<close> or \<open>client_random_auth_key\<close> being returned as absent. Base64 is any
  codec that decodes what it encodes.
\<close>

theorem deeplink_roundtrip:
  assumes "\<And>bs. b64_decode (b64_encode bs) = Inr bs"
    and "validate c = Inr ()" and "wf_config hex_decode c"
  shows "\<exists>uri. encode b64_encode c = Inr uri \<and> decode b64_decode hex_decode uri = Inr (normalise c)"
proof -
  from encode_tlv_payload_ok [OF assms(2,3)] obtain p where p: "encode_tlv_payload c = Inr p"
    by (auto simp: is_ok_iff)
  then have "encode b64_encode c = Inr (PREFIX @ b64_encode p)"
    by (simp add: encode_def)
  moreover have "decode b64_decode hex_decode (PREFIX @ b64_encode p) = Inr (normalise c)"
    using assms(1) decode_encode_payload [OF p assms(3)] by (simp add: strip_link_prefix)
  ultimately show ?thesis by blast
qed

definition sample_config :: deep_link_config where
  "sample_config = default_config\<lparr>hostname := Some ''vpn.example.com'',
     addresses := [''1.2.3.4:443'', ''[::1]:443''], username := Some ''alice'',
     password := Some ''pw'', client_random_prefix := Some ''aabb/ff00'',
     client_random_auth_key := Some [], has_ipv6 := False, upstream_protocol := Http3,
     certificate := Some [0x30, 0x00], dns_upstreams := [''8.8.8.8'', ''tls://1.1.1.1'']\<rparr>"

lemma sample_config_valid: "validate sample_config = Inr ()"
  by (simp add: sample_config_def default_config_def validate_def none_or_empty_def)

lemma sample_config_wf: "wf_config (\<lambda>s. Inr (as_bytes s)) sample_config"
  by (simp add: sample_config_def default_config_def wf_config_def config_strings_def is_str_def
      as_bytes_def short_def encode_varint_def nonempty_field_ok_def prefix_hex_ok_def split_once_def
      unwrap_or_def)

theorem deeplink_roundtrip_witness:
  "\<exists>uri. encode chars_of sample_config = Inr uri \<and>
     decode (\<lambda>s. Inr (as_bytes s)) (\<lambda>s. Inr (as_bytes s)) uri = Inr (normalise sample_config)"
  by (rule deeplink_roundtrip [of "\<lambda>s. Inr (as_bytes s)" chars_of, OF as_bytes_chars_of
        [THEN arg_cong [of _ _ Inr]] sample_config_valid sample_config_wf])

text \<open>
  C25: whatever payload the decoder accepts (of less than \<open>2^62\<close> bytes), the configuration
  it returns passes validation, holds only valid UTF-8 and hexadecimal fields, and can be encoded
  again to a payload that decodes to the same configuration (normalised).
\<close>

theorem decoded_config_reencodes:
  assumes "decode_tlv_payload hex_decode p = Inr c" and "short p"
  shows "validate c = Inr () \<and> wf_config hex_decode c \<and>
    (\<exists>q. encode_tlv_payload c = Inr q \<and> decode_tlv_payload hex_decode q = Inr (normalise c))"
proof -
  note sound = decode_tlv_payload_sound [OF assms]
  from encode_tlv_payload_ok [OF sound] obtain q where q: "encode_tlv_payload c = Inr q"
    by (auto simp: is_ok_iff)
  from decode_encode_payload [OF q sound(2)] q sound show ?thesis by blast
qed

definition sample_payload :: bytes where
  "sample_payload = [0x00, 0x01, 0x02, 0x0E, 0x09] @ as_bytes ''https://a''"

lemma sample_payload_decodes:
  "decode_tlv_payload (\<lambda>s. Inr (as_bytes s)) sample_payload =
     Inr (default_config\<lparr>subscription_url := Some ''https://a''\<rparr>)"
proof -
  let ?fs = "tagged [(Version, [2]), (SubscriptionUrl, as_bytes ''https://a'')]"
  have "raw_tlvs ?fs = Inr sample_payload"
    by (simp add: raw_tlv_def tag_number_def encode_varint_def sample_payload_def)
  moreover have "list_all (\<lambda>(t, v). short v) ?fs"
    by (simp add: short_def)
  moreover have "is_str ''https://a''"
    by (simp add: is_str_def as_bytes_def)
  then have "apply_raw (\<lambda>s. Inr (as_bytes s)) ?fs default_config =
      Inr (default_config\<lparr>subscription_url := Some ''https://a''\<rparr>)"
    by (simp add: decode_varint_def CURRENT_VERSION_def)
  ultimately have "decode_fields (\<lambda>s. Inr (as_bytes s)) (new_parser sample_payload) default_config =
      Inr (default_config\<lparr>subscription_url := Some ''https://a''\<rparr>)"
    by (simp only: decode_fields_payload)
  then show ?thesis
    by (simp add: decode_tlv_payload_def validate_def starts_with_def)
qed

theorem decoded_config_reencodes_witness:
  "\<exists>q. encode_tlv_payload (default_config\<lparr>subscription_url := Some ''https://a''\<rparr>) = Inr q \<and>
     decode_tlv_payload (\<lambda>s. Inr (as_bytes s)) q =
       Inr (normalise (default_config\<lparr>subscription_url := Some ''https://a''\<rparr>))"
  using decoded_config_reencodes [OF sample_payload_decodes]
  by (simp add: sample_payload_def as_bytes_def short_def)

text \<open>
  an entry whose tag the decoder does not know (low byte above \<open>0x0F\<close>) can be inserted
  between any two entries of a payload without changing what is decoded, errors included.
\<close>

theorem unknown_tags_ignored:
  assumes "raw_tlvs (fs @ gs) = Inr p" and "raw_tlvs (fs @ (t, v) # gs) = Inr q"
    and "0x0F < (ucast t :: u8)"
    and "list_all (\<lambda>(t, v). short v) (fs @ (t, v) # gs)"
  shows "decode_tlv_payload hex_decode q = decode_tlv_payload hex_decode p"
proof -
  have "tag_from_u8 (ucast t) = None" using assms(3) by (simp add: tag_from_u8_None)
  then have skip: "apply_raw hex_decode (fs @ (t, v) # gs) c = apply_raw hex_decode (fs @ gs) c" for c
    by (simp add: apply_raw_append rbind_def split: sum.splits)
  have "list_all (\<lambda>(t, v). short v) (fs @ gs)" using assms(4) by simp
  with skip assms decode_fields_payload show ?thesis
    by (simp add: decode_tlv_payload_def)
qed

theorem unknown_tags_ignored_witness:
  "decode_tlv_payload (\<lambda>s. Inr (as_bytes s)) ([0x10, 0x02, 0xAB, 0xCD] @ sample_payload) =
   decode_tlv_payload (\<lambda>s. Inr (as_bytes s)) sample_payload"
proof (rule unknown_tags_ignored [of "[]" "tagged [(Version, [2]), (SubscriptionUrl, as_bytes ''https://a'')]"
        _ "0x10" "[0xAB, 0xCD]"])
qed (simp_all add: raw_tlv_def tag_number_def encode_varint_def sample_payload_def short_def)

text \<open>the decoder looks at the low byte of the tag number only. Entries whose tags agree modulo
  256 are decoded alike; in particular an entry with tag \<open>0x101\<close>, which is no known tag, is read
  as a hostname.
\<close>

theorem tag_number_truncated:
  assumes "raw_tlvs (fs @ (t, v) # gs) = Inr p" and "raw_tlvs (fs @ (t', v) # gs) = Inr q"
    and "unat t mod 256 = unat t' mod 256"
    and "list_all (\<lambda>(t, v). short v) (fs @ (t, v) # gs)"
  shows "decode_tlv_payload hex_decode p = decode_tlv_payload hex_decode q"
proof -
  have "(ucast t :: u8) = ucast t'"
    using assms(3) by (simp add: word_unat_eq_iff unsigned_ucast_eq take_bit_nat_def)
  then have "apply_raw hex_decode (fs @ (t, v) # gs) c = apply_raw hex_decode (fs @ (t', v) # gs) c" for c
    by (cases "apply_raw hex_decode fs c") (simp_all add: apply_raw_append)
  moreover have "list_all (\<lambda>(t, v). short v) (fs @ (t', v) # gs)" using assms(4) by simp
  ultimately show ?thesis
    using assms decode_fields_payload by (simp add: decode_tlv_payload_def)
qed

theorem tag_number_truncated_witness:
  "decode_tlv_payload (\<lambda>s. Inr (as_bytes s)) ([0x41, 0x01, 0x01, 0x68] @ sample_payload) =
   decode_tlv_payload (\<lambda>s. Inr (as_bytes s)) ([0x01, 0x01, 0x68] @ sample_payload)"
  by (rule tag_number_truncated [of "[]" "0x101" "[0x68]"
        "tagged [(Version, [2]), (SubscriptionUrl, as_bytes ''https://a'')]" _ "0x01"])
    (simp_all add: raw_tlv_def tag_number_def encode_varint_def sample_payload_def short_def
      to_be_eval)

end
