(* ===== verification/Deeplink_Cert.thy ===== *)
theory Deeplink_Cert
  imports Deeplink_Types
begin

text \<open>
  Certificate chains of \<^verbatim>\<open>deeplink/src/cert.rs\<close>: reading ASN.1 lengths, splitting a chain of
  concatenated DER certificates, and the conversions between PEM and DER. The PEM parser
  (\<^verbatim>\<open>rustls_pemfile::certs\<close>) and standard base64 are outside the repository and are the arguments
  \<open>pem_certs\<close> and \<open>b64_encode\<close>. Base64 text is ASCII, so its 64-byte lines are taken as they are.
\<close>

section \<open>Operations\<close>

definition invalid_cert :: "string \<Rightarrow> (deep_link_error, 'a) result" where
  "invalid_cert msg = Err (InvalidCertificate msg)"

definition pem_to_der ::
  "(bytes \<Rightarrow> (string, bytes list) result) \<Rightarrow> string \<Rightarrow> (deep_link_error, bytes) result" where
  "pem_to_der pem_certs pem =
    rbind (map_err (\<lambda>e. InvalidCertificate (''PEM parsing failed: '' @ e)) (pem_certs (as_bytes pem)))
      (\<lambda>certs. if certs = [] then invalid_cert ''no PEM blocks found in certificate field''
               else Ok (concat certs))"

text \<open>\<open>read_asn1_length\<close> computes the length in \<open>usize\<close>: each step shifts left by eight bits and
  drops what does not fit.\<close>

definition asn1_accumulate :: "u64 \<Rightarrow> u8 \<Rightarrow> u64" where
  "asn1_accumulate len b = push_bit 8 len OR ucast b"

definition read_asn1_length :: "bytes \<Rightarrow> nat \<Rightarrow> (deep_link_error, u64 \<times> nat) result" where
  "read_asn1_length data offset =
    (if length data \<le> offset then invalid_cert ''unexpected end of data in ASN.1 length''
     else
       let first = data ! offset in
       if first < 0x80 then Ok (ucast first, offset + 1)
       else
         let num_bytes = unat (first AND 0x7F) in
         if num_bytes = 0 \<or> length data < offset + 1 + num_bytes then
           invalid_cert ''invalid ASN.1 length encoding''
         else
           Ok (foldl asn1_accumulate 0 (take num_bytes (drop (offset + 1) data)),
               offset + 1 + num_bytes))"

lemma read_asn1_length_bounds:
  assumes "read_asn1_length data offset = Inr (len, h)"
  shows "offset < h" and "h \<le> length data"
  using assms
  by (auto simp: read_asn1_length_def invalid_cert_def Let_def split: if_splits)

text \<open>\<open>usize::checked_add\<close>.\<close>

definition checked_add_usize :: "nat \<Rightarrow> u64 \<Rightarrow> nat option" where
  "checked_add_usize a b = (if a + unat b < 2 ^ 64 then Some (a + unat b) else None)"

text \<open>The loop of \<open>split_der_certs\<close> from a given offset on.\<close>

function split_der_certs_from :: "bytes \<Rightarrow> nat \<Rightarrow> (deep_link_error, bytes list) result" where
  "split_der_certs_from data offset =
    (if offset < length data then
       if data ! offset \<noteq> 0x30 then
         invalid_cert (''expected ASN.1 SEQUENCE (0x30) at offset '' @ show_nat offset
                       @ '', got 0x'' @ show_hex2 (data ! offset))
       else
         case read_asn1_length data (offset + 1) of
           Inl e \<Rightarrow> Err e
         | Inr (body_len, hdr_end) \<Rightarrow>
             (case checked_add_usize hdr_end body_len of
                None \<Rightarrow> invalid_cert ''certificate length overflow''
              | Some cert_end \<Rightarrow>
                  if length data < cert_end then invalid_cert ''truncated DER certificate''
                  else
                    case split_der_certs_from data cert_end of
                      Inl e \<Rightarrow> Err e
                    | Inr rest \<Rightarrow> Ok (take (cert_end - offset) (drop offset data) # rest))
     else Ok [])"
  by pat_completeness auto
termination
  by (relation "measure (\<lambda>(data, offset). length data - offset)")
    (auto simp: checked_add_usize_def split: if_splits dest!: read_asn1_length_bounds(1))

declare split_der_certs_from.simps [simp del]

definition split_der_certs :: "bytes \<Rightarrow> (deep_link_error, bytes list) result" where
  "split_der_certs data = split_der_certs_from data 0"

definition pem_block :: "(bytes \<Rightarrow> string) \<Rightarrow> bytes \<Rightarrow> string" where
  "pem_block b64_encode cert =
    ''-----BEGIN CERTIFICATE-----'' @ [CHR 0x0A]
    @ join [CHR 0x0A] (chunks 64 (b64_encode cert))
    @ [CHR 0x0A] @ ''-----END CERTIFICATE-----''"

definition der_to_pem :: "(bytes \<Rightarrow> string) \<Rightarrow> bytes \<Rightarrow> (deep_link_error, string) result" where
  "der_to_pem b64_encode der =
    rbind (split_der_certs der) (\<lambda>certs.
      Ok (join [CHR 0x0A] (map (pem_block b64_encode) certs) @ [CHR 0x0A]))"

section \<open>Splitting inverts concatenation\<close>

text \<open>One DER certificate: a SEQUENCE whose length field accounts for all of its bytes.\<close>

definition der_cert :: "bytes \<Rightarrow> bool" where
  "der_cert c \<longleftrightarrow> c \<noteq> [] \<and> c ! 0 = 0x30 \<and>
    (case read_asn1_length c 1 of
       Inl _ \<Rightarrow> False
     | Inr (len, h) \<Rightarrow> h + unat len = length c)"

text \<open>Reading a length depends only on the bytes it reads.\<close>

lemma read_asn1_length_append:
  assumes "read_asn1_length c n = Inr (len, h)"
  shows "read_asn1_length (pre @ c @ post) (length pre + n) = Inr (len, length pre + h)"
proof -
  have n: "n < length c" using read_asn1_length_bounds [OF assms] by simp
  then have first: "(pre @ c @ post) ! (length pre + n) = c ! n"
    by (simp add: nth_append)
  show ?thesis
  proof (cases "c ! n < 0x80")
    case True
    with assms n first show ?thesis by (simp add: read_asn1_length_def)
  next
    case False
    define k where "k = unat (c ! n AND 0x7F)"
    have k: "k \<noteq> 0" "n + 1 + k \<le> length c" "h = n + 1 + k"
      and len: "len = foldl asn1_accumulate 0 (take k (drop (n + 1) c))"
      using assms n False unfolding k_def
      by (auto simp: read_asn1_length_def invalid_cert_def Let_def split: if_splits)
    have slice: "take k (drop (length pre + n + 1) (pre @ c @ post)) = take k (drop (n + 1) c)"
      using k(2) by simp
    have "read_asn1_length (pre @ c @ post) (length pre + n) =
        (if k = 0 \<or> length (pre @ c @ post) < length pre + n + 1 + k then
           invalid_cert ''invalid ASN.1 length encoding''
         else Ok (foldl asn1_accumulate 0 (take k (drop (length pre + n + 1) (pre @ c @ post))),
                  length pre + n + 1 + k))"
      using n False unfolding read_asn1_length_def first Let_def k_def [symmetric] by simp
    with k len slice show ?thesis by simp
  qed
qed

lemma split_der_certs_from_Inr_iff_Cons:
  assumes "offset < length data"
  shows "split_der_certs_from data offset = Inr cs \<longleftrightarrow>
    (\<exists>len h rest. data ! offset = 0x30 \<and> read_asn1_length data (offset + 1) = Inr (len, h)
       \<and> h + unat len < 2 ^ 64 \<and> h + unat len \<le> length data
       \<and> split_der_certs_from data (h + unat len) = Inr rest
       \<and> cs = take (h + unat len - offset) (drop offset data) # rest)"
  using assms
  by (subst split_der_certs_from.simps)
    (auto simp: invalid_cert_def checked_add_usize_def split: sum.splits prod.splits)

lemma split_concat_from:
  assumes "list_all der_cert cs" and "length (pre @ concat cs) < 2 ^ 64"
  shows "split_der_certs_from (pre @ concat cs) (length pre) = Inr cs"
  using assms
proof (induction cs arbitrary: pre)
  case Nil
  then show ?case by (simp add: split_der_certs_from.simps)
next
  case (Cons c cs)
  from Cons.prems(1) obtain len h where c: "c \<noteq> []" "c ! 0 = 0x30"
    and r: "read_asn1_length c 1 = Inr (len, h)" and l: "h + unat len = length c"
    by (auto simp: der_cert_def split: sum.splits prod.splits)
  let ?data = "pre @ c @ concat cs"
  have r': "read_asn1_length ?data (length pre + 1) = Inr (len, length pre + h)"
    using read_asn1_length_append [OF r, of pre "concat cs"] by simp
  have IH: "split_der_certs_from ?data (length pre + length c) = Inr cs"
    using Cons.IH [of "pre @ c"] Cons.prems by simp
  have "?data ! length pre = 0x30" using c by (simp add: nth_append)
  with r' IH l Cons.prems(2) c show ?case
    by (simp add: split_der_certs_from_Inr_iff_Cons add.assoc)
qed

lemma read_asn1_length_slice:
  assumes "read_asn1_length (pre @ c @ post) (length pre + n) = Inr (len, length pre + h)"
    and "h \<le> length c"
  shows "read_asn1_length c n = Inr (len, h)"
proof -
  have n: "n < h" using read_asn1_length_bounds(1) [OF assms(1)] by simp
  then have first: "(pre @ c @ post) ! (length pre + n) = c ! n"
    using assms(2) by (simp add: nth_append)
  show ?thesis
  proof (cases "c ! n < 0x80")
    case True
    with assms n first show ?thesis by (auto simp: read_asn1_length_def split: if_splits)
  next
    case False
    define k where "k = unat (c ! n AND 0x7F)"
    have k: "k \<noteq> 0" "length pre + h = length pre + n + 1 + k"
      and len: "len = foldl asn1_accumulate 0 (take k (drop (length pre + n + 1) (pre @ c @ post)))"
      using assms(1) False unfolding k_def read_asn1_length_def first
      by (auto simp: invalid_cert_def Let_def split: if_splits)
    have slice: "take k (drop (length pre + n + 1) (pre @ c @ post)) = take k (drop (n + 1) c)"
      using k(2) assms(2) by simp
    have "read_asn1_length c n =
        (if k = 0 \<or> length c < n + 1 + k then invalid_cert ''invalid ASN.1 length encoding''
         else Ok (foldl asn1_accumulate 0 (take k (drop (n + 1) c)), n + 1 + k))"
      using n assms(2) False unfolding read_asn1_length_def Let_def k_def [symmetric] by simp
    with k len slice assms(2) show ?thesis by simp
  qed
qed

lemma split_der_certs_from_sound:
  "split_der_certs_from data offset = Inr cs \<Longrightarrow> offset \<le> length data \<Longrightarrow>
     concat cs = drop offset data \<and> list_all der_cert cs"
proof (induction data offset arbitrary: cs rule: split_der_certs_from.induct)
  case (1 data offset)
  show ?case
  proof (cases "offset < length data")
    case False
    with "1.prems" show ?thesis by (subst (asm) split_der_certs_from.simps) simp
  next
    case True
    with "1.prems"(1) obtain len h rest where f: "data ! offset = 0x30"
      and r: "read_asn1_length data (offset + 1) = Inr (len, h)"
      and b: "h + unat len < 2 ^ 64" "h + unat len \<le> length data"
      and rest: "split_der_certs_from data (h + unat len) = Inr rest"
      and cs: "cs = take (h + unat len - offset) (drop offset data) # rest"
      by (auto simp: split_der_certs_from_Inr_iff_Cons)
    let ?stop = "h + unat len"
    let ?c = "take (?stop - offset) (drop offset data)"
    have h: "offset + 1 < h" using read_asn1_length_bounds(1) [OF r] .
    have IH: "concat rest = drop ?stop data \<and> list_all der_cert rest"
      using "1.IH" [OF True _ r refl, of ?stop rest] f b rest
      by (simp add: checked_add_usize_def)
    have split: "?c @ drop ?stop data = drop offset data"
    proof -
      have "drop (?stop - offset) (drop offset data) = drop ?stop data" using h by simp
      then show ?thesis by (metis append_take_drop_id)
    qed
    have data: "data = take offset data @ ?c @ drop ?stop data"
      by (simp only: split append_take_drop_id)
    have "read_asn1_length ?c 1 = Inr (len, h - offset)"
    proof (rule read_asn1_length_slice)
      show "read_asn1_length (take offset data @ ?c @ drop ?stop data) (length (take offset data) + 1)
          = Inr (len, length (take offset data) + (h - offset))"
        unfolding data [symmetric] using r True h by simp
      show "h - offset \<le> length ?c" using b h by simp
    qed
    then have "der_cert ?c"
      using f True h b by (simp add: der_cert_def)
    with IH cs split show ?thesis by simp
  qed
qed

section \<open>Properties\<close>



end
