(* ===== verification/Net_Utils.thy ===== *)
theory Net_Utils
  imports Prelude
begin

text \<open>
  The pure part of \<^verbatim>\<open>lib/src/net_utils.rs\<close>: the fixed-size address layout used by the datagram
  codecs, the header skippers and the checksum used for ICMP, the classification of globally
  routable addresses that guards private networks, and SNI scrubbing. Addresses are words of 32
  and 128 bits; the predicates of \<open>std::net\<close> that the code calls are modelled next to it.
\<close>

section \<open>Constants and addresses\<close>

definition MIN_IPV4_HEADER_SIZE :: nat where "MIN_IPV4_HEADER_SIZE = 20"
definition MIN_IPV6_HEADER_SIZE :: nat where "MIN_IPV6_HEADER_SIZE = 40"
definition MAX_IP_PACKET_SIZE :: nat where "MAX_IP_PACKET_SIZE = 65536"
definition UDP_HEADER_SIZE :: nat where "UDP_HEADER_SIZE = 8"
definition MAX_UDP_PAYLOAD_SIZE :: nat where
  "MAX_UDP_PAYLOAD_SIZE = MAX_IP_PACKET_SIZE - MIN_IPV4_HEADER_SIZE - UDP_HEADER_SIZE"
definition PLAIN_DNS_PORT_NUMBER :: u16 where "PLAIN_DNS_PORT_NUMBER = 53"
definition IPV4_WIRE_LENGTH :: nat where "IPV4_WIRE_LENGTH = 4"
definition IPV6_WIRE_LENGTH :: nat where "IPV6_WIRE_LENGTH = 16"
definition IPV4_PADDING_WIRE_LENGTH :: nat where
  "IPV4_PADDING_WIRE_LENGTH = IPV6_WIRE_LENGTH - IPV4_WIRE_LENGTH"

lemmas wire_lengths = IPV4_WIRE_LENGTH_def IPV6_WIRE_LENGTH_def IPV4_PADDING_WIRE_LENGTH_def

type_synonym ipv4 = "32 word"
type_synonym ipv6 = "128 word"

datatype ip_addr = V4 ipv4 | V6 ipv6

datatype channel = Tunnel | Ping | Speedtest | ReverseProxy | Subscription

record socket_addr =
  sa_ip :: ip_addr
  sa_port :: u16

definition ipv4_octets :: "ipv4 \<Rightarrow> bytes" where
  "ipv4_octets a = to_be 4 (unat a)"

definition ipv6_octets :: "ipv6 \<Rightarrow> bytes" where
  "ipv6_octets a = to_be 16 (unat a)"

definition ipv4_from_octets :: "bytes \<Rightarrow> ipv4" where
  "ipv4_from_octets bs = word_of_nat (of_be bs)"

definition ipv6_from_octets :: "bytes \<Rightarrow> ipv6" where
  "ipv6_from_octets bs = word_of_nat (of_be bs)"

text \<open>\<open>Ipv6Addr::segments\<close>, by index.\<close>

definition segment :: "ipv6 \<Rightarrow> nat \<Rightarrow> u16" where
  "segment a i = word_of_nat (unat a div 65536 ^ (7 - i))"

definition octet :: "ipv4 \<Rightarrow> nat \<Rightarrow> u8" where
  "octet a i = ipv4_octets a ! i"

section \<open>QUIC sizes\<close>

definition varint_len :: "u64 \<Rightarrow> nat outcome" where
  "varint_len x =
    (if x \<le> 63 then Ret 1
     else if x \<le> 16383 then Ret 2
     else if x \<le> 1073741823 then Ret 4
     else if x \<le> 4611686018427387903 then Ret 8
     else Panic)"

definition http3_data_frame_overhead :: "u64 \<Rightarrow> nat outcome" where
  "http3_data_frame_overhead payload_size =
    obind (varint_len 0) (\<lambda>frame_type. obind (varint_len payload_size) (\<lambda>n. Ret (frame_type + n)))"

section \<open>Fixed-size addresses\<close>

definition get_fixed_size_ip :: "bytes \<Rightarrow> (ip_addr \<times> bytes) outcome" where
  "get_fixed_size_ip bs =
    obind (buf_split_to IPV6_WIRE_LENGTH bs) (\<lambda>(ip, rest).
      if list_all (\<lambda>x. x = 0) (take IPV4_PADDING_WIRE_LENGTH ip) then
        Ret (V4 (ipv4_from_octets (drop IPV4_PADDING_WIRE_LENGTH ip)), rest)
      else Ret (V6 (ipv6_from_octets ip), rest))"

fun put_fixed_size_ip :: "bytes \<Rightarrow> ip_addr \<Rightarrow> bytes" where
  "put_fixed_size_ip bs (V4 a) = bs @ replicate IPV4_PADDING_WIRE_LENGTH 0 @ ipv4_octets a"
| "put_fixed_size_ip bs (V6 a) = bs @ ipv6_octets a"

section \<open>IP headers and checksum\<close>

text \<open>The result \<open>Ret None\<close> is an invalid packet, \<open>Panic\<close> a read past the end of the buffer.\<close>

definition skip_ipv4_header :: "bytes \<Rightarrow> (nat \<times> bytes) option outcome" where
  "skip_ipv4_header packet =
    (if length packet < MIN_IPV4_HEADER_SIZE then Ret None
     else
       obind (buf_get_u8 packet) (\<lambda>(x, packet).
       let header_length = unat ((x AND 0x0F) * 4) in
       if header_length < 20 \<or> length packet + 1 < header_length then Ret None
       else
         obind (buf_advance (1 + 2 + 2 + 2 + 1) packet) (\<lambda>packet.
         obind (buf_get_u8 packet) (\<lambda>(next_protocol, packet).
         obind (buf_advance (2 + 4 + 4 + (header_length - MIN_IPV4_HEADER_SIZE)) packet) (\<lambda>packet.
         Ret (Some (unat next_protocol, packet)))))))"

definition IPPROTO_HOPOPTS :: nat where "IPPROTO_HOPOPTS = 0"
definition IPPROTO_ROUTING :: nat where "IPPROTO_ROUTING = 43"
definition IPPROTO_FRAGMENT :: nat where "IPPROTO_FRAGMENT = 44"
definition IPPROTO_DSTOPTS :: nat where "IPPROTO_DSTOPTS = 60"

lemmas ipproto_defs = IPPROTO_HOPOPTS_def IPPROTO_ROUTING_def IPPROTO_FRAGMENT_def IPPROTO_DSTOPTS_def

text \<open>The extension header loop; every turn consumes at least two bytes.\<close>

function skip_ipv6_extensions :: "nat \<Rightarrow> bytes \<Rightarrow> (nat \<times> bytes) option outcome" where
  "skip_ipv6_extensions next_protocol packet =
    (if next_protocol = IPPROTO_HOPOPTS \<or> next_protocol = IPPROTO_ROUTING
        \<or> next_protocol = IPPROTO_DSTOPTS then
       (case packet of
          nxt # ext_length # rest \<Rightarrow>
            (case buf_advance (unat ext_length) rest of
               Panic \<Rightarrow> Panic
             | Ret packet' \<Rightarrow> skip_ipv6_extensions (unat nxt) packet')
        | _ \<Rightarrow> Ret None)
     else if next_protocol = IPPROTO_FRAGMENT then
       if length packet < 8 then Ret None
       else skip_ipv6_extensions (unat (packet ! 0)) (drop 8 packet)
     else Ret (Some (next_protocol, packet)))"
  by pat_completeness auto
termination
  by (relation "measure (\<lambda>(_, packet). length packet)")
    (auto simp: buf_advance_def split: if_splits)

declare skip_ipv6_extensions.simps [simp del]

definition skip_ipv6_header :: "bytes \<Rightarrow> (nat \<times> bytes) option outcome" where
  "skip_ipv6_header packet =
    (if length packet < MIN_IPV6_HEADER_SIZE then Ret None
     else
       obind (buf_advance (4 + 2) packet) (\<lambda>packet.
       obind (buf_get_u8 packet) (\<lambda>(next_protocol, packet).
       obind (buf_advance (1 + 16 + 16) packet) (\<lambda>packet.
       skip_ipv6_extensions (unat next_protocol) packet))))"

text \<open>The sum of \<open>rfc1071_checksum\<close>: 16-bit big-endian words, a last odd byte counting as the
  high byte of a word. The addition is on \<open>u32\<close>.\<close>

fun checksum_sum :: "u32 \<Rightarrow> bytes \<Rightarrow> u32" where
  "checksum_sum acc [] = acc"
| "checksum_sum acc [b] = acc + push_bit 8 (ucast b)"
| "checksum_sum acc (b # c # rest) = checksum_sum (acc + push_bit 8 (ucast b) + ucast c) rest"

definition rfc1071_checksum :: "bytes \<Rightarrow> u16" where
  "rfc1071_checksum bs =
    (let total = checksum_sum 0 bs in ucast (NOT (drop_bit 16 total + total)))"

section \<open>Globally routable addresses\<close>

text \<open>The predicates of \<open>std::net::Ipv4Addr\<close> and \<open>Ipv6Addr\<close>.\<close>

definition is_private :: "ipv4 \<Rightarrow> bool" where
  "is_private a \<longleftrightarrow> octet a 0 = 10
     \<or> (octet a 0 = 172 \<and> 16 \<le> octet a 1 \<and> octet a 1 \<le> 31)
     \<or> (octet a 0 = 192 \<and> octet a 1 = 168)"

definition is_loopback_v4 :: "ipv4 \<Rightarrow> bool" where
  "is_loopback_v4 a \<longleftrightarrow> octet a 0 = 127"

definition is_link_local_v4 :: "ipv4 \<Rightarrow> bool" where
  "is_link_local_v4 a \<longleftrightarrow> octet a 0 = 169 \<and> octet a 1 = 254"

definition is_broadcast :: "ipv4 \<Rightarrow> bool" where
  "is_broadcast a \<longleftrightarrow> a = 0xFFFFFFFF"

definition is_documentation_v4 :: "ipv4 \<Rightarrow> bool" where
  "is_documentation_v4 a \<longleftrightarrow>
     (octet a 0 = 192 \<and> octet a 1 = 0 \<and> octet a 2 = 2)
     \<or> (octet a 0 = 198 \<and> octet a 1 = 51 \<and> octet a 2 = 100)
     \<or> (octet a 0 = 203 \<and> octet a 1 = 0 \<and> octet a 2 = 113)"

definition is_multicast_v6 :: "ipv6 \<Rightarrow> bool" where
  "is_multicast_v6 a \<longleftrightarrow> segment a 0 AND 0xFF00 = 0xFF00"

definition is_loopback_v6 :: "ipv6 \<Rightarrow> bool" where
  "is_loopback_v6 a \<longleftrightarrow> a = 1"

definition is_unspecified_v6 :: "ipv6 \<Rightarrow> bool" where
  "is_unspecified_v6 a \<longleftrightarrow> a = 0"

definition is_global_ipv4 :: "ipv4 \<Rightarrow> bool" where
  "is_global_ipv4 a \<longleftrightarrow>
    (if a = 0xC0000009 \<or> a = 0xC000000A then True
     else
       \<not> is_private a
       \<and> \<not> is_loopback_v4 a
       \<and> \<not> is_link_local_v4 a
       \<and> \<not> is_broadcast a
       \<and> \<not> is_documentation_v4 a
       \<and> \<not> (octet a 0 = 100 \<and> octet a 1 AND 0xC0 = 0x40)
       \<and> \<not> (octet a 0 = 192 \<and> octet a 1 = 0 \<and> octet a 2 = 0)
       \<and> \<not> (octet a 0 AND 240 = 240 \<and> \<not> is_broadcast a)
       \<and> \<not> (octet a 0 = 198 \<and> octet a 1 AND 0xFE = 18)
       \<and> octet a 0 \<noteq> 0)"

definition is_unicast_global_ipv6 :: "ipv6 \<Rightarrow> bool" where
  "is_unicast_global_ipv6 a \<longleftrightarrow>
     \<not> (is_multicast_v6 a
       \<or> is_loopback_v6 a
       \<or> segment a 0 AND 0xFFC0 = 0xFE80
       \<or> segment a 0 AND 0xFE00 = 0xFC00
       \<or> is_unspecified_v6 a
       \<or> (segment a 0 = 0x2001 \<and> segment a 1 = 0xDB8))"

definition is_global_ipv6 :: "ipv6 \<Rightarrow> bool" where
  "is_global_ipv6 a \<longleftrightarrow>
    (if is_multicast_v6 a then
       let scope = segment a 0 AND 0x000F in
       if scope = 1 \<or> scope = 2 \<or> scope = 3 \<or> scope = 4 \<or> scope = 5 \<or> scope = 8 then False
       else if scope = 0x0E then True
       else False
     else is_unicast_global_ipv6 a)"

definition extract_ipv4_from_ipv6 :: "ipv6 \<Rightarrow> ipv4 option" where
  "extract_ipv4_from_ipv6 a =
    (let is_mapped = segment a 0 = 0 \<and> segment a 1 = 0 \<and> segment a 2 = 0 \<and> segment a 3 = 0
                     \<and> segment a 4 = 0 \<and> segment a 5 = 0xFFFF;
         is_compat = segment a 0 = 0 \<and> segment a 1 = 0 \<and> segment a 2 = 0 \<and> segment a 3 = 0
                     \<and> segment a 4 = 0 \<and> segment a 5 = 0 \<and> (segment a 6 \<noteq> 0 \<or> 1 < segment a 7)
     in if is_mapped \<or> is_compat then
          Some (ipv4_from_octets [ucast (drop_bit 8 (segment a 6)), ucast (segment a 6),
                                  ucast (drop_bit 8 (segment a 7)), ucast (segment a 7)])
        else None)"

fun unmap_ipv6 :: "ip_addr \<Rightarrow> ip_addr" where
  "unmap_ipv6 (V6 v6) = (case extract_ipv4_from_ipv6 v6 of Some v4 \<Rightarrow> V4 v4 | None \<Rightarrow> V6 v6)"
| "unmap_ipv6 (V4 v4) = V4 v4"

fun is_global_ip :: "ip_addr \<Rightarrow> bool" where
  "is_global_ip (V4 x) = is_global_ipv4 x"
| "is_global_ip (V6 x) =
    (case extract_ipv4_from_ipv6 x of Some v4 \<Rightarrow> is_global_ipv4 v4 | None \<Rightarrow> is_global_ipv6 x)"

section \<open>SNI scrubbing\<close>

definition SCRUBBED_PLACEHOLDER :: string where
  "SCRUBBED_PLACEHOLDER = ''__stripped__''"

definition scrub_sni :: "string \<Rightarrow> string" where
  "scrub_sni sni =
    (if CHR ''.'' \<in> set sni then SCRUBBED_PLACEHOLDER @ dropWhile (\<lambda>c. c \<noteq> CHR ''.'') sni else sni)"

section \<open>Fixed-size addresses: lemmas\<close>

text \<open>The address that the layout denotes: an IPv6 address with twelve leading zero bytes is
  read back as the IPv4 address of its last four.\<close>

fun canonical_ip :: "ip_addr \<Rightarrow> ip_addr" where
  "canonical_ip (V4 a) = V4 a"
| "canonical_ip (V6 a) = (if unat a < 2 ^ 32 then V4 (word_of_nat (unat a)) else V6 a)"

lemma length_octets [simp]: "length (ipv4_octets a) = 4" "length (ipv6_octets b) = 16"
  by (simp_all add: ipv4_octets_def ipv6_octets_def)

lemma unat_ipv4_less: "unat (a :: ipv4) < 256 ^ 4"
  by (rule order_less_le_trans [OF unsigned_less]) simp

lemma unat_ipv6_less: "unat (a :: ipv6) < 256 ^ 16"
  by (rule order_less_le_trans [OF unsigned_less]) simp

lemma ipv4_from_octets_octets [simp]: "ipv4_from_octets (ipv4_octets a) = a"
  by (simp add: ipv4_from_octets_def ipv4_octets_def of_be_to_be [OF unat_ipv4_less])

lemma ipv6_from_octets_octets [simp]: "ipv6_from_octets (ipv6_octets a) = a"
  by (simp add: ipv6_from_octets_def ipv6_octets_def of_be_to_be [OF unat_ipv6_less])

lemma octets_from_octets [simp]:
  "length bs = 4 \<Longrightarrow> ipv4_octets (ipv4_from_octets bs) = bs"
  "length bs = 16 \<Longrightarrow> ipv6_octets (ipv6_from_octets bs) = bs"
  using of_be_less [of bs]
  by (simp_all add: ipv4_from_octets_def ipv4_octets_def ipv6_from_octets_def ipv6_octets_def
      unat_of_nat)

lemma ipv6_octets_split: "ipv6_octets a = to_be 12 (unat a div 4294967296) @ to_be 4 (unat a)"
  using to_be_append [of 12 4 "unat a"] by (simp add: ipv6_octets_def)

lemma to_be_12_zero_iff:
  "list_all (\<lambda>x. x = 0) (to_be 12 (unat (a :: ipv6) div 4294967296)) \<longleftrightarrow> unat a < 4294967296"
proof -
  have "unat a div 4294967296 < 256 ^ 12"
    using unat_ipv6_less [of a] by (simp add: less_mult_imp_div_less)
  then show ?thesis
    by (simp add: of_be_zero_iff [symmetric] div_eq_0_iff)
qed

lemma get_put_fixed_size_ip:
  "get_fixed_size_ip (put_fixed_size_ip [] a @ rest) = Ret (canonical_ip a, rest)"
proof (cases a)
  case (V4 v4)
  then show ?thesis
    by (simp add: get_fixed_size_ip_def wire_lengths zero_bytes_iff)
next
  case (V6 v6)
  have pad: "list_all (\<lambda>x. x = 0) (take 12 (ipv6_octets v6)) \<longleftrightarrow> unat v6 < 4294967296"
    using to_be_12_zero_iff [of v6] by (simp add: ipv6_octets_split)
  have low: "ipv4_from_octets (drop 12 (ipv6_octets v6)) = word_of_nat (unat v6)"
    if "unat v6 < 4294967296"
    using that by (simp add: ipv4_from_octets_def ipv6_octets_split)
  show ?thesis
    using V6 by (simp add: get_fixed_size_ip_def wire_lengths pad low)
qed

lemma put_get_fixed_size_ip:
  assumes "get_fixed_size_ip bs = Ret (a, rest)"
  shows "put_fixed_size_ip [] a @ rest = bs"
proof -
  have len: "16 \<le> length bs"
    using assms by (auto simp: get_fixed_size_ip_def buf_split_to_def wire_lengths split: if_splits)
  define w where "w = take 16 bs"
  have w: "length w = 16" "w @ drop 16 bs = bs" using len by (simp_all add: w_def)
  then have r: "rest = drop 16 bs"
    and a: "a = (if list_all (\<lambda>x. x = 0) (take 12 w) then V4 (ipv4_from_octets (drop 12 w))
        else V6 (ipv6_from_octets w))"
    using assms len
    by (auto simp: get_fixed_size_ip_def wire_lengths w_def split: if_splits)
  show ?thesis
  proof (cases "list_all (\<lambda>x. x = 0) (take 12 w)")
    case True
    then have "take 12 w = replicate 12 0"
      using zero_bytes_iff [of "take 12 w"] w(1) by simp
    moreover have "take 12 w @ drop 12 w = w" by simp
    ultimately have "replicate 12 0 @ drop 12 w = w" by simp
    with True a r w show ?thesis by (simp add: wire_lengths)
  next
    case False
    with a r w show ?thesis by simp
  qed
qed

lemma get_fixed_size_ip_no_panic: "16 \<le> length bs \<Longrightarrow> get_fixed_size_ip bs \<noteq> Panic"
  by (simp add: get_fixed_size_ip_def wire_lengths)

lemma length_put_fixed_size_ip [simp]: "length (put_fixed_size_ip bs a) = length bs + 16"
  by (cases a) (simp_all add: wire_lengths)

section \<open>Header skipping: lemmas\<close>

lemma ihl_bytes: "unat ((x AND 0x0F) * 4 :: u8) = 4 * (unat x mod 16)"
proof -
  have "(0x0F :: u8) = mask 4" by (simp add: mask_eq_exp_minus_1)
  then have m: "unat (x AND 0x0F) = unat x mod 16"
    using unat_and_mask [of x 4] by simp
  have "unat x mod 16 * 4 < 256"
    using mod_less_divisor [of 16 "unat x"] by linarith
  then show ?thesis
    by (simp add: unat_word_ariths m mult.commute)
qed

lemma skip_ipv4_header_eq:
  "skip_ipv4_header p =
    (if length p < 20 then Ret None
     else let h = 4 * (unat (p ! 0) mod 16) in
       if h < 20 \<or> length p < h then Ret None else Ret (Some (unat (p ! 9), drop h p)))"
proof (cases "length p < 20")
  case True
  then show ?thesis by (simp add: skip_ipv4_header_def MIN_IPV4_HEADER_SIZE_def)
next
  case False
  then obtain x q where p: "p = x # q" and q: "19 \<le> length q"
    by (cases p) auto
  let ?h = "4 * (unat x mod 16)"
  show ?thesis
  proof (cases "?h < 20 \<or> length q + 1 < ?h")
    case True
    with p q show ?thesis
      by (auto simp: skip_ipv4_header_def MIN_IPV4_HEADER_SIZE_def ihl_bytes Let_def)
  next
    case ok: False
    have d: "drop 8 q = q ! 8 # drop 9 q"
      using q Cons_nth_drop_Suc [of 8 q] by simp
    have sums: "(1 + 2 + 2 + 2 + 1 :: nat) = 8" "(2 + 4 + 4 :: nat) = 10" by simp_all
    show ?thesis
      using ok p q d unfolding skip_ipv4_header_def sums
      by (auto simp: MIN_IPV4_HEADER_SIZE_def ihl_bytes Let_def drop_Cons' nth_Cons')
  qed
qed

lemma skip_ipv6_header_eq:
  assumes "length hdr = 40"
  shows "skip_ipv6_header (hdr @ payload) = skip_ipv6_extensions (unat (hdr ! 6)) payload"
proof -
  have d: "drop 6 hdr = hdr ! 6 # drop 7 hdr"
    using assms Cons_nth_drop_Suc [of 6 hdr] by simp
  show ?thesis
    using assms by (simp add: skip_ipv6_header_def MIN_IPV6_HEADER_SIZE_def d)
qed

lemma skip_ipv6_extensions_plain:
  "n \<notin> {0, 43, 44, 60} \<Longrightarrow> skip_ipv6_extensions n p = Ret (Some (n, p))"
  by (simp add: skip_ipv6_extensions.simps ipproto_defs)

text \<open>The extension length is not checked against the packet: a hop-by-hop, routing or destination
  header that claims more bytes than follow makes the skipper panic.\<close>

lemma skip_ipv6_header_overrun:
  assumes "length hdr = 40" and "unat (hdr ! 6) \<in> {0, 43, 60}" and "length rest < unat ext_length"
  shows "skip_ipv6_header (hdr @ nxt # ext_length # rest) = Panic"
  using assms(2,3) unfolding skip_ipv6_header_eq [OF assms(1)]
  by (subst skip_ipv6_extensions.simps) (auto simp: ipproto_defs buf_advance_def)

section \<open>Checksum: lemmas\<close>

lemma unat_ucast_not: "unat (ucast (NOT (w :: u32)) :: u16) = 65535 - unat w mod 65536"
proof -
  have "(ucast (NOT w) :: u16) = NOT (ucast w)"
    by (rule bit_eqI) (simp add: bit_simps)
  also have "\<dots> = - 1 - ucast w"
    by (simp add: not_eq_complement)
  also have "unat (- 1 - ucast w :: u16) = unat (- 1 :: u16) - unat (ucast w :: u16)"
    by (rule unat_sub) (rule word_order.extremum)
  finally show ?thesis
    by (simp add: unsigned_ucast_eq take_bit_nat_def unsigned_minus_1_eq_mask mask_eq_exp_minus_1)
qed

text \<open>The plain sum of the 16-bit words, and the one's complement folding of RFC 1071.\<close>

fun word_sum :: "bytes \<Rightarrow> nat" where
  "word_sum [] = 0"
| "word_sum [b] = 256 * unat b"
| "word_sum (b # c # rest) = 256 * unat b + unat c + word_sum rest"

function fold_carries :: "nat \<Rightarrow> nat" where
  "fold_carries s = (if s < 65536 then s else fold_carries (s div 65536 + s mod 65536))"
  by pat_completeness auto
termination
proof (relation "measure id", goal_cases)
  case (2 s)
  then have "0 < s div 65536" by (simp add: div_greater_zero_iff)
  moreover have "s = s div 65536 * 65536 + s mod 65536" by simp
  ultimately show ?case by (simp only: in_measure id_apply)
qed simp

declare fold_carries.simps [simp del]

definition rfc1071_reference :: "bytes \<Rightarrow> nat" where
  "rfc1071_reference bs = 65535 - fold_carries (word_sum bs)"

lemma word_sum_bound: "word_sum bs \<le> 65535 * ((length bs + 1) div 2)"
proof (induction bs rule: word_sum.induct)
  case (2 b)
  then show ?case using unat_byte_less [of b] by simp
next
  case (3 b c rest)
  then show ?case using unat_byte_less [of b] unat_byte_less [of c] by simp
qed simp

lemma unat_push_byte: "unat (push_bit 8 (ucast (b :: u8)) :: u32) = 256 * unat b"
  using unat_byte_less [of b]
  by (simp add: push_bit_eq_mult unat_word_ariths unsigned_ucast_eq take_bit_nat_eq_self)

lemma checksum_sum_eq:
  "unat acc + word_sum bs < 2 ^ 32 \<Longrightarrow> unat (checksum_sum acc bs) = unat acc + word_sum bs"
proof (induction acc bs rule: checksum_sum.induct)
  case (2 acc b)
  then show ?case by (simp add: unat_word_ariths unat_push_byte)
next
  case (3 acc b c rest)
  have "unat (acc + push_bit 8 (ucast b) + ucast c) = unat acc + 256 * unat b + unat c"
    using "3.prems" by (simp add: unat_word_ariths unat_push_byte unsigned_ucast_eq take_bit_nat_def)
  with 3 show ?case by simp
qed simp

lemma word_sum_small:
  assumes "length bs \<le> 65536"
  shows "word_sum bs \<le> 65535 * 32768"
proof -
  have "(length bs + 1) div 2 \<le> 32768" using assms by simp
  then show ?thesis using word_sum_bound [of bs] by (meson le_trans mult_le_mono2)
qed

text \<open>The value the code computes: the carries are added back once, and what that addition carries
  out of 16 bits is dropped.\<close>

lemma rfc1071_checksum_value:
  assumes "length bs \<le> 65536"
  shows "unat (rfc1071_checksum bs) =
    65535 - (word_sum bs div 65536 + word_sum bs mod 65536) mod 65536"
proof -
  define s where "s = word_sum bs"
  have s: "s \<le> 65535 * 32768" using word_sum_small [OF assms] by (simp add: s_def)
  then have total: "unat (checksum_sum 0 bs) = s"
    using checksum_sum_eq [of 0 bs] by (simp add: s_def)
  have hi: "s div 65536 < 32768" using s by (simp add: less_mult_imp_div_less)
  have folded: "unat (drop_bit 16 (checksum_sum 0 bs) + checksum_sum 0 bs) = s div 65536 + s"
    using s hi by (simp add: unat_word_ariths unsigned_drop_bit_eq drop_bit_nat_def total
        take_bit_nat_eq_self)
  have "unat (rfc1071_checksum bs) = 65535 - (s div 65536 + s) mod 65536"
    by (simp only: rfc1071_checksum_def Let_def unat_ucast_not folded)
  then show ?thesis by (simp add: s_def mod_add_right_eq)
qed

section \<open>Address classification: lemmas\<close>

text \<open>The special-purpose blocks of the IANA IPv4 registry, as network and prefix length.\<close>

definition in_block :: "'a::len word \<Rightarrow> 'a word \<times> nat \<Rightarrow> bool" where
  "in_block a b = (case b of (net, len) \<Rightarrow>
     drop_bit (LENGTH('a) - len) a = drop_bit (LENGTH('a) - len) net)"

definition special_ipv4_blocks :: "(ipv4 \<times> nat) list" where
  "special_ipv4_blocks =
    [(0x00000000, 8), (0x0A000000, 8), (0x64400000, 10), (0x7F000000, 8), (0xA9FE0000, 16),
     (0xAC100000, 12), (0xC0000000, 24), (0xC0000200, 24), (0xC0A80000, 16), (0xC6120000, 15),
     (0xC6336400, 24), (0xCB007100, 24), (0xF0000000, 4)]"

lemma in_block_iff:
  fixes a net :: "'a::len word"
  shows "in_block a (net, len) \<longleftrightarrow>
     unat a div 2 ^ (LENGTH('a) - len) = unat net div 2 ^ (LENGTH('a) - len)"
  by (simp add: in_block_def word_unat_eq_iff unsigned_drop_bit_eq drop_bit_nat_def
      take_bit_nat_eq_self)

lemma unat_octet: "i < 4 \<Longrightarrow> unat (octet a i) = unat a div 256 ^ (3 - i) mod 256"
proof -
  have "to_be 4 n = [word_of_nat (n div 256 ^ 3), word_of_nat (n div 256 ^ 2),
      word_of_nat (n div 256), word_of_nat n]" for n
    by (simp add: to_be_eval)
  moreover assume "i < 4"
  then have "i = 0 \<or> i = 1 \<or> i = 2 \<or> i = 3" by linarith
  ultimately show ?thesis
    by (elim disjE)
      (simp_all add: octet_def ipv4_octets_def unat_of_nat_byte unsigned_ucast_eq take_bit_nat_def)
qed

lemma ipv4_decompose:
  obtains A B C D where "unat (a :: ipv4) = A * 16777216 + B * 65536 + C * 256 + D"
    "A < 256" "B < 256" "C < 256" "D < 256"
    "unat (octet a 0) = A" "unat (octet a 1) = B" "unat (octet a 2) = C" "unat (octet a 3) = D"
proof
  define n where "n = unat a"
  have n: "n < 4294967296" using unat_ipv4_less [of a] by (simp add: n_def)
  show "unat a = (n div 16777216) * 16777216 + (n div 65536 mod 256) * 65536
      + (n div 256 mod 256) * 256 + n mod 256"
  proof -
    have "n = 256 * (n div 256) + n mod 256" by simp
    moreover have "n div 256 = 256 * (n div 65536) + n div 256 mod 256"
      using mult_div_mod_eq [of 256 "n div 256"] by (simp add: div_mult2_eq [symmetric])
    moreover have "n div 65536 = 256 * (n div 16777216) + n div 65536 mod 256"
      using mult_div_mod_eq [of 256 "n div 65536"] by (simp add: div_mult2_eq [symmetric])
    ultimately show ?thesis unfolding n_def [symmetric] by linarith
  qed
  show "n div 16777216 < 256" using n by linarith
  show "n div 65536 mod 256 < 256" "n div 256 mod 256 < 256" "n mod 256 < 256" by simp_all
  show "unat (octet a 0) = n div 16777216"
    using unat_octet [of 0 a] \<open>n div 16777216 < 256\<close> by (simp add: n_def)
  show "unat (octet a 1) = n div 65536 mod 256" "unat (octet a 2) = n div 256 mod 256"
    "unat (octet a 3) = n mod 256"
    using unat_octet [of 1 a] unat_octet [of 2 a] unat_octet [of 3 a] by (simp_all add: n_def)
qed

lemma byte_high_masks:
  fixes b :: u8
  shows "b AND 0xC0 = 0x40 \<longleftrightarrow> unat b div 64 = 1"
    and "b AND 240 = 240 \<longleftrightarrow> unat b div 16 = 15"
    and "b AND 0xFE = 18 \<longleftrightarrow> unat b div 2 = 9"
proof -
  have masks: "(0xC0 :: u8) = NOT (mask 6)" "(240 :: u8) = NOT (mask 4)" "(0xFE :: u8) = NOT (mask 1)"
    by (simp_all add: mask_eq_exp_minus_1)
  show "b AND 0xC0 = 0x40 \<longleftrightarrow> unat b div 64 = 1"
    unfolding word_unat_eq_iff masks(1) unat_and_not_mask by simp
  have "b AND 240 = 240 \<longleftrightarrow> unat (b AND NOT (mask 4)) = 240"
    unfolding word_unat_eq_iff masks(2) [symmetric] by simp
  then show "b AND 240 = 240 \<longleftrightarrow> unat b div 16 = 15"
    unfolding unat_and_not_mask by simp
  show "b AND 0xFE = 18 \<longleftrightarrow> unat b div 2 = 9"
    unfolding word_unat_eq_iff masks(3) unat_and_not_mask by simp
qed

lemma byte_eq_iff: "(b :: u8) = numeral k \<longleftrightarrow> unat b = unat (numeral k :: u8)"
  "(b :: u8) = 0 \<longleftrightarrow> unat b = 0"
  by (simp_all add: word_unat_eq_iff)

lemma ipv4_block_division:
  assumes "n = A * 16777216 + B * 65536 + C * 256 + D" "A < 256" "B < 256" "C < 256" "D < (256::nat)"
  shows "n div 16777216 = A" "n div 65536 = A * 256 + B" "n div 256 = A * 65536 + B * 256 + C"
    "n div 4194304 = A * 4 + B div 64" "n div 1048576 = A * 16 + B div 16"
    "n div 131072 = A * 128 + B div 2" "n div 268435456 = A div 16"
proof -
  show h1: "n div 256 = A * 65536 + B * 256 + C"
    using assms(1,5) by simp
  have "n div 65536 = n div 256 div 256" by (simp add: div_mult2_eq [symmetric])
  also have "\<dots> = A * 256 + B" unfolding h1 using assms(4) by simp
  finally show h2: "n div 65536 = A * 256 + B" .
  have "n div 16777216 = n div 65536 div 256" by (simp add: div_mult2_eq [symmetric])
  also have "\<dots> = A" unfolding h2 using assms(3) by simp
  finally show h3: "n div 16777216 = A" .
  have "A * 256 + B = B + (A * 4) * 64" by simp
  then have "n div 65536 div 64 = A * 4 + B div 64" unfolding h2 by simp
  then show "n div 4194304 = A * 4 + B div 64" by (simp add: div_mult2_eq [symmetric])
  have "A * 256 + B = B + (A * 16) * 16" by simp
  then have "n div 65536 div 16 = A * 16 + B div 16" unfolding h2 by simp
  then show "n div 1048576 = A * 16 + B div 16" by (simp add: div_mult2_eq [symmetric])
  have "A * 256 + B = B + (A * 128) * 2" by simp
  then have "n div 65536 div 2 = A * 128 + B div 2" unfolding h2 by simp
  then show "n div 131072 = A * 128 + B div 2" by (simp add: div_mult2_eq [symmetric])
  have "n div 268435456 = n div 16777216 div 16" by (simp add: div_mult2_eq [symmetric])
  then show "n div 268435456 = A div 16" by (simp only: h3)
qed

lemma special_blocks_iff:
  fixes a :: ipv4
  defines "A \<equiv> unat (octet a 0)" and "B \<equiv> unat (octet a 1)" and "C \<equiv> unat (octet a 2)"
  shows "list_ex (in_block a) special_ipv4_blocks \<longleftrightarrow>
    A = 0 \<or> A = 10 \<or> (A = 100 \<and> B div 64 = 1) \<or> A = 127 \<or> (A = 169 \<and> B = 254)
    \<or> (A = 172 \<and> B div 16 = 1) \<or> (A = 192 \<and> B = 0 \<and> C = 0) \<or> (A = 192 \<and> B = 0 \<and> C = 2)
    \<or> (A = 192 \<and> B = 168) \<or> (A = 198 \<and> B div 2 = 9) \<or> (A = 198 \<and> B = 51 \<and> C = 100)
    \<or> (A = 203 \<and> B = 0 \<and> C = 113) \<or> A div 16 = 15"
proof -
  obtain A' B' C' D' where n: "unat a = A' * 16777216 + B' * 65536 + C' * 256 + D'"
    and bounds: "A' < 256" "B' < 256" "C' < 256" "D' < 256"
    and eqs: "A = A'" "B = B'" "C = C'"
    unfolding A_def B_def C_def by (rule ipv4_decompose [of a])
  note divs = ipv4_block_division [OF n bounds]
  have c1: "A' * 256 + B' = x * 256 + y \<longleftrightarrow> A' = x \<and> B' = y" if "y < 256" for x y
    using that bounds by (intro mult_add_eq_iff)
  have c2: "A' * 65536 + B' * 256 + C' = x * 65536 + y * 256 + z \<longleftrightarrow> A' = x \<and> B' = y \<and> C' = z"
    if "y < 256" "z < 256" for x y z
  proof -
    have "A' * 65536 + B' * 256 + C' = (A' * 256 + B') * 256 + C'"
      "x * 65536 + y * 256 + z = (x * 256 + y) * 256 + z"
      by simp_all
    then show ?thesis
      using that bounds by (simp only: mult_add_eq_iff conj_assoc)
  qed
  have c3: "A' * 4 + B' div 64 = x * 4 + y \<longleftrightarrow> A' = x \<and> B' div 64 = y" if "y < 4" for x y
    using that bounds by (intro mult_add_eq_iff) (simp_all add: less_mult_imp_div_less)
  have c4: "A' * 16 + B' div 16 = x * 16 + y \<longleftrightarrow> A' = x \<and> B' div 16 = y" if "y < 16" for x y
    using that bounds by (intro mult_add_eq_iff) (simp_all add: less_mult_imp_div_less)
  have c5: "A' * 128 + B' div 2 = x * 128 + y \<longleftrightarrow> A' = x \<and> B' div 2 = y" if "y < 128" for x y
    using that bounds by (intro mult_add_eq_iff) (simp_all add: less_mult_imp_div_less)
  show ?thesis
    unfolding eqs special_ipv4_blocks_def
    using c3 [of 1 100] c1 [of 254 169] c4 [of 1 172] c2 [of 0 0 192] c2 [of 0 2 192]
      c1 [of 168 192] c5 [of 9 198] c2 [of 51 100 198] c2 [of 0 113 203]
    by (simp add: in_block_iff divs)
qed

lemma unat_segment: "unat (segment a i) = unat a div 65536 ^ (7 - i) mod 65536"
  by (simp add: segment_def unat_of_nat)

lemma segments_high_zero:
  fixes a :: ipv6
  shows "(segment a 0 = 0 \<and> segment a 1 = 0 \<and> segment a 2 = 0 \<and> segment a 3 = 0 \<and> segment a 4 = 0
      \<and> segment a 5 = x) \<longleftrightarrow> unat a div 4294967296 = unat x"
proof -
  define m where "m = unat a div 4294967296"
  define q1 where "q1 = m div 65536"
  define q2 where "q2 = q1 div 65536"
  define q3 where "q3 = q2 div 65536"
  define q4 where "q4 = q3 div 65536"
  define q5 where "q5 = q4 div 65536"
  note q_defs = q1_def q2_def q3_def q4_def q5_def m_def
  have q5: "q5 < 65536"
    unfolding q_defs using unat_ipv6_less [of a]
    by (simp add: div_mult2_eq [symmetric] less_mult_imp_div_less)
  have x: "unat x < 65536"
    by (rule order_less_le_trans [OF unsigned_less]) simp
  have steps: "m = q1 * 65536 + m mod 65536" "q1 = q2 * 65536 + q1 mod 65536"
    "q2 = q3 * 65536 + q2 mod 65536" "q3 = q4 * 65536 + q3 mod 65536"
    "q4 = q5 * 65536 + q4 mod 65536" "q5 = q5 mod 65536"
    using q5 by (simp_all add: q1_def q2_def q3_def q4_def q5_def)
  have "unat (segment a 0) = q5 mod 65536" "unat (segment a 1) = q4 mod 65536"
    "unat (segment a 2) = q3 mod 65536" "unat (segment a 3) = q2 mod 65536"
    "unat (segment a 4) = q1 mod 65536" "unat (segment a 5) = m mod 65536"
    unfolding q_defs unat_segment by (simp_all add: div_mult2_eq [symmetric])
  then have "(segment a 0 = 0 \<and> segment a 1 = 0 \<and> segment a 2 = 0 \<and> segment a 3 = 0
      \<and> segment a 4 = 0 \<and> segment a 5 = x) \<longleftrightarrow>
      (q5 mod 65536 = 0 \<and> q4 mod 65536 = 0 \<and> q3 mod 65536 = 0 \<and> q2 mod 65536 = 0
       \<and> q1 mod 65536 = 0 \<and> m mod 65536 = unat x)"
    unfolding word_unat_eq_iff by (simp only: unsigned_0)
  also have "\<dots> \<longleftrightarrow> m = unat x"
  proof
    assume "q5 mod 65536 = 0 \<and> q4 mod 65536 = 0 \<and> q3 mod 65536 = 0 \<and> q2 mod 65536 = 0
       \<and> q1 mod 65536 = 0 \<and> m mod 65536 = unat x"
    with steps show "m = unat x" by linarith
  next
    assume m: "m = unat x"
    with x have "q1 = 0" by (simp add: q1_def)
    with m x show "q5 mod 65536 = 0 \<and> q4 mod 65536 = 0 \<and> q3 mod 65536 = 0 \<and> q2 mod 65536 = 0
       \<and> q1 mod 65536 = 0 \<and> m mod 65536 = unat x"
      by (simp add: q2_def q3_def q4_def q5_def)
  qed
  finally show ?thesis by (simp only: m_def)
qed

lemma segments_low:
  fixes a :: ipv6
  shows "ipv4_from_octets [ucast (drop_bit 8 (segment a 6)), ucast (segment a 6),
           ucast (drop_bit 8 (segment a 7)), ucast (segment a 7)] = word_of_nat (unat a)"
proof -
  define n where "n = unat a"
  have lo: "unat (ucast s :: u8) = unat s mod 256" for s :: u16
    by (simp add: unsigned_ucast_eq take_bit_nat_def)
  have hi: "unat (ucast (drop_bit 8 s) :: u8) = unat s div 256" for s :: u16
  proof -
    have "unat s < 65536" by (rule order_less_le_trans [OF unsigned_less]) simp
    then have "unat s div 256 < 256" by (simp add: less_mult_imp_div_less)
    then show ?thesis
      by (simp add: unsigned_ucast_eq unsigned_drop_bit_eq drop_bit_nat_def take_bit_nat_eq_self)
  qed
  have seg: "unat (segment a 6) = n div 65536 mod 65536" "unat (segment a 7) = n mod 65536"
    by (simp_all add: unat_segment n_def)
  have "of_be [ucast (drop_bit 8 (segment a 6)), ucast (segment a 6),
      ucast (drop_bit 8 (segment a 7)), ucast (segment a 7)] =
      unat (segment a 6) * 65536 + unat (segment a 7)"
  proof -
    have join: "h = unat s div 256 \<Longrightarrow> l = unat s mod 256 \<Longrightarrow> unat s = h * 256 + l" for s :: u16 and h l
      by simp
    define h6 where "h6 = unat (segment a 6) div 256"
    define l6 where "l6 = unat (segment a 6) mod 256"
    define h7 where "h7 = unat (segment a 7) div 256"
    define l7 where "l7 = unat (segment a 7) mod 256"
    have "unat (segment a 6) = h6 * 256 + l6" "unat (segment a 7) = h7 * 256 + l7"
      unfolding h6_def l6_def h7_def l7_def by (rule join; simp)+
    then show ?thesis
      unfolding of_be.simps hi unfolding lo h6_def [symmetric] l6_def [symmetric]
        h7_def [symmetric] l7_def [symmetric]
      by simp
  qed
  also have "\<dots> = n mod 4294967296"
    unfolding seg using mod_mult2_eq [of n 65536 65536] by simp
  finally show ?thesis
    by (simp add: ipv4_from_octets_def n_def word_unat_eq_iff unat_of_nat unsigned_ucast_eq
        take_bit_nat_def del: of_be.simps)
qed

text \<open>The embedded IPv4 address, read off the number.\<close>

lemma extract_ipv4_eq:
  "extract_ipv4_from_ipv6 a =
    (if unat a div 4294967296 = 0xFFFF \<or> (unat a div 4294967296 = 0 \<and> 1 < unat a)
     then Some (word_of_nat (unat a)) else None)"
proof -
  have low: "segment a 6 \<noteq> 0 \<or> 1 < segment a 7 \<longleftrightarrow> 1 < unat a" if "unat a div 4294967296 = 0"
  proof -
    have "unat a < 4294967296" using that by (simp add: div_eq_0_iff)
    then have "unat (segment a 6) = unat a div 65536" "unat (segment a 7) = unat a mod 65536"
      by (simp_all add: unat_segment less_mult_imp_div_less)
    moreover have "unat a = unat a div 65536 * 65536 + unat a mod 65536" by simp
    ultimately show ?thesis
      by (simp only: word_unat_eq_iff word_less_nat_alt unsigned_0 unsigned_1) linarith
  qed
  have compat: "(segment a 0 = 0 \<and> segment a 1 = 0 \<and> segment a 2 = 0 \<and> segment a 3 = 0
      \<and> segment a 4 = 0 \<and> segment a 5 = 0 \<and> (segment a 6 \<noteq> 0 \<or> 1 < segment a 7)) \<longleftrightarrow>
      unat a div 4294967296 = 0 \<and> 1 < unat a"
    using segments_high_zero [of a 0] low by auto
  have mapped: "(segment a 0 = 0 \<and> segment a 1 = 0 \<and> segment a 2 = 0 \<and> segment a 3 = 0
      \<and> segment a 4 = 0 \<and> segment a 5 = 0xFFFF) \<longleftrightarrow> unat a div 4294967296 = 0xFFFF"
    using segments_high_zero [of a "0xFFFF"] by simp
  show ?thesis
    unfolding extract_ipv4_from_ipv6_def Let_def compat mapped segments_low ..
qed

section \<open>Properties\<close>

text \<open>
  C30: an IPv4 address counts as globally routable exactly when it lies in none of the
  special-purpose blocks of the IANA registry, or is one of the two anycast exceptions
  192.0.0.9 and 192.0.0.10.
\<close>

theorem is_global_ipv4_registry:
  "is_global_ipv4 a \<longleftrightarrow>
     a \<in> {0xC0000009, 0xC000000A} \<or> list_all (\<lambda>b. \<not> in_block a b) special_ipv4_blocks"
proof -
  have all: "list_all (\<lambda>b. \<not> in_block a b) special_ipv4_blocks \<longleftrightarrow>
      \<not> list_ex (in_block a) special_ipv4_blocks"
    by (simp add: list_ex_iff list_all_iff)
  have range16: "16 \<le> octet a 1 \<and> octet a 1 \<le> 31 \<longleftrightarrow> unat (octet a 1) div 16 = 1"
    by (simp add: word_le_nat_alt) linarith
  have bc: "is_broadcast a \<Longrightarrow> unat (octet a 0) div 16 = 15"
    by (simp add: is_broadcast_def unat_octet)

  define A where "A = unat (octet a 0)"
  define B where "B = unat (octet a 1)"
  define C where "C = unat (octet a 2)"
  have oct: "octet a 0 = numeral k \<longleftrightarrow> A = unat (numeral k :: u8)"
    "octet a 1 = numeral k \<longleftrightarrow> B = unat (numeral k :: u8)"
    "octet a 2 = numeral k \<longleftrightarrow> C = unat (numeral k :: u8)"
    "octet a 0 = 0 \<longleftrightarrow> A = 0" "octet a 1 = 0 \<longleftrightarrow> B = 0" "octet a 2 = 0 \<longleftrightarrow> C = 0" for k
    by (simp_all add: A_def B_def C_def byte_eq_iff)
  show ?thesis
  proof (cases "a = 0xC0000009 \<or> a = 0xC000000A")
    case True
    then show ?thesis by (auto simp: is_global_ipv4_def)
  next
    case False
    then have "is_global_ipv4 a \<longleftrightarrow> \<not> list_ex (in_block a) special_ipv4_blocks"
      using bc
      unfolding is_global_ipv4_def special_blocks_iff is_private_def is_loopback_v4_def
        is_link_local_v4_def is_documentation_v4_def byte_high_masks range16 oct
        A_def [symmetric] B_def [symmetric] C_def [symmetric]
      by simp blast
    with all False show ?thesis by simp
  qed
qed


text \<open>
  \<open>rfc1071_checksum\<close> compared with the one's complement sum of RFC 1071. It adds the carries
  back once and drops the carry of that addition, so it is one too large exactly when the folded
  sum overflows 16 bits again. (The message is at most 65536 bytes, so the 32-bit sum is exact.)
\<close>

theorem rfc1071_checksum_vs_reference:
  assumes "length bs \<le> 65536"
  shows "unat (rfc1071_checksum bs) =
    rfc1071_reference bs
      + (if word_sum bs div 65536 + word_sum bs mod 65536 < 65536 then 0 else 1)"
proof -
  define s where "s = word_sum bs"
  define t where "t = s div 65536 + s mod 65536"
  have hi: "s div 65536 < 32768"
    using word_sum_small [OF assms] by (simp add: s_def less_mult_imp_div_less)
  have lo: "s mod 65536 < 65536" by simp
  have code: "unat (rfc1071_checksum bs) = 65535 - t mod 65536"
    using rfc1071_checksum_value [OF assms] by (simp add: t_def s_def)
  show ?thesis
  proof (cases "t < 65536")
    case True
    then have "fold_carries s = t"
      by (cases "s < 65536") (simp_all add: fold_carries.simps t_def)
    with True code show ?thesis by (simp add: rfc1071_reference_def s_def [symmetric] t_def)
  next
    case False
    with hi lo have t: "65536 \<le> t" "t < 98304" unfolding t_def by linarith+
    then have "t div 65536 = 1" and tmod: "t mod 65536 = t - 65536"
      by (simp_all add: div_nat_eqI mod_if)
    moreover have "Suc (t - 65536) = t - 65535" using t by simp
    ultimately have fold_t: "fold_carries t = fold_carries (t - 65535)"
      using t by (subst fold_carries.simps) simp
    have "\<not> s < 65536" using False by (auto simp: t_def)
    then have "fold_carries s = fold_carries t"
      by (subst fold_carries.simps) (simp add: t_def)
    also have "\<dots> = t - 65535"
    proof -
      have "t - 65535 < 65536" using t by simp
      then show ?thesis unfolding fold_t by (subst fold_carries.simps) (simp only: if_True)
    qed
    finally have "fold_carries s = t - 65535" .
    then have "rfc1071_reference bs = 65535 - (t - 65535)"
      by (simp only: rfc1071_reference_def s_def [symmetric])
    moreover have "65535 - (t - 65536) = 65535 - (t - 65535) + 1" using t by arith
    ultimately have "unat (rfc1071_checksum bs) = rfc1071_reference bs + 1"
      by (simp only: code tmod)
    then show ?thesis using False by (simp only: s_def t_def if_False)
  qed
qed

theorem rfc1071_checksum_vs_reference_witness:
  "rfc1071_checksum [0xFF, 0xFF, 0xFF, 0xFF, 0x00, 0x01] = 0xFFFF \<and>
   rfc1071_reference [0xFF, 0xFF, 0xFF, 0xFF, 0x00, 0x01] = 0xFFFE"
proof -
  have "rfc1071_reference [0xFF, 0xFF, 0xFF, 0xFF, 0x00, 0x01] = 0xFFFE"
    by (simp add: rfc1071_reference_def fold_carries.simps)
  with rfc1071_checksum_vs_reference [of "[0xFF, 0xFF, 0xFF, 0xFF, 0x00, 0x01]"] show ?thesis
    by (simp add: word_unat_eq_iff)
qed

text \<open>
  the IPv4 header skipper never reads past the packet: it reports a packet as invalid when the
  header length field is below 20 or exceeds the packet, and otherwise returns the protocol
  field and everything after the header, options included.
\<close>

theorem skip_ipv4_header_total:
  "skip_ipv4_header p =
    Ret (if length p < 20 \<or> 4 * (unat (p ! 0) mod 16) < 20 \<or> length p < 4 * (unat (p ! 0) mod 16)
         then None else Some (unat (p ! 9), drop (4 * (unat (p ! 0) mod 16)) p))"
  by (simp add: skip_ipv4_header_eq Let_def)

text \<open>
  every 16-byte address field has exactly one reading and writing the address back restores
  the field; an address that was written is read back as itself, except that an IPv6 address with
  twelve leading zero bytes (such as \<open>::1\<close>) comes back as an IPv4 address.
\<close>

theorem fixed_size_ip_roundtrip:
  "get_fixed_size_ip (put_fixed_size_ip [] a @ rest) = Ret (canonical_ip a, rest) \<and>
   (get_fixed_size_ip bs = Ret (b, rest') \<longrightarrow> put_fixed_size_ip [] b @ rest' = bs) \<and>
   (get_fixed_size_ip bs = Panic \<longleftrightarrow> length bs < 16)"
proof (intro conjI impI)
  show "get_fixed_size_ip bs = Panic \<longleftrightarrow> length bs < 16"
    by (auto simp: get_fixed_size_ip_def wire_lengths buf_split_to_def)
qed (rule get_put_fixed_size_ip, rule put_get_fixed_size_ip)

theorem fixed_size_ip_roundtrip_witness:
  "get_fixed_size_ip (put_fixed_size_ip [] (V6 1)) = Ret (V4 1, []) \<and>
   put_fixed_size_ip [] (V4 0x01020304) = replicate 12 0 @ [1, 2, 3, 4]"
proof
  show "get_fixed_size_ip (put_fixed_size_ip [] (V6 1)) = Ret (V4 1, [])"
    using conjunct1 [OF fixed_size_ip_roundtrip [of "V6 1" "[]" "[]" "V4 0" "[]"]] by simp
  have "get_fixed_size_ip (replicate 12 0 @ [1, 2, 3, 4]) = Ret (V4 0x01020304, [])"
    by (simp add: get_fixed_size_ip_def wire_lengths zero_bytes_iff ipv4_from_octets_def)
  then show "put_fixed_size_ip [] (V4 0x01020304) = replicate 12 0 @ [1, 2, 3, 4]"
    using fixed_size_ip_roundtrip [of "V6 1" "[]" "replicate 12 0 @ [1, 2, 3, 4]" "V4 0x01020304" "[]"]
    by simp
qed

text \<open>
  scrubbing an SNI hides its first label, which may carry credentials: names that differ
  only there are scrubbed to the same string, and the rest of the name is kept.
\<close>

theorem scrub_sni_hides_first_label:
  assumes "CHR ''.'' \<notin> set label" and "CHR ''.'' \<notin> set label'"
  shows "scrub_sni (label @ ''.'' @ rest) = scrub_sni (label' @ ''.'' @ rest) \<and>
         scrub_sni (label @ ''.'' @ rest) = SCRUBBED_PLACEHOLDER @ ''.'' @ rest"
proof -
  have "scrub_sni (l @ ''.'' @ rest) = SCRUBBED_PLACEHOLDER @ ''.'' @ rest" if "CHR ''.'' \<notin> set l" for l
    using that by (simp add: scrub_sni_def dropWhile_append)
  with assms show ?thesis by simp
qed

theorem scrub_sni_hides_first_label_witness:
  "scrub_sni ''dXNlcjpwYXNz.vpn.example.com'' = ''__stripped__.vpn.example.com''"
proof -
  have "scrub_sni (''dXNlcjpwYXNz'' @ ''.'' @ ''vpn.example.com'') =
      SCRUBBED_PLACEHOLDER @ ''.'' @ ''vpn.example.com''"
    by (rule conjunct2, rule scrub_sni_hides_first_label [of _ "''a''"]) simp_all
  then show ?thesis by (simp add: SCRUBBED_PLACEHOLDER_def)
qed

end
