(* ===== verification/Log_Utils.thy ===== *)
theory Log_Utils
  imports Prelude
begin

text \<open>
  The identifiers of log lines, \<^verbatim>\<open>lib/src/log_utils.rs\<close>: an \<open>IdChain\<close> is the list of its items, an
  \<open>IdItem\<close> a format and a number. The format of an item is its text before the placeholder, which is
  last in every format the code uses.
\<close>

type_synonym id_chain = "(string \<times> u64) list"

definition CLIENT_ID_FMT :: string where "CLIENT_ID_FMT = ''CLIENT=''"
definition TUNNEL_ID_FMT :: string where "TUNNEL_ID_FMT = ''TUN=''"
definition CONNECTION_ID_FMT :: string where "CONNECTION_ID_FMT = ''CONN=''"

definition extended :: "id_chain \<Rightarrow> string \<times> u64 \<Rightarrow> id_chain" where
  "extended self new = self @ [new]"

definition id_chain_display :: "id_chain \<Rightarrow> string" where
  "id_chain_display self =
    foldl (\<lambda>acc (fmt, i). let x = fmt @ show_nat (unat i) in if acc \<noteq> [] then acc @ ''/'' @ x else x) [] self"

end
