(* ===== verification/Pipe.thy ===== *)
theory Pipe
  imports Log_Utils
begin

text \<open>
  The byte pipe between the two ends of a tunnelled connection, \<^verbatim>\<open>lib/src/pipe.rs\<close>. The traits \<open>Source\<close>
  and \<open>Sink\<close> are the records \<open>pipe_source\<close> and \<open>pipe_sink\<close> of operations over a state; a call that
  awaits answers \<open>Pending\<close> when it does not finish within the time the caller gives it. One turn of
  the loop of \<open>SimplexPipe::exchange\<close> is \<open>simplex_turn\<close>, the loop is \<open>simplex_exchange\<close>; the two
  directions of \<open>DuplexPipe::exchange\<close> interleave in the step relation \<open>duplex_step\<close>. The contracts of
  the two traits are the locales \<open>lawful_source\<close> and \<open>lawful_sink\<close>; under them the pipe loses,
  duplicates and reorders nothing.
\<close>

section \<open>Sources and sinks\<close>

datatype pipe_data = Chunk bytes | Eof

datatype simplex_direction = Incoming | Outgoing

record 'i pipe_source =
  src_read :: "'i \<Rightarrow> 'i \<times> (io_error, pipe_data) result poll"
  src_consume :: "'i \<Rightarrow> nat \<Rightarrow> 'i \<times> (io_error, unit) result"

text \<open>\<open>write\<close> returns the unsent rest.\<close>

record 'o pipe_sink =
  snk_write :: "'o \<Rightarrow> bytes \<Rightarrow> 'o \<times> (io_error, bytes) result"
  snk_eof :: "'o \<Rightarrow> 'o \<times> (io_error, unit) result"
  snk_wait_writable :: "'o \<Rightarrow> 'o \<times> (io_error, unit) result poll"
  snk_flush :: "'o \<Rightarrow> 'o \<times> (io_error, unit) result poll"

text \<open>The default method \<open>write_all\<close>; \<open>None\<close> when it does not return.\<close>

partial_function (option) write_all ::
  "'o pipe_sink \<Rightarrow> 'o \<Rightarrow> bytes \<Rightarrow> ('o \<times> (io_error, unit) result) option" where
  "write_all ops sink data =
    (if data = [] then Some (sink, Ok ())
     else
       (case snk_write ops sink data of
          (sink', Inl e) \<Rightarrow> Some (sink', Err e)
        | (sink', Inr rest) \<Rightarrow>
            if rest = [] then Some (sink', Ok ())
            else (case snk_wait_writable ops sink' of
                    (sink'', Pending) \<Rightarrow> None
                  | (sink'', Ready (Inl e)) \<Rightarrow> Some (sink'', Err e)
                  | (sink'', Ready (Inr _)) \<Rightarrow> write_all ops sink'' rest)))"

section \<open>One direction\<close>

text \<open>Instants are integers; \<open>sp_updates\<close> records the calls of \<open>update_metrics\<close>. The identifier that
  \<open>exchange\<close> carries through its results is the direction and only used in log lines.\<close>

record ('i, 'o) simplex_pipe =
  sp_source :: 'i
  sp_sink :: 'o
  sp_updates :: "(simplex_direction \<times> nat) list"
  sp_pending_chunk :: "pipe_data option"
  sp_direction :: simplex_direction
  sp_last_activity :: int

datatype exchange_status = ExTimedOut | ExFinished

text \<open>What a turn of the loop does: go on, leave the loop, or wait without a time limit.\<close>

datatype turn_result = Continue | Break "(io_error, exchange_status) result" | Waiting

definition simplex_new :: "int \<Rightarrow> 'i \<Rightarrow> 'o \<Rightarrow> simplex_direction \<Rightarrow> ('i, 'o) simplex_pipe" where
  "simplex_new now source sink direction =
    \<lparr>sp_source = source, sp_sink = sink, sp_updates = [], sp_pending_chunk = None,
     sp_direction = direction, sp_last_activity = now\<rparr>"

text \<open>The future that the loop awaits under the timeout.\<close>

definition next_data ::
  "'i pipe_source \<Rightarrow> 'o pipe_sink \<Rightarrow> ('i, 'o) simplex_pipe
   \<Rightarrow> ('i, 'o) simplex_pipe \<times> (io_error, pipe_data) result poll" where
  "next_data si so self =
    (case snk_flush so (sp_sink self) of
       (sink, Pending) \<Rightarrow> (self\<lparr>sp_sink := sink\<rparr>, Pending)
     | (sink, Ready (Inl e)) \<Rightarrow> (self\<lparr>sp_sink := sink\<rparr>, Ready (Err e))
     | (sink, Ready (Inr _)) \<Rightarrow>
         (case sp_pending_chunk self of
            None \<Rightarrow>
              (case src_read si (sp_source self) of
                 (source, r) \<Rightarrow> (self\<lparr>sp_sink := sink, sp_source := source\<rparr>, r))
          | Some pending \<Rightarrow>
              (case snk_wait_writable so sink of
                 (sink', Pending) \<Rightarrow> (self\<lparr>sp_sink := sink'\<rparr>, Pending)
               | (sink', Ready (Inl e)) \<Rightarrow> (self\<lparr>sp_sink := sink'\<rparr>, Ready (Err e))
               | (sink', Ready (Inr _)) \<Rightarrow>
                   (self\<lparr>sp_sink := sink', sp_pending_chunk := None\<rparr>, Ready (Ok pending)))))"

definition forward_chunk ::
  "'i pipe_source \<Rightarrow> 'o pipe_sink \<Rightarrow> bytes \<Rightarrow> ('i, 'o) simplex_pipe \<Rightarrow> ('i, 'o) simplex_pipe \<times> turn_result" where
  "forward_chunk si so bytes self =
    (case snk_write so (sp_sink self) bytes of
       (sink, Inl e) \<Rightarrow> (self\<lparr>sp_sink := sink\<rparr>, Break (Err e))
     | (sink, Inr unsent_data) \<Rightarrow>
         let sent = length bytes - length unsent_data;
             self = self\<lparr>sp_sink := sink, sp_updates := sp_updates self @ [(sp_direction self, sent)]\<rparr>
         in (case src_consume si (sp_source self) sent of
               (source, Inl e) \<Rightarrow> (self\<lparr>sp_source := source\<rparr>, Break (Err e))
             | (source, Inr _) \<Rightarrow>
                 (self\<lparr>sp_source := source,
                       sp_pending_chunk := (if unsent_data \<noteq> [] then Some (Chunk unsent_data)
                                            else sp_pending_chunk self)\<rparr>, Continue)))"

text \<open>The final flush is awaited without a time limit.\<close>

definition finish_eof ::
  "'o pipe_sink \<Rightarrow> ('i, 'o) simplex_pipe \<Rightarrow> ('i, 'o) simplex_pipe \<times> turn_result" where
  "finish_eof so self =
    (case snk_flush so (sp_sink self) of
       (sink, Pending) \<Rightarrow> (self\<lparr>sp_sink := sink\<rparr>, Waiting)
     | (sink, Ready (Inl e)) \<Rightarrow> (self\<lparr>sp_sink := sink\<rparr>, Break (Err e))
     | (sink, Ready (Inr _)) \<Rightarrow> (self\<lparr>sp_sink := sink\<rparr>, Break (Ok ExFinished)))"

definition forward_eof ::
  "'o pipe_sink \<Rightarrow> ('i, 'o) simplex_pipe \<Rightarrow> ('i, 'o) simplex_pipe \<times> turn_result" where
  "forward_eof so self =
    (case snk_eof so (sp_sink self) of
       (sink, Inl e) \<Rightarrow> (self\<lparr>sp_sink := sink\<rparr>, Break (Err e))
     | (sink, Inr _) \<Rightarrow> finish_eof so (self\<lparr>sp_sink := sink\<rparr>))"

definition simplex_turn ::
  "'i pipe_source \<Rightarrow> 'o pipe_sink \<Rightarrow> int \<Rightarrow> ('i, 'o) simplex_pipe \<Rightarrow> ('i, 'o) simplex_pipe \<times> turn_result" where
  "simplex_turn si so now self =
    (case next_data si so (self\<lparr>sp_last_activity := now\<rparr>) of
       (self', Pending) \<Rightarrow> (self', Break (Ok ExTimedOut))
     | (self', Ready (Inl e)) \<Rightarrow> (self', Break (Err e))
     | (self', Ready (Inr (Chunk bytes))) \<Rightarrow> forward_chunk si so bytes self'
     | (self', Ready (Inr Eof)) \<Rightarrow> forward_eof so self')"

text \<open>The loop; \<open>now\<close> reads the clock in the given state of the two ends.\<close>

partial_function (option) simplex_exchange ::
  "'i pipe_source \<Rightarrow> 'o pipe_sink \<Rightarrow> ('i \<Rightarrow> 'o \<Rightarrow> int) \<Rightarrow> ('i, 'o) simplex_pipe
   \<Rightarrow> (('i, 'o) simplex_pipe \<times> (io_error, exchange_status) result) option" where
  "simplex_exchange si so now self =
    (case simplex_turn si so (now (sp_source self) (sp_sink self)) self of
       (self', Continue) \<Rightarrow> simplex_exchange si so now self'
     | (self', Break r) \<Rightarrow> Some (self', r)
     | (self', Waiting) \<Rightarrow> None)"

section \<open>Both directions\<close>

datatype pipe_phase = Both | OnlyLeft | OnlyRight | Ended "(io_error, unit) result"

text \<open>The flags say that a direction is in its final flush.\<close>

record ('i1, 'o1, 'i2, 'o2) duplex_pipe =
  dp_left :: "('i1, 'o1) simplex_pipe"
  dp_right :: "('i2, 'o2) simplex_pipe"
  dp_left_flushing :: bool
  dp_right_flushing :: bool
  dp_phase :: pipe_phase

definition duplex_new ::
  "int \<Rightarrow> simplex_direction \<times> 'i1 \<times> 'o1 \<Rightarrow> simplex_direction \<times> 'i2 \<times> 'o2
   \<Rightarrow> ('i1, 'o1, 'i2, 'o2) duplex_pipe" where
  "duplex_new now l r = (case (l, r) of ((dir1, source1, sink1), (dir2, source2, sink2)) \<Rightarrow>
     \<lparr>dp_left = simplex_new now source1 sink1 dir1, dp_right = simplex_new now source2 sink2 dir2,
      dp_left_flushing = False, dp_right_flushing = False, dp_phase = Both\<rparr>)"

text \<open>\<open>DuplexPipe::exchange\<close> after \<open>exchange_once\<close> timed out at \<open>now\<close>: the pipe ends when both
  directions were idle, otherwise both loops start again.\<close>

definition on_timed_out ::
  "int \<Rightarrow> int \<Rightarrow> ('i1, 'o1, 'i2, 'o2) duplex_pipe \<Rightarrow> ('i1, 'o1, 'i2, 'o2) duplex_pipe" where
  "on_timed_out timeout now self =
    (let expiration_deadline = now - timeout
     in if sp_last_activity (dp_left self) < expiration_deadline
           \<and> sp_last_activity (dp_right self) < expiration_deadline
        then self\<lparr>dp_phase := Ended (Err (IoError TimedOut []))\<rparr>
        else self\<lparr>dp_left_flushing := False, dp_right_flushing := False\<rparr>)"

text \<open>\<open>exchange_once\<close>: the end of one direction's loop while the other one runs (\<open>only\<close> is the phase
  in which the other direction runs alone), and when it runs alone.\<close>

definition on_first_end ::
  "int \<Rightarrow> int \<Rightarrow> pipe_phase \<Rightarrow> (io_error, exchange_status) result
   \<Rightarrow> ('i1, 'o1, 'i2, 'o2) duplex_pipe \<Rightarrow> ('i1, 'o1, 'i2, 'o2) duplex_pipe" where
  "on_first_end timeout now only r self =
    (case r of
       Inr ExFinished \<Rightarrow> self\<lparr>dp_phase := only\<rparr>
     | Inr ExTimedOut \<Rightarrow> on_timed_out timeout now self
     | Inl e \<Rightarrow> self\<lparr>dp_phase := Ended (Err e)\<rparr>)"

definition on_second_end ::
  "(io_error, exchange_status) result \<Rightarrow> ('i1, 'o1, 'i2, 'o2) duplex_pipe \<Rightarrow> ('i1, 'o1, 'i2, 'o2) duplex_pipe" where
  "on_second_end r self =
    self\<lparr>dp_phase := Ended (case r of
       Inr ExFinished \<Rightarrow> Ok ()
     | Inr ExTimedOut \<Rightarrow> Err (IoError TimedOut [])
     | Inl e \<Rightarrow> Err e)\<rparr>"

definition on_end ::
  "int \<Rightarrow> int \<Rightarrow> pipe_phase \<Rightarrow> turn_result \<Rightarrow> ('i1, 'o1, 'i2, 'o2) duplex_pipe
   \<Rightarrow> ('i1, 'o1, 'i2, 'o2) duplex_pipe" where
  "on_end timeout now only r self =
    (case r of
       Break result \<Rightarrow> if dp_phase self = Both then on_first_end timeout now only result self
                       else on_second_end result self
     | _ \<Rightarrow> self)"

text \<open>A turn of a direction begins at \<open>start\<close>, its await ends at \<open>now\<close>.\<close>

definition left_turn ::
  "'i1 pipe_source \<Rightarrow> 'o1 pipe_sink \<Rightarrow> int \<Rightarrow> int \<Rightarrow> int \<Rightarrow> ('i1, 'o1, 'i2, 'o2) duplex_pipe
   \<Rightarrow> ('i1, 'o1, 'i2, 'o2) duplex_pipe" where
  "left_turn si so timeout start now self =
    (case (if dp_left_flushing self then finish_eof so (dp_left self) else simplex_turn si so start (dp_left self)) of
       (left, r) \<Rightarrow>
         on_end timeout now OnlyRight r (self\<lparr>dp_left := left, dp_left_flushing := (r = Waiting)\<rparr>))"

definition right_turn ::
  "'i2 pipe_source \<Rightarrow> 'o2 pipe_sink \<Rightarrow> int \<Rightarrow> int \<Rightarrow> int \<Rightarrow> ('i1, 'o1, 'i2, 'o2) duplex_pipe
   \<Rightarrow> ('i1, 'o1, 'i2, 'o2) duplex_pipe" where
  "right_turn si so timeout start now self =
    (case (if dp_right_flushing self then finish_eof so (dp_right self) else simplex_turn si so start (dp_right self)) of
       (right, r) \<Rightarrow>
         on_end timeout now OnlyLeft r (self\<lparr>dp_right := right, dp_right_flushing := (r = Waiting)\<rparr>))"

text \<open>The two loops run in one task and interleave at their awaits; the state changes of a turn
  happen after its last await.\<close>

inductive duplex_step ::
  "'i1 pipe_source \<Rightarrow> 'o1 pipe_sink \<Rightarrow> 'i2 pipe_source \<Rightarrow> 'o2 pipe_sink \<Rightarrow> int
   \<Rightarrow> ('i1, 'o1, 'i2, 'o2) duplex_pipe \<Rightarrow> ('i1, 'o1, 'i2, 'o2) duplex_pipe \<Rightarrow> bool"
  for si1 so1 si2 so2 timeout where
  left: "dp_phase self \<in> {Both, OnlyLeft}
    \<Longrightarrow> duplex_step si1 so1 si2 so2 timeout self (left_turn si1 so1 timeout start now self)"
| right: "dp_phase self \<in> {Both, OnlyRight}
    \<Longrightarrow> duplex_step si1 so1 si2 so2 timeout self (right_turn si2 so2 timeout start now self)"

section \<open>The contracts\<close>

text \<open>A source hands out its bytes in order: \<open>delivered\<close> are the bytes read so far, \<open>acked\<close> the
  number of them that were acknowledged with \<open>consume\<close>.\<close>

locale lawful_source =
  fixes si :: "'i pipe_source" and delivered :: "'i \<Rightarrow> bytes" and acked :: "'i \<Rightarrow> nat"
  assumes read_chunk: "src_read si i = (i', Ready (Inr (Chunk b))) \<Longrightarrow> delivered i' = delivered i @ b"
    and read_other: "src_read si i = (i', r) \<Longrightarrow> (\<And>b. r \<noteq> Ready (Inr (Chunk b))) \<Longrightarrow> delivered i' = delivered i"
    and read_acked: "src_read si i = (i', r) \<Longrightarrow> acked i' = acked i"
    and consume_delivered: "src_consume si i n = (i', c) \<Longrightarrow> delivered i' = delivered i"
    and consume_acked: "src_consume si i n = (i', Inr u) \<Longrightarrow> acked i' = acked i + n"

text \<open>A sink takes a prefix of every chunk and returns the rest; \<open>accepted\<close> are the bytes taken so
  far, \<open>closed\<close> that \<open>eof\<close> was called.\<close>

locale lawful_sink =
  fixes so :: "'o pipe_sink" and accepted :: "'o \<Rightarrow> bytes" and closed :: "'o \<Rightarrow> bool"
  assumes write_prefix: "snk_write so x data = (x', Inr rest)
      \<Longrightarrow> \<exists>sent. data = sent @ rest \<and> accepted x' = accepted x @ sent"
    and write_error: "snk_write so x data = (x', Inl e)
      \<Longrightarrow> \<exists>sent rest. data = sent @ rest \<and> accepted x' = accepted x @ sent"
    and eof_accepted: "snk_eof so x = (x', r) \<Longrightarrow> accepted x' = accepted x"
    and eof_closed: "snk_eof so x = (x', Inr u) \<Longrightarrow> closed x'"
    and wait_accepted: "snk_wait_writable so x = (x', p) \<Longrightarrow> accepted x' = accepted x"
    and flush_accepted: "snk_flush so x = (x', p) \<Longrightarrow> accepted x' = accepted x"
    and flush_closed: "snk_flush so x = (x', p) \<Longrightarrow> closed x' = closed x"

text \<open>\<open>write_all\<close> returns without an error only when the sink took everything.\<close>

context lawful_sink
begin

lemma write_all_accepted:
  assumes "write_all so x data = Some (x', Inr u)"
  shows "accepted x' = accepted x @ data"
proof -
  have "so = so \<longrightarrow> snd (x', Ok u :: (io_error, unit) result) = Inr u
      \<longrightarrow> accepted (fst (x', Ok u :: (io_error, unit) result)) = accepted x @ data"
  proof (rule write_all.raw_induct [OF _ assms,
        where P = "\<lambda>ops x data y. ops = so \<longrightarrow> snd y = Inr u \<longrightarrow> accepted (fst y) = accepted x @ data"])
    fix f ops x data y
    assume IH: "\<And>ops x data y. f ops x data = Some y
        \<Longrightarrow> ops = so \<longrightarrow> snd y = Inr u \<longrightarrow> accepted (fst y) = accepted x @ data"
      and body: "(if data = [] then Some (x, Ok ())
         else case snk_write ops x data of (sink', Inl e) \<Rightarrow> Some (sink', Err e)
           | (sink', Inr rest) \<Rightarrow>
             if rest = [] then Some (sink', Ok ())
             else (case snk_wait_writable ops sink' of (sink'', Pending) \<Rightarrow> None
                   | (sink'', Ready (Inl e)) \<Rightarrow> Some (sink'', Err e)
                   | (sink'', Ready (Inr _)) \<Rightarrow> f ops sink'' rest)) = Some y"
    show "ops = so \<longrightarrow> snd y = Inr u \<longrightarrow> accepted (fst y) = accepted x @ data"
      using body
      by (auto split: if_splits prod.splits sum.splits poll.splits dest!: write_prefix
          dest!: wait_accepted IH)
  qed
  then show ?thesis
    by simp
qed

end

section \<open>Conservation\<close>

definition pending_bytes :: "('i, 'o) simplex_pipe \<Rightarrow> bytes" where
  "pending_bytes self = (case sp_pending_chunk self of Some (Chunk b) \<Rightarrow> b | _ \<Rightarrow> [])"

text \<open>What was read is what was sent, then what is pending; only sent bytes are acknowledged to the
  source and counted, and they are counted for the pipe's own direction.\<close>

definition accounted :: "('i \<Rightarrow> nat) \<Rightarrow> ('o \<Rightarrow> bytes) \<Rightarrow> ('i, 'o) simplex_pipe \<Rightarrow> bool" where
  "accounted acked accepted self \<longleftrightarrow>
    acked (sp_source self) = length (accepted (sp_sink self)) \<and>
    sum_list (map snd (sp_updates self)) = length (accepted (sp_sink self)) \<and>
    list_all (\<lambda>u. fst u = sp_direction self) (sp_updates self)"

definition conserved ::
  "('i \<Rightarrow> bytes) \<Rightarrow> ('i \<Rightarrow> nat) \<Rightarrow> ('o \<Rightarrow> bytes) \<Rightarrow> ('i, 'o) simplex_pipe \<Rightarrow> bool" where
  "conserved delivered acked accepted self \<longleftrightarrow>
    delivered (sp_source self) = accepted (sp_sink self) @ pending_bytes self \<and>
    sp_pending_chunk self \<noteq> Some Eof \<and> accounted acked accepted self"

definition all_sent ::
  "('i \<Rightarrow> bytes) \<Rightarrow> ('o \<Rightarrow> bytes) \<Rightarrow> ('o \<Rightarrow> bool) \<Rightarrow> ('i, 'o) simplex_pipe \<Rightarrow> bool" where
  "all_sent delivered accepted closed self \<longleftrightarrow>
    accepted (sp_sink self) = delivered (sp_source self) \<and> sp_pending_chunk self = None \<and>
    closed (sp_sink self)"

definition in_order :: "('i \<Rightarrow> bytes) \<Rightarrow> ('o \<Rightarrow> bytes) \<Rightarrow> ('i, 'o) simplex_pipe \<Rightarrow> bool" where
  "in_order delivered accepted self \<longleftrightarrow>
    (\<exists>lost. delivered (sp_source self) = accepted (sp_sink self) @ lost)"

fun turn_post ::
  "('i \<Rightarrow> bytes) \<Rightarrow> ('i \<Rightarrow> nat) \<Rightarrow> ('o \<Rightarrow> bytes) \<Rightarrow> ('o \<Rightarrow> bool) \<Rightarrow> ('i, 'o) simplex_pipe \<times> turn_result \<Rightarrow> bool" where
  "turn_post delivered acked accepted closed (self, Break (Inl e)) = in_order delivered accepted self"
| "turn_post delivered acked accepted closed (self, Break (Inr ExFinished)) =
    (conserved delivered acked accepted self \<and> all_sent delivered accepted closed self)"
| "turn_post delivered acked accepted closed (self, Waiting) =
    (conserved delivered acked accepted self \<and> all_sent delivered accepted closed self)"
| "turn_post delivered acked accepted closed (self, _) = conserved delivered acked accepted self"

locale pipe_ends = lawful_source si delivered acked + lawful_sink so accepted closed
  for si :: "'i pipe_source" and delivered acked and so :: "'o pipe_sink" and accepted closed
begin

lemma conserved_in_order: "conserved delivered acked accepted self \<Longrightarrow> in_order delivered accepted self"
  by (auto simp: conserved_def in_order_def)

text \<open>After the awaited future: the chunk to send is not pending any more.\<close>

lemma next_data_post:
  assumes c: "conserved delivered acked accepted self" and n: "next_data si so self = (self', r)"
  shows "accounted acked accepted self' \<and>
    (case r of
       Ready (Inr (Chunk b)) \<Rightarrow> sp_pending_chunk self' = None \<and>
         delivered (sp_source self') = accepted (sp_sink self') @ b
     | Ready (Inr Eof) \<Rightarrow> conserved delivered acked accepted self' \<and> sp_pending_chunk self' = None
     | _ \<Rightarrow> conserved delivered acked accepted self')"
proof (cases "snk_flush so (sp_sink self)")
  case (Pair sink p)
  note acc = flush_accepted [OF Pair]
  show ?thesis
  proof (cases "sp_pending_chunk self")
    case None
    obtain source q where "src_read si (sp_source self) = (source, q)"
      by (cases "src_read si (sp_source self)")
    note rd = this read_acked [OF this] read_other [OF this]
    have base: "delivered (sp_source self) = accepted sink" "acked (sp_source self) = length (accepted sink)"
        "sum_list (map snd (sp_updates self)) = length (accepted sink)"
        "list_all (\<lambda>u. fst u = sp_direction self) (sp_updates self)"
      using c acc None by (simp_all add: conserved_def accounted_def pending_bytes_def)
    show ?thesis
    proof (cases "\<exists>u. p = Ready (Inr u)")
      case True
      then have "self' = self\<lparr>sp_sink := sink, sp_source := source\<rparr>" "r = q"
        using n rd(1) Pair None by (auto simp: next_data_def)
      then show ?thesis
        using base rd(2,3) None read_chunk [of "sp_source self" source] rd(1)
        by (auto simp: conserved_def accounted_def pending_bytes_def
            split: poll.split sum.split pipe_data.split)
    next
      case False
      then show ?thesis
        using n base Pair None
        by (cases p) (auto simp: next_data_def conserved_def accounted_def pending_bytes_def split: sum.splits)
    qed
  next
    case (Some chunk)
    obtain sink' q where "snk_wait_writable so sink = (sink', q)"
      by (cases "snk_wait_writable so sink")
    note this wait_accepted [OF this]
    then show ?thesis
      using c n acc Pair Some
      by (cases p; cases q; cases chunk)
        (auto simp: next_data_def conserved_def accounted_def pending_bytes_def split: sum.splits)
  qed
qed

lemma finish_eof_post:
  assumes "conserved delivered acked accepted self" "all_sent delivered accepted closed self"
  shows "turn_post delivered acked accepted closed (finish_eof so self)"
  using assms
  by (auto simp: finish_eof_def conserved_def all_sent_def accounted_def in_order_def pending_bytes_def
      dest: flush_accepted flush_closed split: prod.splits poll.splits sum.splits)

lemma forward_eof_post:
  assumes "conserved delivered acked accepted self" "sp_pending_chunk self = None"
  shows "turn_post delivered acked accepted closed (forward_eof so self)"
proof (cases "snk_eof so (sp_sink self)")
  case (Pair sink r)
  have "accepted sink = accepted (sp_sink self)"
    using Pair by (rule eof_accepted)
  then have c: "conserved delivered acked accepted (self\<lparr>sp_sink := sink\<rparr>)"
    using assms by (simp add: conserved_def accounted_def pending_bytes_def)
  show ?thesis
  proof (cases r)
    case (Inl e)
    then show ?thesis
      using Pair conserved_in_order [OF c] by (simp add: forward_eof_def)
  next
    case (Inr u)
    have "closed sink"
      using Pair Inr by (auto intro: eof_closed)
    then have "all_sent delivered accepted closed (self\<lparr>sp_sink := sink\<rparr>)"
      using c assms by (simp add: all_sent_def conserved_def pending_bytes_def)
    with c show ?thesis
      using Pair Inr by (simp add: forward_eof_def finish_eof_post)
  qed
qed

lemma forward_chunk_post:
  assumes "accounted acked accepted self" "sp_pending_chunk self = None"
    and "delivered (sp_source self) = accepted (sp_sink self) @ b"
  shows "turn_post delivered acked accepted closed (forward_chunk si so b self)"
  using assms
  by (auto simp: forward_chunk_def Let_def conserved_def accounted_def in_order_def pending_bytes_def
      dest!: write_prefix write_error dest: consume_delivered consume_acked
      split: prod.splits sum.splits)

lemma simplex_turn_post:
  assumes "conserved delivered acked accepted self"
  shows "turn_post delivered acked accepted closed (simplex_turn si so now self)"
proof -
  let ?self = "self\<lparr>sp_last_activity := now\<rparr>"
  have c: "conserved delivered acked accepted ?self"
    using assms by (simp add: conserved_def accounted_def pending_bytes_def)
  obtain self' r where n: "next_data si so ?self = (self', r)"
    by (cases "next_data si so ?self")
  show ?thesis
    using next_data_post [OF c n] n
    by (auto simp: simplex_turn_def forward_chunk_post forward_eof_post conserved_in_order
        split: poll.splits sum.splits pipe_data.splits)
qed

end

section \<open>Conservation in both directions\<close>

text \<open>A direction that runs (\<open>flushing\<close>: that is in its final flush), and the pipe in each phase; a
  parameter is the tuple of the observers of one direction.\<close>

type_synonym ('i, 'o) observers = "('i \<Rightarrow> bytes) \<times> ('i \<Rightarrow> nat) \<times> ('o \<Rightarrow> bytes) \<times> ('o \<Rightarrow> bool)"

fun running :: "('i, 'o) observers \<Rightarrow> bool \<Rightarrow> ('i, 'o) simplex_pipe \<Rightarrow> bool" where
  "running (delivered, acked, accepted, closed) flushing self \<longleftrightarrow>
    conserved delivered acked accepted self \<and> (flushing \<longrightarrow> all_sent delivered accepted closed self)"

fun ordered :: "('i, 'o) observers \<Rightarrow> ('i, 'o) simplex_pipe \<Rightarrow> bool" where
  "ordered (delivered, acked, accepted, closed) self \<longleftrightarrow> in_order delivered accepted self"

definition duplex_inv ::
  "('i1, 'o1) observers \<Rightarrow> ('i2, 'o2) observers \<Rightarrow> ('i1, 'o1, 'i2, 'o2) duplex_pipe \<Rightarrow> bool" where
  "duplex_inv v1 v2 self \<longleftrightarrow>
    (case dp_phase self of
       Both \<Rightarrow> running v1 (dp_left_flushing self) (dp_left self) \<and> running v2 (dp_right_flushing self) (dp_right self)
     | OnlyLeft \<Rightarrow> running v1 (dp_left_flushing self) (dp_left self) \<and> running v2 True (dp_right self)
     | OnlyRight \<Rightarrow> running v1 True (dp_left self) \<and> running v2 (dp_right_flushing self) (dp_right self)
     | Ended (Inr _) \<Rightarrow> running v1 True (dp_left self) \<and> running v2 True (dp_right self)
     | Ended (Inl _) \<Rightarrow> ordered v1 (dp_left self) \<and> ordered v2 (dp_right self))"

lemma running_ordered: "running v f self \<Longrightarrow> ordered v self"
  by (cases v) (auto simp: conserved_def in_order_def)

lemma running_mono: "running v True self \<Longrightarrow> running v f self"
  by (cases v) auto

lemma running_weaken: "running v f self \<Longrightarrow> running v False self"
  by (cases v) auto

lemma turn_post_running:
  assumes "turn_post delivered acked accepted closed (self, r)"
  shows "r = Break (Inr ExFinished) \<or> r = Waiting \<Longrightarrow> running (delivered, acked, accepted, closed) True self"
    and "\<nexists>e. r = Break (Inl e) \<Longrightarrow> running (delivered, acked, accepted, closed) (r = Waiting) self"
    and "ordered (delivered, acked, accepted, closed) self"
proof -
  have 1: "in_order delivered accepted self" if "conserved delivered acked accepted self"
    using running_ordered [of "(delivered, acked, accepted, closed)" False self] that by simp
  show "r = Break (Inr ExFinished) \<or> r = Waiting \<Longrightarrow> running (delivered, acked, accepted, closed) True self"
    using assms by auto
  show "\<nexists>e. r = Break (Inl e) \<Longrightarrow> running (delivered, acked, accepted, closed) (r = Waiting) self"
    using assms by (cases "(delivered, acked, accepted, closed, self, r)" rule: turn_post.cases) auto
  show "ordered (delivered, acked, accepted, closed) self"
    using assms 1 by (cases "(delivered, acked, accepted, closed, self, r)" rule: turn_post.cases) auto
qed

context pipe_ends
begin

lemma running_turn:
  assumes "running (delivered, acked, accepted, closed) flushing self"
  shows "turn_post delivered acked accepted closed
    (if flushing then finish_eof so self else simplex_turn si so start self)"
  using assms by (simp add: finish_eof_post simplex_turn_post)

end

declare running.simps [simp del] ordered.simps [simp del]

lemmas end_defs = on_end_def on_first_end_def on_second_end_def on_timed_out_def Let_def

lemma left_turn_inv:
  assumes "pipe_ends si d1 k1 so a1 c1" "dp_phase self \<in> {Both, OnlyLeft}"
    and inv: "duplex_inv (d1, k1, a1, c1) v2 self"
  shows "duplex_inv (d1, k1, a1, c1) v2 (left_turn si so timeout start now self)"
proof -
  obtain l r where t: "(if dp_left_flushing self then finish_eof so (dp_left self)
      else simplex_turn si so start (dp_left self)) = (l, r)"
    by fastforce
  have "running (d1, k1, a1, c1) (dp_left_flushing self) (dp_left self)"
    using assms(2) inv by (auto simp: duplex_inv_def)
  from pipe_ends.running_turn [OF assms(1) this, of start]
  have "turn_post d1 k1 a1 c1 (l, r)"
    by (simp only: t)
  note post = turn_post_running [OF this]
  have other: "running v2 (dp_right_flushing self) (dp_right self)" "ordered v2 (dp_right self)"
      "running v2 False (dp_right self)" "dp_phase self = OnlyLeft \<Longrightarrow> running v2 True (dp_right self)"
    using assms(2) inv by (auto simp: duplex_inv_def dest: running_mono running_weaken running_ordered)
  show ?thesis
    using assms(2) post other unfolding left_turn_def t
    by (cases r) (auto simp: duplex_inv_def end_defs split: sum.splits exchange_status.splits)
qed

lemma right_turn_inv:
  assumes "pipe_ends si d2 k2 so a2 c2" "dp_phase self \<in> {Both, OnlyRight}"
    and inv: "duplex_inv v1 (d2, k2, a2, c2) self"
  shows "duplex_inv v1 (d2, k2, a2, c2) (right_turn si so timeout start now self)"
proof -
  obtain l r where t: "(if dp_right_flushing self then finish_eof so (dp_right self)
      else simplex_turn si so start (dp_right self)) = (l, r)"
    by fastforce
  have "running (d2, k2, a2, c2) (dp_right_flushing self) (dp_right self)"
    using assms(2) inv by (auto simp: duplex_inv_def)
  from pipe_ends.running_turn [OF assms(1) this, of start]
  have "turn_post d2 k2 a2 c2 (l, r)"
    by (simp only: t)
  note post = turn_post_running [OF this]
  have other: "running v1 (dp_left_flushing self) (dp_left self)" "ordered v1 (dp_left self)"
      "running v1 False (dp_left self)" "dp_phase self = OnlyRight \<Longrightarrow> running v1 True (dp_left self)"
    using assms(2) inv by (auto simp: duplex_inv_def dest: running_mono running_weaken running_ordered)
  show ?thesis
    using assms(2) post other unfolding right_turn_def t
    by (cases r) (auto simp: duplex_inv_def end_defs split: sum.splits exchange_status.splits)
qed

lemma duplex_inv_reachable:
  assumes "pipe_ends si1 d1 k1 so1 a1 c1" "pipe_ends si2 d2 k2 so2 a2 c2"
    and "(duplex_step si1 so1 si2 so2 timeout)\<^sup>*\<^sup>* self self'"
    and "duplex_inv (d1, k1, a1, c1) (d2, k2, a2, c2) self"
  shows "duplex_inv (d1, k1, a1, c1) (d2, k2, a2, c2) self'"
  using assms(3,4)
  by (induction rule: rtranclp_induct)
    (auto elim!: duplex_step.cases intro: left_turn_inv [OF assms(1)] right_turn_inv [OF assms(2)])

lemma duplex_inv_new:
  assumes "d1 i1 = []" "k1 i1 = 0" "a1 o1 = []" "d2 i2 = []" "k2 i2 = 0" "a2 o2 = []"
  shows "duplex_inv (d1, k1, a1, c1) (d2, k2, a2, c2) (duplex_new now (dir1, i1, o1) (dir2, i2, o2))"
  using assms
  by (simp add: duplex_inv_def duplex_new_def simplex_new_def running.simps conserved_def accounted_def
      pending_bytes_def)

lemma duplex_inv_ordered:
  "duplex_inv v1 v2 self \<Longrightarrow> ordered v1 (dp_left self) \<and> ordered v2 (dp_right self)"
  by (auto simp: duplex_inv_def dest: running_ordered split: pipe_phase.splits sum.splits)

lemma duplex_inv_running:
  "duplex_inv v1 v2 self \<Longrightarrow> \<nexists>e. dp_phase self = Ended (Inl e)
    \<Longrightarrow> running v1 False (dp_left self) \<and> running v2 False (dp_right self)"
  by (auto simp: duplex_inv_def dest: running_weaken split: pipe_phase.splits sum.splits)

lemma duplex_inv_finished:
  "duplex_inv v1 v2 self \<Longrightarrow> dp_phase self = Ended (Inr ())
    \<Longrightarrow> running v1 True (dp_left self) \<and> running v2 True (dp_right self)"
  by (simp add: duplex_inv_def)

end
