(* ===== verification/Datagram_Codec.thy ===== *)
theory Datagram_Codec
  imports Net_Utils Pipe
begin

text \<open>
  The interface between the datagram multiplexers and the byte streams that carry them:
  \<^verbatim>\<open>lib/src/http_datagram_codec.rs\<close> (the decoder trait), the datagram types of
  \<^verbatim>\<open>lib/src/downstream.rs\<close> and \<^verbatim>\<open>lib/src/forwarder.rs\<close>, the reader \<open>DatagramDecoder\<close> of
  \<^verbatim>\<open>lib/src/http_downstream.rs\<close> and the forwarding loop of \<^verbatim>\<open>lib/src/datagram_pipe.rs\<close>. The
  locale \<open>chunk_decoder\<close> is the contract of the trait; it gives the independence of the reader
  from the way the stream is cut into chunks.
\<close>

section \<open>Datagrams and the decoder trait\<close>

datatype 'd decode_result = WantMore | Complete 'd bytes

record udp_meta =
  um_source :: socket_addr
  um_destination :: socket_addr

record client_udp_meta =
  cm_source :: socket_addr
  cm_destination :: socket_addr
  cm_app_name :: "string option"

record client_udp_datagram =
  cu_meta :: client_udp_meta
  cu_payload :: bytes

record udp_datagram =
  ud_meta :: udp_meta
  ud_payload :: bytes

definition reversed :: "udp_meta \<Rightarrow> udp_meta" where
  "reversed m = \<lparr>um_source = um_destination m, um_destination = um_source m\<rparr>"

definition meta_from :: "client_udp_meta \<Rightarrow> udp_meta" where
  "meta_from x = \<lparr>um_source = cm_source x, um_destination = cm_destination x\<rparr>"

lemma reversed_reversed [simp]: "reversed (reversed m) = m"
  by (simp add: reversed_def)

section \<open>The stream reader\<close>

text \<open>The source is the sequence of its read results; \<open>consume\<close> is its flow-control
  acknowledgement. An exhausted sequence is a read that has not finished.\<close>

record 'st datagram_decoder =
  dd_decoder :: 'st
  dd_pending_bytes :: "bytes list"
  dd_source :: "(io_error, pipe_data) result list"

type_synonym ('st, 'd) decode_fun = "'st \<Rightarrow> bytes \<Rightarrow> ('st \<times> 'd decode_result) outcome"

fun read_datagram ::
  "('st, 'd) decode_fun \<Rightarrow> (nat \<Rightarrow> (io_error, unit) result) \<Rightarrow> 'st
   \<Rightarrow> bytes list \<Rightarrow> (io_error, pipe_data) result list
   \<Rightarrow> ('st datagram_decoder \<times> (io_error, 'd) result poll) outcome" where
  "read_datagram decode consume dec (chunk # pending) source =
     obind (decode dec chunk) (\<lambda>(dec', r).
       case r of
         WantMore \<Rightarrow> read_datagram decode consume dec' pending source
       | Complete d tail \<Rightarrow>
           Ret (\<lparr>dd_decoder = dec',
                 dd_pending_bytes = (if tail \<noteq> [] then tail # pending else pending),
                 dd_source = source\<rparr>, Ready (Ok d)))"
| "read_datagram decode consume dec [] [] =
     Ret (\<lparr>dd_decoder = dec, dd_pending_bytes = [], dd_source = []\<rparr>, Pending)"
| "read_datagram decode consume dec [] (Inl e # source) =
     Ret (\<lparr>dd_decoder = dec, dd_pending_bytes = [], dd_source = source\<rparr>, Ready (Err e))"
| "read_datagram decode consume dec [] (Inr Eof # source) =
     Ret (\<lparr>dd_decoder = dec, dd_pending_bytes = [], dd_source = source\<rparr>,
          Ready (Err (IoError UnexpectedEof [])))"
| "read_datagram decode consume dec [] (Inr (Chunk chunk) # source) =
     (case consume (length chunk) of
        Inl e \<Rightarrow> Ret (\<lparr>dd_decoder = dec, dd_pending_bytes = [], dd_source = source\<rparr>, Ready (Err e))
      | Inr _ \<Rightarrow>
          obind (decode dec chunk) (\<lambda>(dec', r).
            case r of
              WantMore \<Rightarrow> read_datagram decode consume dec' [] source
            | Complete d tail \<Rightarrow>
                Ret (\<lparr>dd_decoder = dec', dd_pending_bytes = (if tail \<noteq> [] then [tail] else []),
                      dd_source = source\<rparr>, Ready (Ok d))))"

text \<open>\<open>DatagramDecoder::read\<close> on the record, and the results of \<open>n\<close> successive calls.\<close>

definition read :: "('st, 'd) decode_fun \<Rightarrow> (nat \<Rightarrow> (io_error, unit) result) \<Rightarrow> 'st datagram_decoder
   \<Rightarrow> ('st datagram_decoder \<times> (io_error, 'd) result poll) outcome" where
  "read decode consume s =
     read_datagram decode consume (dd_decoder s) (dd_pending_bytes s) (dd_source s)"

fun reads :: "('st, 'd) decode_fun \<Rightarrow> (nat \<Rightarrow> (io_error, unit) result) \<Rightarrow> nat
   \<Rightarrow> 'st datagram_decoder \<Rightarrow> (io_error, 'd) result poll list outcome" where
  "reads decode consume 0 s = Ret []"
| "reads decode consume (Suc n) s =
     obind (read decode consume s) (\<lambda>(s', r).
       obind (reads decode consume n s') (\<lambda>rs. Ret (r # rs)))"

section \<open>The forwarding loop\<close>

text \<open>\<open>GenericSimplexPipe::exchange\<close> over the results of the source's reads: every datagram is
  written to the sink, and counted only when it was sent. The loop ends with the first error; an
  exhausted sequence is a read in progress.\<close>

datatype send_status = Sent | Dropped

fun exchange :: "('sink \<Rightarrow> 'd \<Rightarrow> 'sink \<times> (io_error, send_status) result) \<Rightarrow> ('d \<Rightarrow> nat)
   \<Rightarrow> (io_error, 'd) result list \<Rightarrow> 'sink \<Rightarrow> nat
   \<Rightarrow> 'sink \<times> nat \<times> io_error option" where
  "exchange write len [] sink metric = (sink, metric, None)"
| "exchange write len (Inl e # source) sink metric = (sink, metric, Some e)"
| "exchange write len (Inr datagram # source) sink metric =
     (case write sink datagram of
        (sink', Inl e) \<Rightarrow> (sink', metric, Some e)
      | (sink', Inr Sent) \<Rightarrow> exchange write len source sink' (metric + len datagram)
      | (sink', Inr Dropped) \<Rightarrow> exchange write len source sink' metric)"

section \<open>The contract of a decoder\<close>

text \<open>\<open>decodes dec st data ds st'\<close>: feeding \<open>data\<close>, and every unprocessed tail again, yields the
  datagrams \<open>ds\<close> and leaves the decoder in \<open>st'\<close>.\<close>

inductive decodes :: "('st, 'd) decode_fun \<Rightarrow> 'st \<Rightarrow> bytes \<Rightarrow> 'd list \<Rightarrow> 'st \<Rightarrow> bool"
  for decode where
  want_more: "decode st data = Ret (st', WantMore) \<Longrightarrow> decodes decode st data [] st'"
| complete: "decode st data = Ret (st1, Complete d tail) \<Longrightarrow> decodes decode st1 tail ds st'
    \<Longrightarrow> decodes decode st data (d # ds) st'"

inductive_cases decodes_NilE: "decodes decode st data [] st'"
inductive_cases decodes_ConsE: "decodes decode st data (d # ds) st'"

lemma decodes_cong:
  assumes "decode st data = decode st1 data1" and "decodes decode st1 data1 ds st'"
  shows "decodes decode st data ds st'"
  using assms(2,1) by (cases rule: decodes.cases) (simp_all add: decodes.intros)

locale chunk_decoder =
  fixes decode :: "('st, 'd) decode_fun"
    and admissible :: "'st \<Rightarrow> bytes \<Rightarrow> bool"
  assumes admissible_prefix: "admissible st (xs @ ys) \<Longrightarrow> admissible st xs"
    and decode_total: "admissible st data \<Longrightarrow> \<exists>st' r. decode st data = Ret (st', r)"
    and decode_nil: "admissible st [] \<Longrightarrow> decode st [] = Ret (st, WantMore)"
    and decode_more: "admissible st (xs @ ys) \<Longrightarrow> decode st xs = Ret (st', WantMore)
      \<Longrightarrow> decode st (xs @ ys) = decode st' ys \<and> admissible st' ys"
    and decode_complete: "admissible st (xs @ ys) \<Longrightarrow> decode st xs = Ret (st', Complete d tail)
      \<Longrightarrow> decode st (xs @ ys) = Ret (st', Complete d (tail @ ys)) \<and> admissible st' (tail @ ys)"
begin

lemma decodes_nil: "admissible st [] \<Longrightarrow> decodes decode st [] [] st"
  by (rule want_more) (rule decode_nil)

lemma decodes_deterministic:
  "decodes decode st data ds st' \<Longrightarrow> decodes decode st data es st'' \<Longrightarrow> ds = es \<and> st' = st''"
proof (induction arbitrary: es st'' rule: decodes.induct)
  case (want_more st data st')
  from want_more.prems want_more.hyps show ?case by (cases rule: decodes.cases) auto
next
  case (complete st data st1 d tail ds st')
  from complete.prems complete.hyps(1) obtain es' where "es = d # es'" "decodes decode st1 tail es' st''"
    by (cases rule: decodes.cases) auto
  with complete.IH show ?case by blast
qed

lemma decodes_append:
  "decodes decode st xs ds st1 \<Longrightarrow> admissible st (xs @ ys) \<Longrightarrow> decodes decode st1 ys es st'
   \<Longrightarrow> decodes decode st (xs @ ys) (ds @ es) st'"
proof (induction rule: decodes.induct)
  case (want_more st data st1)
  then have "decode st (data @ ys) = decode st1 ys"
    using decode_more by blast
  with want_more.prems(2) show ?case
    by (simp add: decodes_cong)
next
  case (complete st data st1 d tail ds st')
  from complete decode_complete [of st data ys st1 d tail]
  have "decode st (data @ ys) = Ret (st1, Complete d (tail @ ys))" "admissible st1 (tail @ ys)"
    by blast+
  with complete show ?case by (auto intro: decodes.complete)
qed

lemma decodes_admissible:
  "decodes decode st xs ds st1 \<Longrightarrow> admissible st (xs @ ys) \<Longrightarrow> admissible st1 ys"
proof (induction rule: decodes.induct)
  case (want_more st data st')
  then show ?case using decode_more by blast
next
  case (complete st data st1 d tail ds st')
  then show ?case using decode_complete by blast
qed

lemma decodes_step:
  assumes "admissible st (xs @ ys)" and "decode st xs = Ret (st1, WantMore)"
    and "decodes decode st (xs @ ys) ds st'"
  shows "decodes decode st1 ys ds st' \<and> admissible st1 ys"
  using decode_more [OF assms(1,2)] assms(3) decodes_cong by metis

lemma decodes_step_complete:
  assumes "admissible st (xs @ ys)" and "decode st xs = Ret (st1, Complete d tail)"
    and "decodes decode st (xs @ ys) ds st'"
  shows "\<exists>es. ds = d # es \<and> decodes decode st1 (tail @ ys) es st' \<and> admissible st1 (tail @ ys)"
  using assms(3) decode_complete [OF assms(1,2)] by (cases rule: decodes.cases) auto

text \<open>The reader is on the stream \<open>data\<close>: pending chunks followed by chunks still to be read.\<close>

definition on_stream :: "'st datagram_decoder \<Rightarrow> bytes \<Rightarrow> bool" where
  "on_stream s data \<longleftrightarrow> (\<exists>cs. dd_source s = map (\<lambda>c. Inr (Chunk c)) cs
     \<and> data = concat (dd_pending_bytes s @ cs)) \<and> admissible (dd_decoder s) data"

definition next_read :: "'st datagram_decoder \<times> (io_error, 'd) result poll \<Rightarrow> 'd list \<Rightarrow> 'st \<Rightarrow> bool" where
  "next_read sr ds st' = (case ds of
      [] \<Rightarrow> sr = (\<lparr>dd_decoder = st', dd_pending_bytes = [], dd_source = []\<rparr>, Pending)
    | d # es \<Rightarrow> snd sr = Ready (Inr d)
        \<and> (\<exists>data. on_stream (fst sr) data \<and> decodes decode (dd_decoder (fst sr)) data es st'))"

lemma next_read_complete:
  assumes "admissible st (c @ concat (p @ cs))" and "decode st c = Ret (st1, Complete d tail)"
    and "decodes decode st (c @ concat (p @ cs)) ds st'"
  shows "next_read (\<lparr>dd_decoder = st1, dd_pending_bytes = (if tail \<noteq> [] then tail # p else p),
    dd_source = map (\<lambda>c. Inr (Chunk c)) cs\<rparr>, Ready (Inr d)) ds st'"
  using decodes_step_complete [OF assms]
  by (auto simp: next_read_def on_stream_def intro!: exI [of _ "tail @ concat (p @ cs)"] exI [of _ cs])

lemma read_source:
  assumes consume: "\<And>n. consume n = Inr ()"
  shows "admissible st (concat cs) \<Longrightarrow> decodes decode st (concat cs) ds st' \<Longrightarrow>
    \<exists>sr. read_datagram decode consume st [] (map (\<lambda>c. Inr (Chunk c)) cs) = Ret sr \<and> next_read sr ds st'"
proof (induction cs arbitrary: st)
  case Nil
  from Nil.prems decode_nil have "ds = []" "st' = st"
    by (auto elim: decodes.cases)
  then show ?case by (simp add: next_read_def)
next
  case (Cons c cs)
  from Cons.prems have adm: "admissible st (c @ concat cs)"
    and dec: "decodes decode st (c @ concat cs) ds st'" by simp_all
  obtain st1 r where step: "decode st c = Ret (st1, r)"
    using decode_total admissible_prefix adm by blast
  show ?case
  proof (cases r)
    case WantMore
    with Cons.IH decodes_step [OF adm _ dec] step show ?thesis by (auto simp: consume)
  next
    case (Complete d tail)
    with next_read_complete [of st c "[]" cs st1 d tail] adm dec step
    show ?thesis by (simp add: consume)
  qed
qed

lemma read_pending:
  assumes consume: "\<And>n. consume n = Inr ()"
  shows "admissible st (concat (p @ cs)) \<Longrightarrow> decodes decode st (concat (p @ cs)) ds st' \<Longrightarrow>
    \<exists>sr. read_datagram decode consume st p (map (\<lambda>c. Inr (Chunk c)) cs) = Ret sr \<and> next_read sr ds st'"
proof (induction p arbitrary: st)
  case Nil
  then show ?case using read_source [where consume = consume, OF consume] by simp
next
  case (Cons c p)
  from Cons.prems have adm: "admissible st (c @ concat (p @ cs))"
    and dec: "decodes decode st (c @ concat (p @ cs)) ds st'" by simp_all
  obtain st1 r where step: "decode st c = Ret (st1, r)"
    using decode_total admissible_prefix adm by blast
  show ?case
  proof (cases r)
    case WantMore
    with Cons.IH decodes_step [OF adm _ dec] step show ?thesis by auto
  next
    case (Complete d tail)
    with next_read_complete [of st c p cs st1 d tail] adm dec step show ?thesis by simp
  qed
qed

lemma reads_on_stream:
  assumes consume: "\<And>n. consume n = Inr ()"
  shows "on_stream s data \<Longrightarrow> decodes decode (dd_decoder s) data ds st' \<Longrightarrow>
    reads decode consume (length ds + k) s = Ret (map (\<lambda>d. Ready (Inr d)) ds @ replicate k Pending)"
proof (induction ds arbitrary: s data)
  case Nil
  then obtain cs where src: "dd_source s = map (\<lambda>c. Inr (Chunk c)) cs"
    and data: "data = concat (dd_pending_bytes s @ cs)" and adm: "admissible (dd_decoder s) data"
    by (auto simp: on_stream_def)
  have idle: "reads decode consume j \<lparr>dd_decoder = st', dd_pending_bytes = [], dd_source = []\<rparr>
      = Ret (replicate j Pending)" for j
    by (induction j) (simp_all add: read_def)
  from read_pending [where consume = consume, OF consume, of "dd_decoder s" "dd_pending_bytes s" cs "[]" st'] Nil.prems src data adm
  have "read decode consume s = Ret (\<lparr>dd_decoder = st', dd_pending_bytes = [], dd_source = []\<rparr>, Pending)"
    by (auto simp: next_read_def read_def)
  then show ?case by (cases k) (simp_all add: idle)
next
  case (Cons d ds)
  then obtain cs where src: "dd_source s = map (\<lambda>c. Inr (Chunk c)) cs"
    and data: "data = concat (dd_pending_bytes s @ cs)" and adm: "admissible (dd_decoder s) data"
    by (auto simp: on_stream_def)
  from read_pending [where consume = consume, OF consume, of "dd_decoder s" "dd_pending_bytes s" cs "d # ds" st'] Cons.prems src data adm
  obtain s1 data1 where "read decode consume s = Ret (s1, Ready (Inr d))"
    and "on_stream s1 data1" "decodes decode (dd_decoder s1) data1 ds st'"
    by (auto simp: next_read_def read_def)
  with Cons.IH show ?case by simp
qed

text \<open>Reading a stream of chunks gives the datagrams of the concatenation, however it is cut.\<close>

lemma reads_chunks:
  assumes "\<And>n. consume n = Inr ()" and "admissible st (concat cs)"
    and "decodes decode st (concat cs) ds st'"
  shows "reads decode consume (length ds + k)
      \<lparr>dd_decoder = st, dd_pending_bytes = [], dd_source = map (\<lambda>c. Inr (Chunk c)) cs\<rparr>
    = Ret (map (\<lambda>d. Ready (Inr d)) ds @ replicate k Pending)"
  using assms by (intro reads_on_stream [where data = "concat cs" and st' = st'])
    (auto simp: on_stream_def)

end

end
