(* ===== verification/Udp_Codec.thy ===== *)
theory Udp_Codec
  imports Datagram_Codec
begin

text \<open>
  The UDP multiplexer codec, \<^verbatim>\<open>lib/src/http_udp_codec.rs\<close>: the decoder of the client's stream, a
  state machine over the fields of a packet with a buffer for a field that is still incomplete,
  and the encoder of the packets sent to the client. The decoder is an instance of
  \<open>chunk_decoder\<close> on the streams that never make it drop a packet; dropping is defective, and the
  last section shows what it does.
\<close>

section \<open>Layout\<close>

definition UDPPKT_LENGTH_SIZE :: nat where "UDPPKT_LENGTH_SIZE = 4"
definition UDPPKT_ADDR_SIZE :: nat where "UDPPKT_ADDR_SIZE = 16"
definition UDPPKT_PORT_SIZE :: nat where "UDPPKT_PORT_SIZE = 2"
definition UDPPKT_APPLEN_SIZE :: nat where "UDPPKT_APPLEN_SIZE = 1"
definition UDPPKT_IN_FIXED_HEADER_SIZE :: nat where
  "UDPPKT_IN_FIXED_HEADER_SIZE =
    UDPPKT_LENGTH_SIZE + 2 * (UDPPKT_ADDR_SIZE + UDPPKT_PORT_SIZE) + UDPPKT_APPLEN_SIZE"
definition UDPPKT_IN_FIXED_HEADER_NO_LENGTH_SIZE :: nat where
  "UDPPKT_IN_FIXED_HEADER_NO_LENGTH_SIZE = UDPPKT_IN_FIXED_HEADER_SIZE - UDPPKT_LENGTH_SIZE"
definition UDPPKT_OUT_FIXED_HEADER_SIZE :: nat where
  "UDPPKT_OUT_FIXED_HEADER_SIZE = UDPPKT_LENGTH_SIZE + 2 * (UDPPKT_ADDR_SIZE + UDPPKT_PORT_SIZE)"
definition UDPPKT_OUT_FIXED_HEADER_NO_LENGTH_SIZE :: nat where
  "UDPPKT_OUT_FIXED_HEADER_NO_LENGTH_SIZE = UDPPKT_OUT_FIXED_HEADER_SIZE - UDPPKT_LENGTH_SIZE"
definition MAX_UDP_IN_PAYLOAD_SIZE :: nat where
  "MAX_UDP_IN_PAYLOAD_SIZE = MAX_UDP_PAYLOAD_SIZE - UDPPKT_IN_FIXED_HEADER_NO_LENGTH_SIZE"

lemma udppkt_sizes:
  "UDPPKT_LENGTH_SIZE = 4" "UDPPKT_IN_FIXED_HEADER_NO_LENGTH_SIZE = 37"
  "UDPPKT_OUT_FIXED_HEADER_NO_LENGTH_SIZE = 36" "MAX_UDP_IN_PAYLOAD_SIZE = 65471"
  by (simp_all add: UDPPKT_LENGTH_SIZE_def UDPPKT_ADDR_SIZE_def UDPPKT_PORT_SIZE_def
      UDPPKT_APPLEN_SIZE_def UDPPKT_IN_FIXED_HEADER_SIZE_def
      UDPPKT_IN_FIXED_HEADER_NO_LENGTH_SIZE_def UDPPKT_OUT_FIXED_HEADER_SIZE_def
      UDPPKT_OUT_FIXED_HEADER_NO_LENGTH_SIZE_def MAX_UDP_IN_PAYLOAD_SIZE_def
      MAX_UDP_PAYLOAD_SIZE_def MAX_IP_PACKET_SIZE_def MIN_IPV4_HEADER_SIZE_def UDP_HEADER_SIZE_def)

section \<open>Decoder\<close>

datatype recv_state = RLength | RFixedHeader | RAppName nat | RPayload nat | RDropping nat

record udp_decoder =
  rs_state :: recv_state
  rs_total_length :: nat
  rs_buffer :: bytes
  rs_source :: "socket_addr option"
  rs_destination :: "socket_addr option"
  rs_app_name :: "string option"

definition udp_decoder_new :: udp_decoder where
  "udp_decoder_new = \<lparr>rs_state = RLength, rs_total_length = 0, rs_buffer = [],
     rs_source = None, rs_destination = None, rs_app_name = None\<rparr>"

text \<open>\<open>None\<close>: the field is not complete yet.\<close>

definition buffered_read ::
  "udp_decoder \<Rightarrow> bytes \<Rightarrow> nat \<Rightarrow> (udp_decoder \<times> (bytes \<times> bytes) option) outcome" where
  "buffered_read self input cap =
    (if \<not> (length (rs_buffer self) < cap \<or> cap = 0) then Panic
     else
       obind (usize_sub cap (length (rs_buffer self))) (\<lambda>space.
       let to_drain = min (length input) space;
           buffer = rs_buffer self @ take to_drain input;
           input' = drop to_drain input
       in if length buffer < cap then
            if input' = [] then Ret (self\<lparr>rs_buffer := buffer\<rparr>, None) else Panic
          else Ret (self\<lparr>rs_buffer := []\<rparr>, Some (buffer, input'))))"

definition process_client_length :: "udp_decoder \<Rightarrow> bytes \<Rightarrow> (udp_decoder \<times> bytes) outcome" where
  "process_client_length self data =
    obind (buffered_read self data UDPPKT_LENGTH_SIZE) (\<lambda>(self, r).
      case r of
        None \<Rightarrow> Ret (self, [])
      | Some (raw_length, tail) \<Rightarrow>
          obind (buf_get_be 4 raw_length) (\<lambda>(total_length, _).
          let self = self\<lparr>rs_total_length := total_length\<rparr> in
          if total_length \<ge> UDPPKT_IN_FIXED_HEADER_NO_LENGTH_SIZE
          then Ret (self\<lparr>rs_state := RFixedHeader\<rparr>, tail)
          else Ret (self\<lparr>rs_state := RDropping total_length\<rparr>, tail)))"

definition get_socket_addr :: "bytes \<Rightarrow> (socket_addr \<times> bytes) outcome" where
  "get_socket_addr header =
    obind (get_fixed_size_ip header) (\<lambda>(ip, header).
    obind (buf_get_be 2 header) (\<lambda>(port, header).
    Ret (\<lparr>sa_ip = ip, sa_port = word_of_nat port\<rparr>, header)))"

definition process_client_fixed_header :: "udp_decoder \<Rightarrow> bytes \<Rightarrow> (udp_decoder \<times> bytes) outcome" where
  "process_client_fixed_header self data =
    obind (buffered_read self data UDPPKT_IN_FIXED_HEADER_NO_LENGTH_SIZE) (\<lambda>(self, r).
      case r of
        None \<Rightarrow> Ret (self, [])
      | Some (header, tail) \<Rightarrow>
          obind (get_socket_addr header) (\<lambda>(source, header).
          obind (get_socket_addr header) (\<lambda>(destination, header).
          obind (buf_get_u8 header) (\<lambda>(app_name_length, header).
          let app_name_length = unat app_name_length;
              self = self\<lparr>rs_source := Some source, rs_destination := Some destination\<rparr>
          in obind (usize_sub MAX_UDP_IN_PAYLOAD_SIZE app_name_length) (\<lambda>limit.
             if rs_total_length self > limit then
               obind (usize_sub (rs_total_length self) UDPPKT_IN_FIXED_HEADER_NO_LENGTH_SIZE) (\<lambda>rest.
               Ret (self\<lparr>rs_state := RDropping rest\<rparr>, tail))
             else if rs_total_length self \<ge> UDPPKT_IN_FIXED_HEADER_NO_LENGTH_SIZE + app_name_length then
               Ret (self\<lparr>rs_state := RAppName app_name_length\<rparr>, tail)
             else
               obind (usize_sub (rs_total_length self) UDPPKT_IN_FIXED_HEADER_NO_LENGTH_SIZE) (\<lambda>rest.
               Ret (self\<lparr>rs_state := RDropping rest\<rparr>, tail)))))))"

definition process_client_app_name ::
  "udp_decoder \<Rightarrow> nat \<Rightarrow> bytes \<Rightarrow> (udp_decoder \<times> bytes) outcome" where
  "process_client_app_name self len data =
    obind (buffered_read self data len) (\<lambda>(self, r).
      case r of
        None \<Rightarrow> Ret (self, [])
      | Some (name, tail) \<Rightarrow>
          obind (usize_sub (rs_total_length self) UDPPKT_IN_FIXED_HEADER_NO_LENGTH_SIZE) (\<lambda>rest.
          obind (usize_sub rest len) (\<lambda>payload_length.
          case from_utf8 name of
            Inr name \<Rightarrow> Ret (self\<lparr>rs_app_name := Some name, rs_state := RPayload payload_length\<rparr>, tail)
          | Inl _ \<Rightarrow> Ret (self\<lparr>rs_state := RDropping payload_length\<rparr>, tail))))"

definition emit_datagram ::
  "udp_decoder \<Rightarrow> bytes \<Rightarrow> bytes \<Rightarrow> (udp_decoder \<times> client_udp_datagram option \<times> bytes) outcome" where
  "emit_datagram self to_send tail =
    (case (rs_source self, rs_destination self) of
       (Some source, Some destination) \<Rightarrow>
         Ret (self\<lparr>rs_state := RLength, rs_app_name := None\<rparr>,
           Some \<lparr>cu_meta = \<lparr>cm_source = source, cm_destination = destination,
                            cm_app_name = rs_app_name self\<rparr>,
                 cu_payload = to_send\<rparr>, tail)
     | _ \<Rightarrow> Panic)"

definition process_client_payload ::
  "udp_decoder \<Rightarrow> nat \<Rightarrow> bytes \<Rightarrow> (udp_decoder \<times> client_udp_datagram option \<times> bytes) outcome" where
  "process_client_payload self len data =
    (if rs_buffer self = [] \<and> length data \<ge> len then
       emit_datagram self (take len data) (drop len data)
     else
       obind (usize_sub len (length (rs_buffer self))) (\<lambda>space.
       let to_drain = min (length data) space;
           self = self\<lparr>rs_buffer := rs_buffer self @ take to_drain data\<rparr>;
           data = drop to_drain data
       in if length (rs_buffer self) < len then Ret (self, None, data)
          else emit_datagram (self\<lparr>rs_buffer := []\<rparr>) (rs_buffer self) data))"

definition decode_chunk_once ::
  "udp_decoder \<Rightarrow> bytes \<Rightarrow> (udp_decoder \<times> client_udp_datagram option \<times> bytes) outcome" where
  "decode_chunk_once self data =
    (case rs_state self of
       RLength \<Rightarrow> obind (process_client_length self data) (\<lambda>(self, tail). Ret (self, None, tail))
     | RFixedHeader \<Rightarrow> obind (process_client_fixed_header self data) (\<lambda>(self, tail). Ret (self, None, tail))
     | RAppName len \<Rightarrow> obind (process_client_app_name self len data) (\<lambda>(self, tail). Ret (self, None, tail))
     | RPayload len \<Rightarrow> process_client_payload self len data
     | RDropping remaining_length \<Rightarrow>
         let to_drop = min remaining_length (length data) in
         Ret (self\<lparr>rs_state := (if remaining_length \<le> to_drop then RLength
                              else RDropping (remaining_length - to_drop))\<rparr>,
              None, take to_drop data))"


text \<open>Every turn of the decoding loop shortens the data or brings the state closer to the next
  field, dropping included.\<close>

fun state_rank :: "recv_state \<Rightarrow> nat" where
  "state_rank (RDropping n) = n + 1"
| "state_rank (RAppName n) = 2"
| "state_rank (RPayload n) = 1"
| "state_rank _ = 0"

lemma buffered_read_eq:
  assumes "length (rs_buffer self) < cap \<or> cap = 0 \<and> rs_buffer self = []"
  shows "buffered_read self input cap = Ret
    (if length (rs_buffer self) + length input < cap
     then (self\<lparr>rs_buffer := rs_buffer self @ input\<rparr>, None)
     else (self\<lparr>rs_buffer := []\<rparr>,
           Some (rs_buffer self @ take (cap - length (rs_buffer self)) input,
                 drop (cap - length (rs_buffer self)) input)))"
  using assms by (auto simp: buffered_read_def Let_def min_def)

lemma buffered_read_Ret:
  "buffered_read self input cap = Ret (self', r) \<Longrightarrow>
    length (rs_buffer self) < cap \<or> cap = 0 \<and> rs_buffer self = []"
  by (auto simp: buffered_read_def usize_sub_def split: if_splits)

lemma buffered_read_tail:
  assumes "buffered_read self input cap = Ret (self', Some (field, tail))" and "input \<noteq> []"
  shows "length tail < length input \<or> cap = 0 \<and> tail = input \<and> field = []"
  using assms buffered_read_eq [OF buffered_read_Ret [OF assms(1)], of input] buffered_read_Ret [OF assms(1)]
  by (auto split: if_splits)

lemma buffered_read_shorter:
  "buffered_read self input cap = Ret (self', Some (field, tail)) \<Longrightarrow> input \<noteq> [] \<Longrightarrow> 0 < cap
    \<Longrightarrow> length tail < length input"
  using buffered_read_tail by fastforce

lemma decode_chunk_once_decreases:
  assumes "decode_chunk_once self data = Ret (self', r, tail)" and "data \<noteq> []"
  shows "length tail < length data \<or>
    length tail = length data \<and> state_rank (rs_state self') < state_rank (rs_state self)"
proof (cases "rs_state self")
  case RLength
  with assms show ?thesis
    by (auto simp: decode_chunk_once_def process_client_length_def obind_eq_Ret Let_def udppkt_sizes
        split: option.splits if_splits intro: buffered_read_shorter)
next
  case RFixedHeader
  with assms show ?thesis
    by (auto simp: decode_chunk_once_def process_client_fixed_header_def obind_eq_Ret Let_def udppkt_sizes
        split: option.splits if_splits intro: buffered_read_shorter)
next
  case (RAppName n)
  with assms(1) obtain self1 f where br: "buffered_read self data n = Ret (self1, f)"
    by (auto simp: decode_chunk_once_def process_client_app_name_def obind_eq_Ret)
  show ?thesis
  proof (cases f)
    case None
    with RAppName assms br show ?thesis
      by (simp add: decode_chunk_once_def process_client_app_name_def)
  next
    case (Some field)
    then obtain name tl where f: "f = Some (name, tl)" by (cases field) auto
    have "tail = tl" "name = [] \<Longrightarrow> state_rank (rs_state self') = 1"
      using RAppName assms(1) br f
      by (auto simp: decode_chunk_once_def process_client_app_name_def obind_eq_Ret from_utf8_def
          split: sum.splits if_splits)
    with buffered_read_tail [of self data n self1 name tl] br f assms(2) RAppName show ?thesis by auto
  qed
next
  case (RPayload n)
  with assms show ?thesis
    by (auto simp: decode_chunk_once_def process_client_payload_def emit_datagram_def obind_eq_Ret
        Let_def usize_sub_def split: if_splits option.splits)
next
  case (RDropping n)
  with assms show ?thesis
    by (auto simp: decode_chunk_once_def Let_def min_def split: if_splits)
qed

function decode_chunk ::
  "udp_decoder \<Rightarrow> bytes \<Rightarrow> (udp_decoder \<times> client_udp_datagram decode_result) outcome" where
  "decode_chunk self data =
    (if data = [] then Ret (self, WantMore)
     else
       case decode_chunk_once self data of
         Panic \<Rightarrow> Panic
       | Ret (self', Some d, tail) \<Rightarrow> Ret (self', Complete d tail)
       | Ret (self', None, tail) \<Rightarrow> decode_chunk self' tail)"
  by pat_completeness auto
termination
  by (relation "measures [\<lambda>(self, data). length data, \<lambda>(self, data). state_rank (rs_state self)]")
    (auto dest: decode_chunk_once_decreases)

declare decode_chunk.simps [simp del]

section \<open>Encoder\<close>

definition encode_packet :: "udp_datagram \<Rightarrow> bytes option" where
  "encode_packet datagram =
    (let total_length = UDPPKT_OUT_FIXED_HEADER_NO_LENGTH_SIZE + length (ud_payload datagram);
         meta = ud_meta datagram;
         encoded = to_be 4 total_length;
         encoded = put_fixed_size_ip encoded (sa_ip (um_source meta));
         encoded = encoded @ to_be 2 (unat (sa_port (um_source meta)));
         encoded = put_fixed_size_ip encoded (sa_ip (um_destination meta));
         encoded = encoded @ to_be 2 (unat (sa_port (um_destination meta)))
     in Some (encoded @ ud_payload datagram))"


section \<open>The decoder invariant\<close>

text \<open>The buffer never holds a whole field, the addresses are known once the fixed header was read,
  and the length field covers the part of the packet read so far.\<close>

fun partial_field :: "udp_decoder \<Rightarrow> nat \<Rightarrow> bool" where
  "partial_field self cap \<longleftrightarrow> length (rs_buffer self) < cap \<or> cap = 0 \<and> rs_buffer self = []"

definition udp_wf :: "udp_decoder \<Rightarrow> bool" where
  "udp_wf self =
    (case rs_state self of
       RLength \<Rightarrow> partial_field self UDPPKT_LENGTH_SIZE \<and> rs_app_name self = None
     | RFixedHeader \<Rightarrow> partial_field self UDPPKT_IN_FIXED_HEADER_NO_LENGTH_SIZE
         \<and> UDPPKT_IN_FIXED_HEADER_NO_LENGTH_SIZE \<le> rs_total_length self \<and> rs_app_name self = None
     | RAppName n \<Rightarrow> partial_field self n \<and> rs_source self \<noteq> None \<and> rs_destination self \<noteq> None
         \<and> UDPPKT_IN_FIXED_HEADER_NO_LENGTH_SIZE + n \<le> rs_total_length self \<and> rs_app_name self = None
     | RPayload n \<Rightarrow> partial_field self n \<and> rs_source self \<noteq> None \<and> rs_destination self \<noteq> None
         \<and> rs_app_name self \<noteq> None
     | RDropping n \<Rightarrow> rs_buffer self = [] \<and> rs_app_name self = None)"

lemma get_fixed_size_ip_Ret:
  "16 \<le> length bs \<Longrightarrow> \<exists>ip. get_fixed_size_ip bs = Ret (ip, drop 16 bs)"
  by (simp add: get_fixed_size_ip_def wire_lengths)

lemma get_socket_addr_Ret:
  assumes "18 \<le> length bs"
  shows "\<exists>a. get_socket_addr bs = Ret (a, drop 18 bs)"
proof -
  obtain ip where "get_fixed_size_ip bs = Ret (ip, drop 16 bs)"
    using get_fixed_size_ip_Ret assms by force
  with assms show ?thesis by (simp add: get_socket_addr_def)
qed

lemma fixed_header_fields:
  assumes "length h = 37"
  shows "\<exists>src h1 dst h2 app. get_socket_addr h = Ret (src, h1)
    \<and> get_socket_addr h1 = Ret (dst, h2) \<and> buf_get_u8 h2 = Ret (app, [])"
proof -
  have "length (drop 36 h) = 1" using assms by simp
  then obtain app where "drop 36 h = [app]"
    by (metis One_nat_def length_0_conv length_Suc_conv)
  moreover obtain src where "get_socket_addr h = Ret (src, drop 18 h)"
    using get_socket_addr_Ret assms by force
  moreover obtain dst where "get_socket_addr (drop 18 h) = Ret (dst, drop 36 h)"
    using get_socket_addr_Ret [of "drop 18 h"] assms by auto
  ultimately show ?thesis by fastforce
qed

lemma buffered_read_wf:
  assumes "partial_field self cap"
  obtains (incomplete) "length (rs_buffer self) + length data < cap"
      "buffered_read self data cap = Ret (self\<lparr>rs_buffer := rs_buffer self @ data\<rparr>, None)"
    | (read) "cap \<le> length (rs_buffer self) + length data"
      "buffered_read self data cap = Ret (self\<lparr>rs_buffer := []\<rparr>,
         Some (rs_buffer self @ take (cap - length (rs_buffer self)) data,
               drop (cap - length (rs_buffer self)) data))"
  using assms buffered_read_eq [of self cap data] by (cases "length (rs_buffer self) + length data < cap") auto

lemma fixed_header_app_len: "unat (b :: u8) \<le> MAX_UDP_IN_PAYLOAD_SIZE"
  using unat_byte_less [of b] by (simp add: udppkt_sizes)

lemma decode_chunk_once_wf:
  assumes "udp_wf self"
  shows "\<exists>self' r tail. decode_chunk_once self data = Ret (self', r, tail) \<and> udp_wf self'"
proof (cases "rs_state self")
  case RLength
  with assms have "partial_field self UDPPKT_LENGTH_SIZE" by (simp add: udp_wf_def)
  then show ?thesis
    by (cases rule: buffered_read_wf [where data = data])
      (use RLength assms in \<open>simp_all add: decode_chunk_once_def process_client_length_def Let_def
        udppkt_sizes udp_wf_def\<close>)
next
  case RFixedHeader
  with assms have part: "partial_field self UDPPKT_IN_FIXED_HEADER_NO_LENGTH_SIZE"
    by (simp add: udp_wf_def)
  then show ?thesis
  proof (cases rule: buffered_read_wf [where data = data])
    case incomplete
    with RFixedHeader assms show ?thesis
      by (simp add: decode_chunk_once_def process_client_fixed_header_def udp_wf_def)
  next
    case read
    let ?header = "rs_buffer self @ take (37 - length (rs_buffer self)) data"
    have len: "length ?header = 37" using read(1) part by (simp add: udppkt_sizes)
    obtain src h1 dst h2 app where fields: "get_socket_addr ?header = Ret (src, h1)"
      "get_socket_addr h1 = Ret (dst, h2)" "buf_get_u8 h2 = Ret (app, [])"
      using fixed_header_fields [OF len] by blast
    have "buffered_read self data UDPPKT_IN_FIXED_HEADER_NO_LENGTH_SIZE = Ret (self\<lparr>rs_buffer := []\<rparr>,
        Some (?header, drop (37 - length (rs_buffer self)) data))"
      using read(2) by (simp add: udppkt_sizes)
    with RFixedHeader assms show ?thesis
      using fixed_header_app_len [of app]
      by (auto simp: decode_chunk_once_def process_client_fixed_header_def Let_def fields
          udp_wf_def)
  qed
next
  case (RAppName n)
  with assms have "partial_field self n" by (simp add: udp_wf_def)
  then show ?thesis
    by (cases rule: buffered_read_wf [where data = data])
      (use RAppName assms in \<open>auto simp: decode_chunk_once_def process_client_app_name_def
        udp_wf_def split: sum.splits\<close>)
next
  case (RPayload n)
  with assms show ?thesis
    by (auto simp: decode_chunk_once_def process_client_payload_def emit_datagram_def Let_def udp_wf_def
        udppkt_sizes min_def)
next
  case (RDropping n)
  with assms show ?thesis
    by (simp add: decode_chunk_once_def udp_wf_def Let_def udppkt_sizes)
qed


lemma decode_chunk_wf:
  "udp_wf self \<Longrightarrow> \<exists>self' r. decode_chunk self data = Ret (self', r) \<and> udp_wf self'"
proof (induction self data rule: decode_chunk.induct)
  case (1 self data)
  obtain self' r tail where once: "decode_chunk_once self data = Ret (self', r, tail)" "udp_wf self'"
    using decode_chunk_once_wf [OF 1(2)] by blast
  show ?case
  proof (cases "data = []")
    case True
    with 1(2) show ?thesis by (simp add: decode_chunk.simps)
  next
    case False
    have "\<exists>s r. decode_chunk self' tail = Ret (s, r) \<and> udp_wf s" if "r = None"
      using 1(1) False once that by blast
    with once False show ?thesis
      by (cases r) (simp_all add: decode_chunk.simps [of self data])
  qed
qed

section \<open>Independence of the chunking\<close>

definition dropping :: "udp_decoder \<Rightarrow> bool" where
  "dropping self = (case rs_state self of RDropping _ \<Rightarrow> True | _ \<Rightarrow> False)"

lemma buffered_read_append:
  assumes "buffered_read self xs cap = Ret (self', Some (field, tail))"
  shows "buffered_read self (xs @ ys) cap = Ret (self', Some (field, tail @ ys))"
proof -
  note part = buffered_read_Ret [OF assms]
  from assms part show ?thesis
    by (auto simp: buffered_read_eq split: if_splits)
qed

lemma buffered_read_resume:
  assumes "buffered_read self xs cap = Ret (self', None)"
  shows "buffered_read self (xs @ ys) cap = buffered_read self' ys cap
    \<and> self' = self\<lparr>rs_buffer := rs_buffer self @ xs\<rparr>"
proof -
  note part = buffered_read_Ret [OF assms]
  from assms part have s': "self' = self\<lparr>rs_buffer := rs_buffer self @ xs\<rparr>"
    by (auto simp: buffered_read_eq split: if_splits)
  from assms part show ?thesis
    unfolding s' by (auto simp: buffered_read_eq split: if_splits)
qed

text \<open>The states that read one field: wait for \<open>cap\<close> bytes, then continue with them.\<close>

definition read_field :: "nat \<Rightarrow> (udp_decoder \<Rightarrow> bytes \<Rightarrow> udp_decoder outcome) \<Rightarrow> udp_decoder \<Rightarrow> bytes
    \<Rightarrow> (udp_decoder \<times> client_udp_datagram option \<times> bytes) outcome" where
  "read_field cap k self data =
    obind (buffered_read self data cap) (\<lambda>(self, r).
      case r of
        None \<Rightarrow> Ret (self, None, [])
      | Some (field, tail) \<Rightarrow> obind (k self field) (\<lambda>self'. Ret (self', None, tail)))"

lemma read_field_append:
  assumes "read_field cap k self xs = Ret (self', r, tail)"
  shows "read_field cap k self (xs @ ys) = Ret (self', r, tail @ ys)
    \<or> r = None \<and> tail = [] \<and> read_field cap k self (xs @ ys) = read_field cap k self' ys
       \<and> rs_state self' = rs_state self"
proof -
  from assms obtain self1 f where br: "buffered_read self xs cap = Ret (self1, f)"
    by (auto simp: read_field_def obind_eq_Ret)
  show ?thesis
  proof (cases f)
    case None
    with br assms have "self' = self1" "r = None" "tail = []" by (simp_all add: read_field_def)
    moreover have "buffered_read self (xs @ ys) cap = buffered_read self1 ys cap"
      and "rs_state self1 = rs_state self"
      using buffered_read_resume [of self xs cap self1 ys] br None by simp_all
    ultimately show ?thesis by (simp add: read_field_def)
  next
    case (Some ft)
    then obtain field t where f: "f = Some (field, t)" by (cases ft) auto
    with br assms have "k self1 field = Ret self'" "r = None" "tail = t"
      by (auto simp: read_field_def obind_eq_Ret)
    with br f buffered_read_append [of self xs cap self1 field t ys]
    show ?thesis by (simp add: read_field_def)
  qed
qed

definition after_length :: "udp_decoder \<Rightarrow> bytes \<Rightarrow> udp_decoder outcome" where
  "after_length self field = obind (process_client_length (self\<lparr>rs_buffer := []\<rparr>) field) (\<lambda>(s, _). Ret s)"

definition after_fixed_header :: "udp_decoder \<Rightarrow> bytes \<Rightarrow> udp_decoder outcome" where
  "after_fixed_header self field =
    obind (process_client_fixed_header (self\<lparr>rs_buffer := []\<rparr>) field) (\<lambda>(s, _). Ret s)"

definition after_app_name :: "nat \<Rightarrow> udp_decoder \<Rightarrow> bytes \<Rightarrow> udp_decoder outcome" where
  "after_app_name n self field =
    obind (process_client_app_name (self\<lparr>rs_buffer := []\<rparr>) n field) (\<lambda>(s, _). Ret s)"

lemma buffered_read_whole:
  "length field = cap \<Longrightarrow> buffered_read (self\<lparr>rs_buffer := []\<rparr>) field cap =
    Ret (self\<lparr>rs_buffer := []\<rparr>, Some (field, []))"
  by (cases "cap = 0") (simp_all add: buffered_read_eq)

lemma buffered_read_field:
  "buffered_read self data cap = Ret (self', Some (field, tail)) \<Longrightarrow>
    self' = self\<lparr>rs_buffer := []\<rparr> \<and> length field = cap"
  using buffered_read_Ret [of self data cap self' "Some (field, tail)"]
  by (auto simp: buffered_read_eq split: if_splits)

lemma buffered_read_cases:
  obtains (panic) "buffered_read self data cap = Panic"
    | (incomplete) self' where "buffered_read self data cap = Ret (self', None)"
    | (read) field tail where "buffered_read self data cap = Ret (self\<lparr>rs_buffer := []\<rparr>, Some (field, tail))"
        "buffered_read (self\<lparr>rs_buffer := []\<rparr>) field cap = Ret (self\<lparr>rs_buffer := []\<rparr>, Some (field, []))"
proof (cases "buffered_read self data cap")
  case (Ret sr)
  then show ?thesis
  proof (cases "snd sr")
    case None
    with Ret show ?thesis using incomplete by (metis prod.collapse)
  next
    case (Some ft)
    then have "buffered_read self data cap = Ret (fst sr, Some (fst ft, snd ft))"
      using Ret by (metis prod.collapse)
    then show ?thesis
      using read buffered_read_field [of self data cap "fst sr" "fst ft" "snd ft"] buffered_read_whole
      by metis
  qed
qed (rule panic)

lemma once_RLength:
  "rs_state self = RLength \<Longrightarrow>
    decode_chunk_once self data = read_field UDPPKT_LENGTH_SIZE after_length self data"
  by (cases rule: buffered_read_cases [of self data UDPPKT_LENGTH_SIZE])
    (simp_all add: decode_chunk_once_def read_field_def after_length_def process_client_length_def Let_def
      obind_def split: outcome.splits)

lemma once_RFixedHeader:
  "rs_state self = RFixedHeader \<Longrightarrow> decode_chunk_once self data =
    read_field UDPPKT_IN_FIXED_HEADER_NO_LENGTH_SIZE after_fixed_header self data"
  by (cases rule: buffered_read_cases [of self data UDPPKT_IN_FIXED_HEADER_NO_LENGTH_SIZE])
    (simp_all add: decode_chunk_once_def read_field_def after_fixed_header_def
      process_client_fixed_header_def Let_def obind_def split: outcome.splits)

lemma once_RAppName:
  "rs_state self = RAppName n \<Longrightarrow>
    decode_chunk_once self data = read_field n (after_app_name n) self data"
  by (cases rule: buffered_read_cases [of self data n])
    (simp_all add: decode_chunk_once_def read_field_def after_app_name_def process_client_app_name_def
      obind_def split: outcome.splits sum.splits)

lemma buffer_unchanged: "rs_buffer self = b \<Longrightarrow> self\<lparr>rs_buffer := b\<rparr> = self"
  by (cases self) simp

lemma process_client_payload_eq:
  "process_client_payload self n data =
    (if n < length (rs_buffer self) then Panic
     else if length (rs_buffer self) + length data < n then
       Ret (self\<lparr>rs_buffer := rs_buffer self @ data\<rparr>, None, [])
     else emit_datagram (self\<lparr>rs_buffer := []\<rparr>)
       (rs_buffer self @ take (n - length (rs_buffer self)) data) (drop (n - length (rs_buffer self)) data))"
  by (cases "rs_buffer self = [] \<and> n \<le> length data")
    (auto simp: process_client_payload_def usize_sub_def Let_def min_def buffer_unchanged)

lemma emit_datagram_append:
  "emit_datagram self payload tail = Ret (self', r, t) \<Longrightarrow>
    emit_datagram self payload (tail @ ys) = Ret (self', r, t @ ys)"
  by (auto simp: emit_datagram_def split: option.splits)

lemma process_client_payload_append:
  assumes "process_client_payload self n xs = Ret (self', r, tail)" and "rs_state self = RPayload n"
  shows "process_client_payload self n (xs @ ys) = Ret (self', r, tail @ ys)
    \<or> r = None \<and> tail = [] \<and> process_client_payload self n (xs @ ys) = process_client_payload self' n ys
       \<and> rs_state self' = RPayload n"
proof (cases "length (rs_buffer self) + length xs < n")
  case True
  with assms have "self' = self\<lparr>rs_buffer := rs_buffer self @ xs\<rparr>" "r = None" "tail = []"
    by (simp_all add: process_client_payload_eq)
  with True assms(2) show ?thesis by (simp add: process_client_payload_eq)
next
  case False
  then have n: "n - length (rs_buffer self) \<le> length xs" by simp
  from False assms(1) have "\<not> n < length (rs_buffer self)"
    and "emit_datagram (self\<lparr>rs_buffer := []\<rparr>) (rs_buffer self @ take (n - length (rs_buffer self)) xs)
      (drop (n - length (rs_buffer self)) xs) = Ret (self', r, tail)"
    by (simp_all add: process_client_payload_eq split: if_splits)
  with False n emit_datagram_append show ?thesis by (simp add: process_client_payload_eq)
qed

text \<open>Splitting the input of one turn: either the turn ends within the first part, or it is
  resumed on the second.\<close>

lemma decode_chunk_once_append:
  assumes once: "decode_chunk_once self xs = Ret (self', r, tail)" and "\<not> dropping self"
  shows "decode_chunk_once self (xs @ ys) = Ret (self', r, tail @ ys)
    \<or> r = None \<and> tail = [] \<and> decode_chunk_once self (xs @ ys) = decode_chunk_once self' ys
       \<and> \<not> dropping self'"
proof (cases "rs_state self")
  case RLength
  with once read_field_append [of UDPPKT_LENGTH_SIZE after_length self xs self' r tail ys] show ?thesis
    by (auto simp: once_RLength dropping_def)
next
  case RFixedHeader
  with once read_field_append
    [of UDPPKT_IN_FIXED_HEADER_NO_LENGTH_SIZE after_fixed_header self xs self' r tail ys]
  show ?thesis by (auto simp: once_RFixedHeader dropping_def)
next
  case (RAppName n)
  with once read_field_append [of n "after_app_name n" self xs self' r tail ys] show ?thesis
    by (auto simp: once_RAppName dropping_def)
next
  case (RPayload n)
  with once process_client_payload_append [of self n xs self' r tail ys] show ?thesis
    by (auto simp: decode_chunk_once_def dropping_def)
next
  case (RDropping n)
  with assms(2) show ?thesis by (simp add: dropping_def)
qed

text \<open>The streams on which the decoder never drops a packet.\<close>

function keeps :: "udp_decoder \<Rightarrow> bytes \<Rightarrow> bool" where
  "keeps self data \<longleftrightarrow>
    \<not> dropping self \<and>
    (data \<noteq> [] \<longrightarrow>
      (case decode_chunk_once self data of
         Panic \<Rightarrow> False
       | Ret (self', _, tail) \<Rightarrow> keeps self' tail))"
  by pat_completeness auto
termination
  by (relation "measures [\<lambda>(self, data). length data, \<lambda>(self, data). state_rank (rs_state self)]")
    (auto dest: decode_chunk_once_decreases)

declare keeps.simps [simp del]

lemma keeps_not_dropping: "keeps self data \<Longrightarrow> \<not> dropping self"
  by (simp add: keeps.simps [of self data])

lemma keeps_once:
  "keeps self data \<Longrightarrow> data \<noteq> [] \<Longrightarrow>
    \<exists>self' r tail. decode_chunk_once self data = Ret (self', r, tail) \<and> keeps self' tail"
  by (simp add: keeps.simps [of self data] split: outcome.splits prod.splits) 

lemma keepsI:
  "\<not> dropping self \<Longrightarrow> decode_chunk_once self data = Ret (self', r, tail) \<Longrightarrow> keeps self' tail \<Longrightarrow>
    keeps self data"
  by (simp add: keeps.simps [of self data])

lemma keeps_nil: "\<not> dropping self \<Longrightarrow> keeps self []"
  by (simp add: keeps.simps)

text \<open>The same, for one turn on the first part of a stream that is kept.\<close>

lemma keeps_append_cases:
  assumes "keeps self (xs @ ys)" and "decode_chunk_once self xs = Ret (self', r, tail)" and "xs \<noteq> []"
  obtains (within) "decode_chunk_once self (xs @ ys) = Ret (self', r, tail @ ys)" "keeps self' (tail @ ys)"
    | (resumed) "r = None" "tail = []" "decode_chunk_once self (xs @ ys) = decode_chunk_once self' ys"
        "keeps self' ys" "\<not> dropping self'"
proof -
  from keeps_once [OF assms(1)] assms(3) obtain s2 r2 t2
    where once: "decode_chunk_once self (xs @ ys) = Ret (s2, r2, t2)" "keeps s2 t2"
    by auto
  from decode_chunk_once_append [OF assms(2) keeps_not_dropping [OF assms(1)], of ys] show ?thesis
  proof (elim disjE conjE)
    assume "decode_chunk_once self (xs @ ys) = Ret (self', r, tail @ ys)"
    with once within show ?thesis by simp
  next
    assume r: "r = None" "tail = []" "decode_chunk_once self (xs @ ys) = decode_chunk_once self' ys"
      and nd: "\<not> dropping self'"
    have "keeps self' ys"
      using nd once r(3) by (cases "ys = []") (auto intro: keepsI keeps_nil)
    with r nd resumed show ?thesis by blast
  qed
qed

lemma keeps_prefix: "keeps self (xs @ ys) \<Longrightarrow> udp_wf self \<Longrightarrow> keeps self xs"
proof (induction self xs rule: keeps.induct)
  case (1 self xs)
  show ?case
  proof (cases "xs = []")
    case True
    with 1 show ?thesis by (auto intro: keeps_nil dest: keeps_not_dropping)
  next
    case False
    obtain self' r tail where once: "decode_chunk_once self xs = Ret (self', r, tail)" and wf: "udp_wf self'"
      using decode_chunk_once_wf [OF 1(3)] by blast
    show ?thesis
    proof (rule keepsI [OF keeps_not_dropping [OF 1(2)] once])
      show "keeps self' tail"
      proof (rule keeps_append_cases [OF 1(2) once False])
        assume "keeps self' (tail @ ys)"
        with 1(1) False once wf show ?thesis by blast
      qed (auto intro: keeps_nil)
    qed
  qed
qed

lemma decode_chunk_once_step:
  assumes "decode_chunk_once self data = Ret (self', r, tail)" and "data \<noteq> []"
  shows "decode_chunk self data =
    (case r of Some d \<Rightarrow> Ret (self', Complete d tail) | None \<Rightarrow> decode_chunk self' tail)"
  using assms by (simp add: decode_chunk.simps [of self data] split: option.splits)

lemma decode_chunk_nil: "decode_chunk self [] = Ret (self, WantMore)"
  by (simp add: decode_chunk.simps)

lemma decode_chunk_resume:
  assumes "decode_chunk_once self (xs @ ys) = decode_chunk_once self' ys" and "ys \<noteq> []"
  shows "decode_chunk self (xs @ ys) = decode_chunk self' ys"
  using assms by (simp add: decode_chunk.simps [of self "xs @ ys"] decode_chunk.simps [of self' ys])

lemma decode_chunk_more:
  "keeps self (xs @ ys) \<Longrightarrow> udp_wf self \<Longrightarrow> decode_chunk self xs = Ret (self', WantMore) \<Longrightarrow>
    decode_chunk self (xs @ ys) = decode_chunk self' ys \<and> keeps self' ys"
proof (induction self xs rule: decode_chunk.induct)
  case (1 self xs)
  show ?case
  proof (cases "xs = []")
    case True
    with 1 show ?thesis by (simp add: decode_chunk_nil)
  next
    case False
    obtain s1 r tail where once: "decode_chunk_once self xs = Ret (s1, r, tail)" and wf: "udp_wf s1"
      using decode_chunk_once_wf [OF 1(3)] by blast
    with 1(4) decode_chunk_once_step [OF once False] have r: "r = None"
      and rest: "decode_chunk s1 tail = Ret (self', WantMore)" by (auto split: option.splits)
    show ?thesis
    proof (rule keeps_append_cases [OF 1(2) once False])
      assume w: "decode_chunk_once self (xs @ ys) = Ret (s1, r, tail @ ys)" "keeps s1 (tail @ ys)"
      with decode_chunk_once_step [OF w(1)] r False
      have "decode_chunk self (xs @ ys) = decode_chunk s1 (tail @ ys)" by simp
      moreover have "decode_chunk s1 (tail @ ys) = decode_chunk self' ys \<and> keeps self' ys"
        using 1(1) False once r w(2) wf rest by blast
      ultimately show ?thesis by simp
    next
      assume res: "tail = []" "decode_chunk_once self (xs @ ys) = decode_chunk_once s1 ys" "keeps s1 ys"
      with rest have s1: "s1 = self'" by (simp add: decode_chunk_nil)
      show ?thesis
      proof (cases "ys = []")
        case True
        with 1(4) res s1 show ?thesis by (simp add: decode_chunk_nil)
      next
        case ne: False
        with res s1 decode_chunk_resume [of self xs ys s1] show ?thesis by simp
      qed
    qed
  qed
qed

lemma decode_chunk_complete:
  "keeps self (xs @ ys) \<Longrightarrow> udp_wf self \<Longrightarrow> decode_chunk self xs = Ret (self', Complete d t) \<Longrightarrow>
    decode_chunk self (xs @ ys) = Ret (self', Complete d (t @ ys)) \<and> keeps self' (t @ ys)"
proof (induction self xs rule: decode_chunk.induct)
  case (1 self xs)
  then have False: "xs \<noteq> []" by (auto simp: decode_chunk_nil)
  obtain s1 r tail where once: "decode_chunk_once self xs = Ret (s1, r, tail)" and wf: "udp_wf s1"
    using decode_chunk_once_wf [OF 1(3)] by blast
  note step = decode_chunk_once_step [OF once False]
  show ?case
  proof (rule keeps_append_cases [OF 1(2) once False])
    assume w: "decode_chunk_once self (xs @ ys) = Ret (s1, r, tail @ ys)" "keeps s1 (tail @ ys)"
    note step' = decode_chunk_once_step [OF w(1)]
    show ?thesis
    proof (cases r)
      case None
      with step 1(4) have "decode_chunk s1 tail = Ret (self', Complete d t)" by simp
      then have "decode_chunk s1 (tail @ ys) = Ret (self', Complete d (t @ ys)) \<and> keeps self' (t @ ys)"
        using 1(1) False once None w(2) wf by blast
      with None step' False show ?thesis by simp
    next
      case (Some e)
      with step 1(4) have "s1 = self'" "e = d" "tail = t" by simp_all
      with Some step' False w(2) show ?thesis by simp
    qed
  next
    assume "r = None" "tail = []"
    with step 1(4) show ?thesis by (simp add: decode_chunk_nil)
  qed
qed

definition udp_admissible :: "udp_decoder \<Rightarrow> bytes \<Rightarrow> bool" where
  "udp_admissible self data \<longleftrightarrow> udp_wf self \<and> keeps self data"

interpretation udp: chunk_decoder decode_chunk udp_admissible
proof
  show "udp_admissible st xs" if "udp_admissible st (xs @ ys)" for st xs ys
    using that keeps_prefix by (auto simp: udp_admissible_def)
  show "\<exists>st' r. decode_chunk st data = Ret (st', r)" if "udp_admissible st data" for st data
    using that decode_chunk_wf by (fastforce simp: udp_admissible_def)
  show "decode_chunk st [] = Ret (st, WantMore)" for st
    by (rule decode_chunk_nil)
  show "decode_chunk st (xs @ ys) = decode_chunk st' ys \<and> udp_admissible st' ys"
    if "udp_admissible st (xs @ ys)" "decode_chunk st xs = Ret (st', WantMore)" for st xs ys st'
    using that decode_chunk_more [of st xs ys st'] decode_chunk_wf [of st xs]
    by (auto simp: udp_admissible_def)
  show "decode_chunk st (xs @ ys) = Ret (st', Complete d (tail @ ys)) \<and> udp_admissible st' (tail @ ys)"
    if "udp_admissible st (xs @ ys)" "decode_chunk st xs = Ret (st', Complete d tail)" for st xs ys st' d tail
    using that decode_chunk_complete [of st xs ys st' d tail] decode_chunk_wf [of st xs]
    by (auto simp: udp_admissible_def)
qed


section \<open>The documented packet layout\<close>

text \<open>The layout of a client packet as the header comment of the source gives it, and the packets
  that fit it: the name fits its length byte, the length field obeys the decoder's limit, and the
  addresses are the ones their 16-byte fields denote.\<close>

definition put_socket_addr :: "socket_addr \<Rightarrow> bytes" where
  "put_socket_addr a = put_fixed_size_ip [] (sa_ip a) @ to_be 2 (unat (sa_port a))"

definition client_packet :: "client_udp_datagram \<Rightarrow> bytes" where
  "client_packet d =
    (let m = cu_meta d; name = as_bytes (the (cm_app_name m)) in
     to_be 4 (37 + length name + length (cu_payload d))
     @ put_socket_addr (cm_source m) @ put_socket_addr (cm_destination m)
     @ [word_of_nat (length name)] @ name @ cu_payload d)"

definition packet_ok :: "client_udp_datagram \<Rightarrow> bool" where
  "packet_ok d =
    (case cm_app_name (cu_meta d) of
       None \<Rightarrow> False
     | Some name \<Rightarrow> is_str name \<and> length name \<le> 255
         \<and> 37 + 2 * length name + length (cu_payload d) \<le> MAX_UDP_IN_PAYLOAD_SIZE
         \<and> canonical_ip (sa_ip (cm_source (cu_meta d))) = sa_ip (cm_source (cu_meta d))
         \<and> canonical_ip (sa_ip (cm_destination (cu_meta d))) = sa_ip (cm_destination (cu_meta d)))"

text \<open>A datagram with an empty payload is only delivered once a further byte arrives.\<close>

fun delivered :: "client_udp_datagram list \<Rightarrow> client_udp_datagram list" where
  "delivered [] = []"
| "delivered [d] = (if cu_payload d = [] then [] else [d])"
| "delivered (d # e # ds) = d # delivered (e # ds)"

definition idle :: "udp_decoder \<Rightarrow> bool" where
  "idle self \<longleftrightarrow> rs_state self = RLength \<and> rs_buffer self = [] \<and> rs_app_name self = None"

lemma idle_new: "idle udp_decoder_new"
  by (simp add: idle_def udp_decoder_new_def)

lemma idle_wf: "idle self \<Longrightarrow> udp_wf self"
  by (simp add: idle_def udp_wf_def udppkt_sizes)

lemma length_put_socket_addr [simp]: "length (put_socket_addr a) = 18"
  by (simp add: put_socket_addr_def)

lemma unat_u16_less: "unat (p :: u16) < 256 ^ 2"
  using unsigned_less [of p, where ?'a = nat] by simp

lemma get_put_socket_addr:
  "canonical_ip (sa_ip a) = sa_ip a \<Longrightarrow> get_socket_addr (put_socket_addr a @ rest) = Ret (a, rest)"
  by (simp add: get_socket_addr_def put_socket_addr_def get_put_fixed_size_ip
      buf_get_be_to_be [OF unat_u16_less])

lemma buffered_read_prefix:
  "rs_buffer self = [] \<Longrightarrow> length field = cap \<Longrightarrow>
    buffered_read self (field @ rest) cap = Ret (self, Some (field, rest))"
  by (cases "cap = 0") (simp_all add: buffered_read_eq)

lemma once_length:
  assumes "rs_state self = RLength" "rs_buffer self = []" "37 \<le> n" "n < 2 ^ 32"
  shows "decode_chunk_once self (to_be 4 n @ rest) =
    Ret (self\<lparr>rs_total_length := n, rs_state := RFixedHeader\<rparr>, None, rest)"
  using assms by (simp add: decode_chunk_once_def process_client_length_def buffered_read_prefix udppkt_sizes)

lemma once_fixed_header:
  assumes "rs_state self = RFixedHeader" "rs_buffer self = []"
    and "canonical_ip (sa_ip src) = sa_ip src" "canonical_ip (sa_ip dst) = sa_ip dst"
    and "n \<le> 255" "37 + n \<le> rs_total_length self" "rs_total_length self \<le> MAX_UDP_IN_PAYLOAD_SIZE - n"
  shows "decode_chunk_once self (put_socket_addr src @ put_socket_addr dst @ [word_of_nat n] @ rest) =
    Ret (self\<lparr>rs_source := Some src, rs_destination := Some dst, rs_state := RAppName n\<rparr>, None, rest)"
proof -
  have "buffered_read self ((put_socket_addr src @ put_socket_addr dst @ [word_of_nat n]) @ rest) 37 =
      Ret (self, Some (put_socket_addr src @ put_socket_addr dst @ [word_of_nat n], rest))"
    using assms by (intro buffered_read_prefix) simp_all
  moreover have "unat (word_of_nat n :: u8) = n"
    using assms by (simp add: unat_of_nat_byte)
  ultimately show ?thesis
    using assms by (simp add: decode_chunk_once_def process_client_fixed_header_def get_put_socket_addr
        udppkt_sizes Let_def)
qed

lemma once_app_name:
  assumes "rs_state self = RAppName (length name)" "rs_buffer self = []" "is_str name"
    and "37 + length name \<le> rs_total_length self"
  shows "decode_chunk_once self (as_bytes name @ rest) =
    Ret (self\<lparr>rs_app_name := Some name, rs_state := RPayload (rs_total_length self - 37 - length name)\<rparr>,
      None, rest)"
  using assms by (simp add: decode_chunk_once_def process_client_app_name_def buffered_read_prefix udppkt_sizes)

lemma once_payload:
  assumes "rs_state self = RPayload (length payload)" "rs_buffer self = []"
    and "rs_source self = Some src" "rs_destination self = Some dst" "rs_app_name self = Some name"
  shows "decode_chunk_once self (payload @ rest) =
    Ret (self\<lparr>rs_state := RLength, rs_app_name := None\<rparr>,
      Some \<lparr>cu_meta = \<lparr>cm_source = src, cm_destination = dst, cm_app_name = Some name\<rparr>,
            cu_payload = payload\<rparr>, rest)"
  using assms by (simp add: decode_chunk_once_def process_client_payload_def emit_datagram_def)

text \<open>One packet from an idle decoder: four turns.\<close>

lemma packet_turns:
  assumes "idle self" and "packet_ok d"
  obtains s1 s2 s3 s4 name h where
    "decode_chunk_once self (client_packet d @ rest) = Ret (s1, None, h @ as_bytes name @ cu_payload d @ rest)"
    "decode_chunk_once s1 (h @ as_bytes name @ cu_payload d @ rest) = Ret (s2, None, as_bytes name @ cu_payload d @ rest)"
    "decode_chunk_once s2 (as_bytes name @ cu_payload d @ rest) = Ret (s3, None, cu_payload d @ rest)"
    "decode_chunk_once s3 (cu_payload d @ rest) = Ret (s4, Some d, rest)"
    "idle s4" "\<not> dropping s1" "\<not> dropping s2" "\<not> dropping s3" "h \<noteq> []" "client_packet d \<noteq> []"
proof -
  obtain name src dst payload where d: "d = \<lparr>cu_meta = \<lparr>cm_source = src, cm_destination = dst,
      cm_app_name = Some name\<rparr>, cu_payload = payload\<rparr>"
    and ok: "is_str name" "length name \<le> 255" "37 + 2 * length name + length payload \<le> 65471"
      "canonical_ip (sa_ip src) = sa_ip src" "canonical_ip (sa_ip dst) = sa_ip dst"
    using assms(2) by (cases d, cases "cu_meta d") (auto simp: packet_ok_def udppkt_sizes split: option.splits)
  let ?n = "37 + length name + length payload"
  let ?h = "put_socket_addr src @ put_socket_addr dst @ [word_of_nat (length name)]"
  let ?s1 = "self\<lparr>rs_total_length := ?n, rs_state := RFixedHeader\<rparr>"
  let ?s2 = "?s1\<lparr>rs_source := Some src, rs_destination := Some dst, rs_state := RAppName (length name)\<rparr>"
  let ?s3 = "?s2\<lparr>rs_app_name := Some name, rs_state := RPayload (length payload)\<rparr>"
  have self: "rs_state self = RLength" "rs_buffer self = []" using assms(1) by (simp_all add: idle_def)
  have "decode_chunk_once self (client_packet d @ rest) = Ret (?s1, None, ?h @ as_bytes name @ payload @ rest)"
    using self ok once_length [of self ?n "?h @ as_bytes name @ payload @ rest"]
    by (simp add: d client_packet_def Let_def)
  moreover have "decode_chunk_once ?s1 (?h @ as_bytes name @ payload @ rest)
      = Ret (?s2, None, as_bytes name @ payload @ rest)"
    using self ok once_fixed_header [of ?s1 src dst "length name" "as_bytes name @ payload @ rest"]
    by (simp add: udppkt_sizes)
  moreover have "decode_chunk_once ?s2 (as_bytes name @ payload @ rest) = Ret (?s3, None, payload @ rest)"
    using self ok once_app_name [of ?s2 name "payload @ rest"] by simp
  moreover have "decode_chunk_once ?s3 (payload @ rest)
      = Ret (?s3\<lparr>rs_state := RLength, rs_app_name := None\<rparr>, Some d, rest)"
    using self once_payload [of ?s3 payload src dst name rest] by (simp add: d)
  ultimately show thesis
    using that [of ?s1 ?h name ?s2 ?s3 "?s3\<lparr>rs_state := RLength, rs_app_name := None\<rparr>"] self
    by (simp add: d idle_def dropping_def client_packet_def Let_def)
qed

lemma packet_decoded:
  assumes "idle self" and "packet_ok d" and "cu_payload d \<noteq> [] \<or> rest \<noteq> []"
  shows "\<exists>self'. decode_chunk self (client_packet d @ rest) = Ret (self', Complete d rest) \<and> idle self'"
proof -
  from assms(3) have ne: "cu_payload d @ rest \<noteq> []" by simp
  show ?thesis
    by (rule packet_turns [OF assms(1,2), of rest])
      (use ne in \<open>simp only: decode_chunk_once_step option.case append_is_Nil_conv simp_thms ex_simps
        HOL.ex_simps\<close>, blast)
qed

lemma packet_kept:
  assumes "idle self" and "packet_ok d" and "\<And>s. idle s \<Longrightarrow> keeps s rest"
  shows "keeps self (client_packet d @ rest)"
proof -
  have nd: "\<not> dropping self" using assms(1) by (simp add: idle_def dropping_def)
  show ?thesis
    by (rule packet_turns [OF assms(1,2), of rest]) (metis keepsI nd assms(3))
qed

lemma packet_held:
  assumes "idle self" and "packet_ok d" and "cu_payload d = []"
  shows "\<exists>self'. decode_chunk self (client_packet d) = Ret (self', WantMore)"
proof (rule packet_turns [OF assms(1,2), of "[]"])
  fix s1 s2 s3 s4 name h
  assume turns: "decode_chunk_once self (client_packet d @ []) = Ret (s1, None, h @ as_bytes name @ cu_payload d @ [])"
    "decode_chunk_once s1 (h @ as_bytes name @ cu_payload d @ []) = Ret (s2, None, as_bytes name @ cu_payload d @ [])"
    "decode_chunk_once s2 (as_bytes name @ cu_payload d @ []) = Ret (s3, None, cu_payload d @ [])"
    and ne: "h \<noteq> []" "client_packet d \<noteq> []"
  have "decode_chunk self (client_packet d) = decode_chunk s2 (as_bytes name)"
    using turns(1,2) ne assms(3) by (simp add: decode_chunk_once_step)
  moreover have "\<exists>s. decode_chunk s2 (as_bytes name) = Ret (s, WantMore)"
    using turns(3) assms(3) by (cases "as_bytes name = []") (simp_all add: decode_chunk_once_step decode_chunk_nil)
  ultimately show ?thesis by simp
qed


lemma packets_kept:
  "list_all packet_ok ds \<Longrightarrow> idle self \<Longrightarrow> keeps self (concat (map client_packet ds))"
proof (induction ds arbitrary: self)
  case Nil
  then show ?case by (simp add: keeps_nil idle_def dropping_def)
next
  case (Cons d ds)
  then show ?case by (simp add: packet_kept)
qed

lemma client_packet_not_Nil: "client_packet d \<noteq> []"
  by (simp add: client_packet_def Let_def)

lemma packets_decoded:
  "list_all packet_ok ds \<Longrightarrow> idle self \<Longrightarrow>
    \<exists>self'. decodes decode_chunk self (concat (map client_packet ds)) (delivered ds) self'"
proof (induction ds arbitrary: self rule: delivered.induct)
  case 1
  then show ?case using decodes.want_more [where decode = decode_chunk, OF decode_chunk_nil] by auto
next
  case (2 d)
  show ?case
  proof (cases "cu_payload d = []")
    case True
    with 2 packet_held [of self d] show ?thesis by (auto intro: decodes.want_more)
  next
    case False
    with 2 packet_decoded [of self d "[]"] show ?thesis
      by (auto intro!: decodes.complete decodes.want_more decode_chunk_nil)
  qed
next
  case (3 d e ds)
  let ?rest = "concat (map client_packet (e # ds))"
  have "?rest \<noteq> []" using client_packet_not_Nil by simp
  then obtain s1 where "decode_chunk self (client_packet d @ ?rest) = Ret (s1, Complete d ?rest)" "idle s1"
    using 3 packet_decoded [of self d ?rest] by auto
  moreover obtain s2 where "decodes decode_chunk s1 ?rest (delivered (e # ds)) s2"
    using 3 \<open>idle s1\<close> by auto
  ultimately show ?case by (auto intro: decodes.complete)
qed

lemma read_datagram_total:
  "udp_wf self \<Longrightarrow> \<exists>s r. read_datagram decode_chunk consume self pending source = Ret (s, r)
    \<and> udp_wf (dd_decoder s)"
proof (induction decode_chunk consume self pending source rule: read_datagram.induct)
  case (1 consume dec chunk pending source)
  with decode_chunk_wf [of dec chunk] show ?case by (fastforce split: decode_result.splits)
next
  case (5 consume dec chunk source)
  with decode_chunk_wf [of dec chunk] show ?case by (fastforce split: decode_result.splits sum.splits)
qed simp_all

section \<open>Properties\<close>

text \<open>
  C4: the reader of the UDP multiplexer delivers exactly the packets the client wrote, in order and
  unchanged, however the byte stream is cut into chunks, and then waits. Only a last packet with
  an empty payload is held back until more bytes arrive.
\<close>

theorem udp_stream_roundtrip:
  assumes "list_all packet_ok ds" and "concat cs = concat (map client_packet ds)"
  shows "reads decode_chunk (\<lambda>_. Ok ()) (length (delivered ds) + k)
      \<lparr>dd_decoder = udp_decoder_new, dd_pending_bytes = [], dd_source = map (\<lambda>c. Ok (Chunk c)) cs\<rparr>
    = Ret (map (\<lambda>d. Ready (Ok d)) (delivered ds) @ replicate k Pending)"
proof -
  have "udp_admissible udp_decoder_new (concat cs)"
    using assms packets_kept idle_new idle_wf by (simp add: udp_admissible_def)
  moreover obtain st' where "decodes decode_chunk udp_decoder_new (concat cs) (delivered ds) st'"
    using packets_decoded [OF assms(1) idle_new] assms(2) by auto
  ultimately show ?thesis by (simp add: udp.reads_chunks)
qed

theorem udp_stream_roundtrip_witness:
  "\<exists>d. cu_payload d = [7, 8] \<and>
    reads decode_chunk (\<lambda>_. Ok ()) 2
      \<lparr>dd_decoder = udp_decoder_new, dd_pending_bytes = [],
       dd_source = map (\<lambda>c. Ok (Chunk c)) (map (\<lambda>b. [b]) (client_packet d))\<rparr>
    = Ret [Ready (Ok d), Pending]"
proof -
  let ?a = "\<lparr>sa_ip = V4 0x0A000001, sa_port = 53\<rparr>"
  let ?d = "\<lparr>cu_meta = \<lparr>cm_source = ?a, cm_destination = ?a, cm_app_name = Some ''app''\<rparr>,
    cu_payload = [7, 8]\<rparr>"
  have ok: "list_all packet_ok [?d]"
    by (simp add: packet_ok_def udppkt_sizes is_str_def as_bytes_def)
  have "concat (map (\<lambda>b. [b]) (client_packet ?d)) = concat (map client_packet [?d])"
    by (simp add: concat_map_singleton)
  moreover have "length (delivered [?d]) + 1 = 2" and "delivered [?d] = [?d]" by simp_all
  ultimately show ?thesis
    using udp_stream_roundtrip [OF ok, of "map (\<lambda>b. [b]) (client_packet ?d)" 1]
    by (intro exI [of _ ?d]) (simp add: numeral_2_eq_2 del: reads.simps delivered.simps map_map)
qed

text \<open>
  C29: whatever the client sends and whatever its source reports, the reader of the UDP
  multiplexer returns: no assertion, subtraction or unwrap of the decoder fails and its loop
  ends, starting from any state that satisfies the decoder's invariant.
\<close>

theorem udp_reader_never_panics:
  assumes "udp_wf (dd_decoder s)"
  shows "\<exists>rs. reads decode_chunk consume n s = Ret rs \<and> length rs = n"
  using assms
proof (induction n arbitrary: s)
  case (Suc n)
  then obtain s' r where r: "read decode_chunk consume s = Ret (s', r)" and "udp_wf (dd_decoder s')"
    using read_datagram_total by (fastforce simp: read_def)
  moreover from this Suc.IH obtain rs where "reads decode_chunk consume n s' = Ret rs" "length rs = n"
    by blast
  ultimately show ?case by simp
qed simp

theorem udp_reader_never_panics_witness:
  "\<exists>rs. reads decode_chunk (\<lambda>_. Ok ()) 3
      \<lparr>dd_decoder = udp_decoder_new, dd_pending_bytes = [[0, 0, 0, 40, 1], [2, 3]],
       dd_source = [Ok (Chunk [4]), Ok Eof]\<rparr> = Ret rs \<and> length rs = 3"
  by (rule udp_reader_never_panics) (simp add: idle_wf idle_new)



text \<open>
  the packets sent to the client carry a length field that counts the bytes after it, the two
  addresses as their fields denote them, and the payload.
\<close>

theorem udp_encoded_packet_layout:
  assumes "length (ud_payload d) < 2 ^ 32 - 36"
  shows "\<exists>packet fields rest. encode_packet d = Some packet \<and>
    buf_get_be 4 packet = Ret (length packet - 4, fields) \<and>
    get_socket_addr fields =
      Ret (\<lparr>sa_ip = canonical_ip (sa_ip (um_source (ud_meta d))), sa_port = sa_port (um_source (ud_meta d))\<rparr>, rest) \<and>
    get_socket_addr rest =
      Ret (\<lparr>sa_ip = canonical_ip (sa_ip (um_destination (ud_meta d))), sa_port = sa_port (um_destination (ud_meta d))\<rparr>,
        ud_payload d)"
proof -
  have put: "put_fixed_size_ip bs ip = bs @ put_fixed_size_ip [] ip" for bs ip by (cases ip) simp_all
  have get: "get_socket_addr (put_socket_addr a @ r) =
      Ret (\<lparr>sa_ip = canonical_ip (sa_ip a), sa_port = sa_port a\<rparr>, r)" for a r
    by (simp add: get_socket_addr_def put_socket_addr_def get_put_fixed_size_ip
        buf_get_be_to_be [OF unat_u16_less])
  let ?m = "ud_meta d"
  have "encode_packet d = Some (to_be 4 (36 + length (ud_payload d)) @ put_socket_addr (um_source ?m)
      @ put_socket_addr (um_destination ?m) @ ud_payload d)"
    unfolding encode_packet_def Let_def put [of "_ @ _"] put [of "to_be _ _"]
    by (simp add: put_socket_addr_def udppkt_sizes)
  moreover have "buf_get_be 4 (to_be 4 (36 + length (ud_payload d)) @ r) = Ret (36 + length (ud_payload d), r)" for r
    using assms by (intro buf_get_be_to_be) simp
  ultimately show ?thesis by (simp add: get)
qed

theorem udp_encoded_packet_layout_witness:
  "\<exists>packet fields rest. encode_packet
      \<lparr>ud_meta = \<lparr>um_source = \<lparr>sa_ip = V4 1, sa_port = 2\<rparr>, um_destination = \<lparr>sa_ip = V6 1, sa_port = 3\<rparr>\<rparr>,
       ud_payload = [5]\<rparr> = Some packet \<and>
    buf_get_be 4 packet = Ret (length packet - 4, fields) \<and>
    get_socket_addr fields = Ret (\<lparr>sa_ip = V4 1, sa_port = 2\<rparr>, rest) \<and>
    get_socket_addr rest = Ret (\<lparr>sa_ip = V4 1, sa_port = 3\<rparr>, [5])"
  using udp_encoded_packet_layout [of "\<lparr>ud_meta = \<lparr>um_source = \<lparr>sa_ip = V4 1, sa_port = 2\<rparr>,
    um_destination = \<lparr>sa_ip = V6 1, sa_port = 3\<rparr>\<rparr>, ud_payload = [5]\<rparr>"] by simp

end
