(* ===== verification/Icmp_Utils.thy ===== *)
theory Icmp_Utils
  imports Net_Utils
begin

text \<open>
  ICMP messages, \<^verbatim>\<open>lib/src/icmp_utils.rs\<close>: the messages of both protocol versions, their parsers,
  the serialisation of echo requests, and the search for the echo request that an error message
  answers. A \<open>Panic\<close> is a read past the end of a buffer or a call the code declares unreachable.
\<close>

section \<open>Sizes, echo messages and errors\<close>

definition TYPE_SIZE :: nat where "TYPE_SIZE = 1"
definition CODE_SIZE :: nat where "CODE_SIZE = 1"
definition CHECKSUM_SIZE :: nat where "CHECKSUM_SIZE = 2"
definition ICMP_ID_SIZE :: nat where "ICMP_ID_SIZE = 2"
definition ICMP_SEQNO_SIZE :: nat where "ICMP_SEQNO_SIZE = 2"
definition ICMP_MIN_COMMON_HEADER_SIZE :: nat where
  "ICMP_MIN_COMMON_HEADER_SIZE = TYPE_SIZE + CODE_SIZE + CHECKSUM_SIZE + 4"
definition ICMP_V4_MIN_MATCHING_DATA_SIZE :: nat where
  "ICMP_V4_MIN_MATCHING_DATA_SIZE = MIN_IPV4_HEADER_SIZE + ICMP_MIN_COMMON_HEADER_SIZE"
definition ECHO_HEADER_SIZE :: nat where
  "ECHO_HEADER_SIZE = TYPE_SIZE + CODE_SIZE + CHECKSUM_SIZE + ICMP_ID_SIZE + ICMP_SEQNO_SIZE"

lemma icmp_sizes:
  "CHECKSUM_SIZE = 2" "ICMP_MIN_COMMON_HEADER_SIZE = 8" "ICMP_V4_MIN_MATCHING_DATA_SIZE = 28"
  "ECHO_HEADER_SIZE = 8" "MIN_IPV6_HEADER_SIZE = 40" "MIN_IPV4_HEADER_SIZE = 20"
  by (simp_all add: TYPE_SIZE_def CODE_SIZE_def CHECKSUM_SIZE_def ICMP_ID_SIZE_def ICMP_SEQNO_SIZE_def
      ICMP_MIN_COMMON_HEADER_SIZE_def ICMP_V4_MIN_MATCHING_DATA_SIZE_def ECHO_HEADER_SIZE_def
      MIN_IPV4_HEADER_SIZE_def MIN_IPV6_HEADER_SIZE_def)

record echo =
  echo_code :: u8
  echo_identifier :: u16
  echo_sequence_number :: u16
  echo_data :: bytes

datatype deserialize_error =
    InvalidLength string
  | MessageType u8
  | DestinationUnreachableCode u8
  | TimeExceededCode u8

text \<open>\<open>PartialEq\<close> of echo messages: the shorter data is a prefix of the longer.\<close>

definition bytes_starts_with :: "bytes \<Rightarrow> bytes \<Rightarrow> bool" where
  "bytes_starts_with xs ys \<longleftrightarrow> take (length ys) xs = ys"

definition echo_eq :: "echo \<Rightarrow> echo \<Rightarrow> bool" where
  "echo_eq self other =
    (if echo_identifier self \<noteq> echo_identifier other
        \<or> echo_sequence_number self \<noteq> echo_sequence_number other then False
     else if length (echo_data self) \<ge> length (echo_data other)
     then bytes_starts_with (echo_data self) (echo_data other)
     else bytes_starts_with (echo_data other) (echo_data self))"

text \<open>\<open>Hash\<close> of echo messages feeds these two fields to the hasher.\<close>

definition echo_hash :: "echo \<Rightarrow> u16 \<times> u16" where
  "echo_hash self = (echo_identifier self, echo_sequence_number self)"

definition echo_serialize :: "echo \<Rightarrow> u8 \<Rightarrow> bytes" where
  "echo_serialize self type_id =
    (let packet = [type_id] @ [0] @ to_be 2 0 @ to_be 2 (unat (echo_identifier self))
                  @ to_be 2 (unat (echo_sequence_number self)) @ echo_data self;
         checksum = to_be 2 (unat (rfc1071_checksum packet))
     in take 2 packet @ checksum @ drop 4 packet)"

definition parse_echo :: "u8 \<Rightarrow> bytes \<Rightarrow> (deserialize_error, echo) result outcome" where
  "parse_echo code packet =
    obind (buf_get_be 2 packet) (\<lambda>(identifier, packet).
    obind (buf_get_be 2 packet) (\<lambda>(sequence_number, packet).
    Ret (Ok \<lparr>echo_code = code, echo_identifier = word_of_nat identifier,
             echo_sequence_number = word_of_nat sequence_number, echo_data = packet\<rparr>)))"

text \<open>The \<open>deserialize_packet!\<close> macro: check the length (one byte, the type, is already read), read
  the code, skip the checksum and parse the rest.\<close>

datatype length_check = Exact nat | LowerBound nat

definition split_off :: "nat \<Rightarrow> bytes \<Rightarrow> bytes outcome" where
  "split_off n b = (if n \<le> length b then Ret (drop n b) else Panic)"

definition deserialize_packet ::
  "(u8 \<Rightarrow> bytes \<Rightarrow> (deserialize_error, 'm) result outcome) \<Rightarrow> bytes \<Rightarrow> length_check
   \<Rightarrow> (deserialize_error, 'm) result outcome" where
  "deserialize_packet func packet length_check =
    (let m = 1 + length packet;
         parse = obind (buf_get_u8 packet) (\<lambda>(code, packet).
                   obind (split_off CHECKSUM_SIZE packet) (\<lambda>packet. func code packet))
     in case length_check of
          Exact n \<Rightarrow>
            if n \<noteq> m then Ret (Err (InvalidLength
              (''Expected length: '' @ show_nat n @ '', packet length: '' @ show_nat m)))
            else parse
        | LowerBound n \<Rightarrow>
            if m < n then Ret (Err (InvalidLength
              (''Expected length at least: '' @ show_nat n @ '', packet length: '' @ show_nat m)))
            else parse)"

text \<open>\<open>.map(Message::...)\<close> on the parsed value.\<close>

definition omap_ok :: "('a \<Rightarrow> 'b) \<Rightarrow> ('e, 'a) result outcome \<Rightarrow> ('e, 'b) result outcome" where
  "omap_ok f r = obind r (\<lambda>x. Ret (case x of Inl e \<Rightarrow> Inl e | Inr y \<Rightarrow> Inr (f y)))"

section \<open>ICMPv4\<close>

datatype v4_message =
    V4DestinationUnreachable u8 bytes
  | V4TimeExceeded u8 bytes
  | V4ParameterProblem u8 u8 bytes
  | V4SourceQuench u8 bytes
  | V4Redirect u8 u32 bytes
  | V4Echo echo
  | V4EchoReply echo
  | V4Timestamp u8 u16 u16 u32 u32 u32
  | V4TimestampReply u8 u16 u16 u32 u32 u32
  | V4InformationRequest u8 u16 u16
  | V4InformationReply u8 u16 u16

fun v4_type_id :: "v4_message \<Rightarrow> u8" where
  "v4_type_id (V4DestinationUnreachable _ _) = 3"
| "v4_type_id (V4TimeExceeded _ _) = 11"
| "v4_type_id (V4ParameterProblem _ _ _) = 12"
| "v4_type_id (V4SourceQuench _ _) = 4"
| "v4_type_id (V4Redirect _ _ _) = 5"
| "v4_type_id (V4Echo _) = 8"
| "v4_type_id (V4EchoReply _) = 0"
| "v4_type_id (V4Timestamp _ _ _ _ _ _) = 13"
| "v4_type_id (V4TimestampReply _ _ _ _ _ _) = 14"
| "v4_type_id (V4InformationRequest _ _ _) = 15"
| "v4_type_id (V4InformationReply _ _ _) = 16"

fun v4_code :: "v4_message \<Rightarrow> u8" where
  "v4_code (V4DestinationUnreachable code _) = code"
| "v4_code (V4TimeExceeded code _) = code"
| "v4_code (V4ParameterProblem code _ _) = code"
| "v4_code (V4SourceQuench code _) = code"
| "v4_code (V4Redirect code _ _) = code"
| "v4_code (V4Echo x) = echo_code x"
| "v4_code (V4EchoReply x) = echo_code x"
| "v4_code (V4Timestamp code _ _ _ _ _) = code"
| "v4_code (V4TimestampReply code _ _ _ _ _) = code"
| "v4_code (V4InformationRequest code _ _) = code"
| "v4_code (V4InformationReply code _ _) = code"

fun v4_len :: "v4_message \<Rightarrow> nat" where
  "v4_len (V4DestinationUnreachable _ d) = ICMP_MIN_COMMON_HEADER_SIZE + length d"
| "v4_len (V4TimeExceeded _ d) = ICMP_MIN_COMMON_HEADER_SIZE + length d"
| "v4_len (V4ParameterProblem _ _ d) = ICMP_MIN_COMMON_HEADER_SIZE + length d"
| "v4_len (V4SourceQuench _ d) = ICMP_MIN_COMMON_HEADER_SIZE + length d"
| "v4_len (V4Redirect _ _ d) = ICMP_MIN_COMMON_HEADER_SIZE + length d"
| "v4_len (V4Echo x) = ICMP_MIN_COMMON_HEADER_SIZE + length (echo_data x)"
| "v4_len (V4EchoReply x) = ICMP_MIN_COMMON_HEADER_SIZE + length (echo_data x)"
| "v4_len (V4Timestamp _ _ _ _ _ _) = ICMP_MIN_COMMON_HEADER_SIZE + (4 + 4 + 4)"
| "v4_len (V4TimestampReply _ _ _ _ _ _) = ICMP_MIN_COMMON_HEADER_SIZE + (4 + 4 + 4)"
| "v4_len (V4InformationRequest _ _ _) = ICMP_MIN_COMMON_HEADER_SIZE + 0"
| "v4_len (V4InformationReply _ _ _) = ICMP_MIN_COMMON_HEADER_SIZE + 0"

definition v4_parse_destination_unreachable ::
  "u8 \<Rightarrow> bytes \<Rightarrow> (deserialize_error, v4_message) result outcome" where
  "v4_parse_destination_unreachable code packet =
    (if code = 0 \<or> code = 1 \<or> code = 2 \<or> code = 3 \<or> code = 4 \<or> code = 5 then
       obind (split_off 4 packet) (\<lambda>data. Ret (Ok (V4DestinationUnreachable code data)))
     else Ret (Err (DestinationUnreachableCode code)))"

definition v4_parse_source_quench :: "u8 \<Rightarrow> bytes \<Rightarrow> (deserialize_error, v4_message) result outcome" where
  "v4_parse_source_quench code packet =
    obind (split_off 4 packet) (\<lambda>data. Ret (Ok (V4SourceQuench code data)))"

definition v4_parse_redirect :: "u8 \<Rightarrow> bytes \<Rightarrow> (deserialize_error, v4_message) result outcome" where
  "v4_parse_redirect code packet =
    obind (buf_get_be 4 packet) (\<lambda>(gateway, packet). Ret (Ok (V4Redirect code (word_of_nat gateway) packet)))"

definition v4_parse_time_exceeded :: "u8 \<Rightarrow> bytes \<Rightarrow> (deserialize_error, v4_message) result outcome" where
  "v4_parse_time_exceeded code packet =
    (if code = 0 \<or> code = 1 then
       obind (split_off 4 packet) (\<lambda>data. Ret (Ok (V4TimeExceeded code data)))
     else Ret (Err (TimeExceededCode code)))"

definition v4_parse_parameter_problem :: "u8 \<Rightarrow> bytes \<Rightarrow> (deserialize_error, v4_message) result outcome" where
  "v4_parse_parameter_problem code packet =
    obind (buf_get_u8 packet) (\<lambda>(pointer, packet).
    obind (split_off 3 packet) (\<lambda>data. Ret (Ok (V4ParameterProblem code pointer data))))"

definition v4_parse_timestamp ::
  "(u8 \<Rightarrow> u16 \<Rightarrow> u16 \<Rightarrow> u32 \<Rightarrow> u32 \<Rightarrow> u32 \<Rightarrow> v4_message) \<Rightarrow> u8 \<Rightarrow> bytes
   \<Rightarrow> (deserialize_error, v4_message) result outcome" where
  "v4_parse_timestamp out_type code packet =
    obind (buf_get_be 2 packet) (\<lambda>(identifier, packet).
    obind (buf_get_be 2 packet) (\<lambda>(sequence_number, packet).
    obind (buf_get_be 4 packet) (\<lambda>(originate, packet).
    obind (buf_get_be 4 packet) (\<lambda>(receive, packet).
    obind (buf_get_be 4 packet) (\<lambda>(transmit, packet).
    Ret (Ok (out_type code (word_of_nat identifier) (word_of_nat sequence_number)
      (word_of_nat originate) (word_of_nat receive) (word_of_nat transmit))))))))"

definition v4_parse_information ::
  "(u8 \<Rightarrow> u16 \<Rightarrow> u16 \<Rightarrow> v4_message) \<Rightarrow> u8 \<Rightarrow> bytes
   \<Rightarrow> (deserialize_error, v4_message) result outcome" where
  "v4_parse_information out_type code packet =
    obind (buf_get_be 2 packet) (\<lambda>(identifier, packet).
    obind (buf_get_be 2 packet) (\<lambda>(sequence_number, packet).
    Ret (Ok (out_type code (word_of_nat identifier) (word_of_nat sequence_number)))))"

definition v4_deserialize :: "bytes \<Rightarrow> (deserialize_error, v4_message) result outcome" where
  "v4_deserialize packet =
    (case packet of
       [] \<Rightarrow> Ret (Err (InvalidLength ''Empty packet''))
     | type_id # packet \<Rightarrow>
         let quoted = LowerBound (ICMP_MIN_COMMON_HEADER_SIZE + ICMP_V4_MIN_MATCHING_DATA_SIZE) in
         if type_id = 0 then
           omap_ok V4EchoReply (deserialize_packet parse_echo packet (LowerBound ECHO_HEADER_SIZE))
         else if type_id = 3 then deserialize_packet v4_parse_destination_unreachable packet quoted
         else if type_id = 4 then deserialize_packet v4_parse_source_quench packet quoted
         else if type_id = 5 then deserialize_packet v4_parse_redirect packet quoted
         else if type_id = 8 then
           omap_ok V4Echo (deserialize_packet parse_echo packet (LowerBound ECHO_HEADER_SIZE))
         else if type_id = 11 then deserialize_packet v4_parse_time_exceeded packet quoted
         else if type_id = 12 then deserialize_packet v4_parse_parameter_problem packet quoted
         else if type_id = 13 then deserialize_packet (v4_parse_timestamp V4Timestamp) packet (Exact 20)
         else if type_id = 14 then deserialize_packet (v4_parse_timestamp V4TimestampReply) packet (Exact 20)
         else if type_id = 15 then deserialize_packet (v4_parse_information V4InformationRequest) packet (Exact 20)
         else if type_id = 16 then deserialize_packet (v4_parse_information V4InformationReply) packet (Exact 20)
         else Ret (Err (MessageType type_id)))"

fun v4_serialize :: "v4_message \<Rightarrow> bytes outcome" where
  "v4_serialize (V4Echo x) = Ret (echo_serialize x (v4_type_id (V4Echo x)))"
| "v4_serialize _ = Panic"

definition IPPROTO_ICMP :: nat where "IPPROTO_ICMP = 1"

text \<open>The echo request inside a quoted packet, after its IP header.\<close>

definition echo_of_payload :: "nat \<Rightarrow> nat \<Rightarrow> u8 \<Rightarrow> nat \<times> bytes \<Rightarrow> echo option outcome" where
  "echo_of_payload icmp_proto min_size echo_type x =
    (case x of (proto, payload) \<Rightarrow>
       if proto \<noteq> icmp_proto \<or> payload = [] then Ret None
       else
         obind (buf_get_u8 payload) (\<lambda>(type_id, payload).
         if type_id \<noteq> echo_type then Ret None
         else obind (deserialize_packet parse_echo payload (LowerBound min_size)) (\<lambda>r.
           case r of Inr e \<Rightarrow> Ret (Some e) | Inl _ \<Rightarrow> Ret None)))"

definition v4_echo_in :: "bytes \<Rightarrow> echo option outcome" where
  "v4_echo_in icmp_data =
    obind (skip_ipv4_header icmp_data) (\<lambda>r.
      case r of
        None \<Rightarrow> Ret None
      | Some x \<Rightarrow> echo_of_payload IPPROTO_ICMP ECHO_HEADER_SIZE 8 x)"

fun v4_responded_echo_request :: "v4_message \<Rightarrow> echo option outcome" where
  "v4_responded_echo_request (V4DestinationUnreachable _ d) = v4_echo_in d"
| "v4_responded_echo_request (V4TimeExceeded _ d) = v4_echo_in d"
| "v4_responded_echo_request (V4ParameterProblem _ _ d) = v4_echo_in d"
| "v4_responded_echo_request (V4SourceQuench _ d) = v4_echo_in d"
| "v4_responded_echo_request (V4Redirect _ _ d) = v4_echo_in d"
| "v4_responded_echo_request (V4EchoReply x) = Ret (Some x)"
| "v4_responded_echo_request _ = Ret None"

section \<open>ICMPv6\<close>

datatype v6_message =
    V6DestinationUnreachable u8 bytes
  | V6PacketTooBig u8 u32 bytes
  | V6TimeExceeded u8 bytes
  | V6ParameterProblem u8 u32 bytes
  | V6EchoRequest echo
  | V6EchoReply echo

fun v6_type_id :: "v6_message \<Rightarrow> u8" where
  "v6_type_id (V6DestinationUnreachable _ _) = 1"
| "v6_type_id (V6PacketTooBig _ _ _) = 2"
| "v6_type_id (V6TimeExceeded _ _) = 3"
| "v6_type_id (V6ParameterProblem _ _ _) = 4"
| "v6_type_id (V6EchoRequest _) = 128"
| "v6_type_id (V6EchoReply _) = 129"

fun v6_code :: "v6_message \<Rightarrow> u8" where
  "v6_code (V6DestinationUnreachable code _) = code"
| "v6_code (V6PacketTooBig code _ _) = code"
| "v6_code (V6TimeExceeded code _) = code"
| "v6_code (V6ParameterProblem code _ _) = code"
| "v6_code (V6EchoRequest x) = echo_code x"
| "v6_code (V6EchoReply x) = echo_code x"

fun v6_len :: "v6_message \<Rightarrow> nat" where
  "v6_len (V6DestinationUnreachable _ d) = ICMP_MIN_COMMON_HEADER_SIZE + length d"
| "v6_len (V6PacketTooBig _ _ d) = ICMP_MIN_COMMON_HEADER_SIZE + length d"
| "v6_len (V6TimeExceeded _ d) = ICMP_MIN_COMMON_HEADER_SIZE + length d"
| "v6_len (V6ParameterProblem _ _ d) = ICMP_MIN_COMMON_HEADER_SIZE + length d"
| "v6_len (V6EchoRequest x) = ICMP_MIN_COMMON_HEADER_SIZE + length (echo_data x)"
| "v6_len (V6EchoReply x) = ICMP_MIN_COMMON_HEADER_SIZE + length (echo_data x)"

definition v6_parse_destination_unreachable ::
  "u8 \<Rightarrow> bytes \<Rightarrow> (deserialize_error, v6_message) result outcome" where
  "v6_parse_destination_unreachable code packet =
    (if code = 0 \<or> code = 1 \<or> code = 2 \<or> code = 3 \<or> code = 4 \<or> code = 5 \<or> code = 6 then
       obind (split_off 4 packet) (\<lambda>data. Ret (Ok (V6DestinationUnreachable code data)))
     else Ret (Err (DestinationUnreachableCode code)))"

definition v6_parse_packet_too_big :: "u8 \<Rightarrow> bytes \<Rightarrow> (deserialize_error, v6_message) result outcome" where
  "v6_parse_packet_too_big code packet =
    obind (buf_get_be 4 packet) (\<lambda>(mtu, packet). Ret (Ok (V6PacketTooBig code (word_of_nat mtu) packet)))"

definition v6_parse_time_exceeded :: "u8 \<Rightarrow> bytes \<Rightarrow> (deserialize_error, v6_message) result outcome" where
  "v6_parse_time_exceeded code packet =
    (if code = 0 \<or> code = 1 then
       obind (split_off 4 packet) (\<lambda>data. Ret (Ok (V6TimeExceeded code data)))
     else Ret (Err (TimeExceededCode code)))"

definition v6_parse_parameter_problem :: "u8 \<Rightarrow> bytes \<Rightarrow> (deserialize_error, v6_message) result outcome" where
  "v6_parse_parameter_problem code packet =
    obind (buf_get_be 4 packet) (\<lambda>(pointer, packet).
    Ret (Ok (V6ParameterProblem code (word_of_nat pointer) packet)))"

definition v6_deserialize :: "bytes \<Rightarrow> (deserialize_error, v6_message) result outcome" where
  "v6_deserialize packet =
    (case packet of
       [] \<Rightarrow> Ret (Err (InvalidLength ''Empty packet''))
     | type_id # packet \<Rightarrow>
         let quoted = LowerBound (ICMP_MIN_COMMON_HEADER_SIZE + MIN_IPV6_HEADER_SIZE) in
         if type_id = 1 then deserialize_packet v6_parse_destination_unreachable packet quoted
         else if type_id = 2 then deserialize_packet v6_parse_packet_too_big packet quoted
         else if type_id = 3 then deserialize_packet v6_parse_time_exceeded packet quoted
         else if type_id = 4 then deserialize_packet v6_parse_parameter_problem packet quoted
         else if type_id = 128 then
           omap_ok V6EchoRequest (deserialize_packet parse_echo packet (LowerBound ICMP_MIN_COMMON_HEADER_SIZE))
         else if type_id = 129 then
           omap_ok V6EchoReply (deserialize_packet parse_echo packet (LowerBound ICMP_MIN_COMMON_HEADER_SIZE))
         else Ret (Err (MessageType type_id)))"

fun v6_serialize :: "v6_message \<Rightarrow> bytes outcome" where
  "v6_serialize (V6EchoRequest x) = Ret (echo_serialize x (v6_type_id (V6EchoRequest x)))"
| "v6_serialize _ = Panic"

definition IPPROTO_ICMPV6 :: nat where "IPPROTO_ICMPV6 = 58"

definition v6_echo_in :: "bytes \<Rightarrow> echo option outcome" where
  "v6_echo_in icmp_data =
    obind (skip_ipv6_header icmp_data) (\<lambda>r.
      case r of
        None \<Rightarrow> Ret None
      | Some x \<Rightarrow> echo_of_payload IPPROTO_ICMPV6 ICMP_MIN_COMMON_HEADER_SIZE 128 x)"

fun v6_responded_echo_request :: "v6_message \<Rightarrow> echo option outcome" where
  "v6_responded_echo_request (V6DestinationUnreachable _ d) = v6_echo_in d"
| "v6_responded_echo_request (V6PacketTooBig _ _ d) = v6_echo_in d"
| "v6_responded_echo_request (V6TimeExceeded _ d) = v6_echo_in d"
| "v6_responded_echo_request (V6ParameterProblem _ _ d) = v6_echo_in d"
| "v6_responded_echo_request (V6EchoRequest _) = Ret None"
| "v6_responded_echo_request (V6EchoReply x) = Ret (Some x)"

section \<open>Messages of both versions\<close>

datatype icmp_message = IcmpV4 v4_message | IcmpV6 v6_message

fun icmp_serialize :: "icmp_message \<Rightarrow> bytes outcome" where
  "icmp_serialize (IcmpV4 x) = v4_serialize x"
| "icmp_serialize (IcmpV6 x) = v6_serialize x"

fun to_echo :: "icmp_message \<Rightarrow> echo option" where
  "to_echo (IcmpV4 (V4Echo x)) = Some x"
| "to_echo (IcmpV4 (V4EchoReply x)) = Some x"
| "to_echo (IcmpV6 (V6EchoRequest x)) = Some x"
| "to_echo (IcmpV6 (V6EchoReply x)) = Some x"
| "to_echo _ = None"

fun responded_echo_request :: "icmp_message \<Rightarrow> echo option outcome" where
  "responded_echo_request (IcmpV4 x) = v4_responded_echo_request x"
| "responded_echo_request (IcmpV6 x) = v6_responded_echo_request x"

fun icmp_type_id :: "icmp_message \<Rightarrow> u8" where
  "icmp_type_id (IcmpV4 x) = v4_type_id x"
| "icmp_type_id (IcmpV6 x) = v6_type_id x"

fun icmp_code :: "icmp_message \<Rightarrow> u8" where
  "icmp_code (IcmpV4 x) = v4_code x"
| "icmp_code (IcmpV6 x) = v6_code x"

fun icmp_len :: "icmp_message \<Rightarrow> nat" where
  "icmp_len (IcmpV4 x) = v4_len x"
| "icmp_len (IcmpV6 x) = v6_len x"


section \<open>Parsing: lemmas\<close>

lemma split_off_Ret [simp]: "n \<le> length b \<Longrightarrow> split_off n b = Ret (drop n b)"
  by (simp add: split_off_def)

lemma omap_ok_Ret [simp]:
  "omap_ok f (Ret (Inr y)) = Ret (Inr (f y))" "omap_ok f (Ret (Inl e)) = Ret (Inl e)"
  by (simp_all add: omap_ok_def)

lemma omap_ok_eq_Panic: "omap_ok f r = Panic \<longleftrightarrow> r = Panic"
  by (cases r) (simp_all add: omap_ok_def)

lemma omap_ok_eq_Ok: "omap_ok f r = Ret (Inr m) \<longleftrightarrow> (\<exists>y. r = Ret (Inr y) \<and> m = f y)"
  by (cases r) (auto simp: omap_ok_def split: sum.splits)

lemma deserialize_packet_parse:
  "length c = 2 \<Longrightarrow> length rest + 4 \<ge> n \<Longrightarrow>
    deserialize_packet func (code # c @ rest) (LowerBound n) = func code rest"
  by (simp add: deserialize_packet_def Let_def icmp_sizes)

lemma deserialize_packet_Panic:
  assumes "deserialize_packet func packet check = Panic"
    and "(\<exists>n. check = LowerBound n \<and> 4 \<le> n) \<or> (\<exists>n. check = Exact n \<and> 4 \<le> n)"
  shows "\<exists>code. func code (drop 3 packet) = Panic \<and>
    (case check of LowerBound n \<Rightarrow> n \<le> length packet + 1 | Exact n \<Rightarrow> n = length packet + 1)"
proof (cases packet)
  case Nil
  with assms show ?thesis by (auto simp: deserialize_packet_def Let_def)
next
  case (Cons code rest)
  with assms show ?thesis
    by (auto simp: deserialize_packet_def Let_def icmp_sizes split_off_def split: if_splits
        length_check.splits)
qed

lemma deserialize_packet_Ok:
  assumes "deserialize_packet func packet check = Ret (Inr m)"
  shows "func (packet ! 0) (drop 3 packet) = Ret (Inr m) \<and> 3 \<le> length packet \<and>
    (case check of LowerBound n \<Rightarrow> n \<le> length packet + 1 | Exact n \<Rightarrow> n = length packet + 1)"
proof (cases packet)
  case Nil
  with assms show ?thesis
    by (auto simp: deserialize_packet_def Let_def split: length_check.splits if_splits)
next
  case (Cons code rest)
  with assms show ?thesis
    by (auto simp: deserialize_packet_def Let_def icmp_sizes split_off_def split: if_splits
        length_check.splits)
qed

lemma parse_echo_Ret:
  "4 \<le> length packet \<Longrightarrow> parse_echo code packet = Ret (Inr \<lparr>echo_code = code,
    echo_identifier = word_of_nat (of_be (take 2 packet)),
    echo_sequence_number = word_of_nat (of_be (take 2 (drop 2 packet))), echo_data = drop 4 packet\<rparr>)"
  by (simp add: parse_echo_def)

lemmas v4_parse_defs = v4_parse_destination_unreachable_def v4_parse_source_quench_def
  v4_parse_redirect_def v4_parse_time_exceeded_def v4_parse_parameter_problem_def
  v4_parse_timestamp_def v4_parse_information_def

lemmas v6_parse_defs = v6_parse_destination_unreachable_def v6_parse_packet_too_big_def
  v6_parse_time_exceeded_def v6_parse_parameter_problem_def

lemma v4_parsers_total:
  assumes "4 \<le> length packet"
  shows "v4_parse_destination_unreachable code packet \<noteq> Panic"
    "v4_parse_source_quench code packet \<noteq> Panic" "v4_parse_redirect code packet \<noteq> Panic"
    "v4_parse_time_exceeded code packet \<noteq> Panic"
    "v4_parse_information i code packet \<noteq> Panic" "parse_echo code packet \<noteq> Panic"
  using assms by (simp_all add: v4_parse_defs parse_echo_Ret)

lemma v4_parse_parameter_problem_total:
  "4 \<le> length packet \<Longrightarrow> v4_parse_parameter_problem code packet \<noteq> Panic"
  by (cases packet) (simp_all add: v4_parse_parameter_problem_def)

lemma v4_parse_timestamp_total: "16 \<le> length packet \<Longrightarrow> v4_parse_timestamp t code packet \<noteq> Panic"
  by (simp add: v4_parse_timestamp_def)

lemma v6_parsers_total:
  assumes "4 \<le> length packet"
  shows "v6_parse_destination_unreachable code packet \<noteq> Panic"
    "v6_parse_packet_too_big code packet \<noteq> Panic" "v6_parse_time_exceeded code packet \<noteq> Panic"
    "v6_parse_parameter_problem code packet \<noteq> Panic"
  using assms by (simp_all add: v6_parse_defs)

lemma deserialize_packet_total:
  assumes "\<And>code packet. k \<le> length packet \<Longrightarrow> func code packet \<noteq> Panic"
    and "check = LowerBound n \<or> check = Exact n" and "k + 4 \<le> n"
  shows "deserialize_packet func packet check \<noteq> Panic"
proof
  assume p: "deserialize_packet func packet check = Panic"
  with assms(2,3) deserialize_packet_Panic [OF p] obtain code
    where "func code (drop 3 packet) = Panic" and "n \<le> length packet + 1" by auto
  moreover from this(2) assms(3) have "k \<le> length (drop 3 packet)" by simp
  ultimately show False using assms(1) by blast
qed

lemma v4_deserialize_total: "v4_deserialize p \<noteq> Panic"
proof (cases p)
  case (Cons ty q)
  have quoted: "deserialize_packet f q (LowerBound 36) \<noteq> Panic"
    if "\<And>code packet. 4 \<le> length packet \<Longrightarrow> f code packet \<noteq> Panic"
    for f :: "u8 \<Rightarrow> bytes \<Rightarrow> (deserialize_error, v4_message) result outcome"
    by (rule deserialize_packet_total [where n = 36 and k = 4]) (simp_all add: that)
  have ech: "deserialize_packet parse_echo q (LowerBound 8) \<noteq> Panic"
    by (rule deserialize_packet_total [where n = 8 and k = 4]) (simp_all add: v4_parsers_total)
  have ts: "deserialize_packet (v4_parse_timestamp t) q (Exact 20) \<noteq> Panic" for t
    by (rule deserialize_packet_total [where n = 20 and k = 16]) (simp_all add: v4_parse_timestamp_total)
  have info: "deserialize_packet (v4_parse_information i) q (Exact 20) \<noteq> Panic" for i
    by (rule deserialize_packet_total [where n = 20 and k = 4]) (simp_all add: v4_parsers_total)
  show ?thesis
    unfolding Cons v4_deserialize_def Let_def
    by (simp add: icmp_sizes omap_ok_eq_Panic ech ts info quoted v4_parsers_total
        v4_parse_parameter_problem_total)
qed (simp add: v4_deserialize_def)

lemma v6_deserialize_total: "v6_deserialize p \<noteq> Panic"
proof (cases p)
  case (Cons ty q)
  have quoted: "deserialize_packet f q (LowerBound 48) \<noteq> Panic"
    if "\<And>code packet. 4 \<le> length packet \<Longrightarrow> f code packet \<noteq> Panic"
    for f :: "u8 \<Rightarrow> bytes \<Rightarrow> (deserialize_error, v6_message) result outcome"
    by (rule deserialize_packet_total [where n = 48 and k = 4]) (simp_all add: that)
  have ech: "deserialize_packet parse_echo q (LowerBound 8) \<noteq> Panic"
    by (rule deserialize_packet_total [where n = 8 and k = 4]) (simp_all add: v4_parsers_total)
  show ?thesis
    unfolding Cons v6_deserialize_def Let_def
    by (simp add: icmp_sizes omap_ok_eq_Panic ech quoted v6_parsers_total)
qed (simp add: v6_deserialize_def)


lemma parse_echo_Ok:
  "parse_echo code packet = Ret (Inr e) \<Longrightarrow> echo_code e = code \<and> length packet = 4 + length (echo_data e)"
  by (auto simp: parse_echo_def obind_eq_Ret buf_get_be_def split: if_splits)

lemma v6_deserialize_fields:
  assumes "v6_deserialize p = Ret (Inr m)"
  shows "v6_type_id m = p ! 0 \<and> v6_code m = p ! 1 \<and> v6_len m = length p"
proof (cases p)
  case Nil
  with assms show ?thesis by (simp add: v6_deserialize_def)
next
  case (Cons ty q)
  with assms show ?thesis
    by (auto simp: v6_deserialize_def Let_def icmp_sizes omap_ok_eq_Ok v6_parse_defs obind_eq_Ret
        split_off_def buf_get_be_def split: if_splits dest!: deserialize_packet_Ok parse_echo_Ok)
qed

fun is_information :: "v4_message \<Rightarrow> bool" where
  "is_information (V4InformationRequest _ _ _) = True"
| "is_information (V4InformationReply _ _ _) = True"
| "is_information _ = False"

lemma length_of_drop: "drop n xs = y # ys \<Longrightarrow> length xs = n + 1 + length ys"
  by (drule arg_cong [where f = length]) simp

lemma v4_deserialize_fields:
  assumes "v4_deserialize p = Ret (Inr m)"
  shows "v4_type_id m = p ! 0 \<and> v4_code m = p ! 1
    \<and> length p = v4_len m + (if is_information m then 12 else 0)"
proof (cases p)
  case Nil
  with assms show ?thesis by (simp add: v4_deserialize_def)
next
  case (Cons ty q)
  with assms show ?thesis
    by (auto simp: v4_deserialize_def Let_def icmp_sizes omap_ok_eq_Ok v4_parse_defs obind_eq_Ret
        split_off_def buf_get_be_def buf_get_u8_def
        split: if_splits list.splits dest!: deserialize_packet_Ok parse_echo_Ok length_of_drop)
qed


section \<open>Echo messages: lemmas\<close>

lemma echo_serialize_eq:
  "\<exists>c. length c = 2 \<and> echo_serialize e ty =
    ty # 0 # c @ to_be 2 (unat (echo_identifier e)) @ to_be 2 (unat (echo_sequence_number e)) @ echo_data e"
  by (simp add: echo_serialize_def Let_def to_be_eval)

lemma length_echo_serialize [simp]: "length (echo_serialize e ty) = 8 + length (echo_data e)"
  using echo_serialize_eq [of e ty] by auto

lemma u16_fields:
  "of_be (to_be 2 (unat (x :: u16))) = unat x" "word_of_nat (unat x) = x"
  using unsigned_less [of x, where ?'a = nat] by simp_all

lemma parse_echo_fields:
  "parse_echo code (to_be 2 (unat i) @ to_be 2 (unat s) @ d) =
    Ret (Inr \<lparr>echo_code = code, echo_identifier = i, echo_sequence_number = s, echo_data = d\<rparr>)"
  by (simp add: parse_echo_Ret u16_fields)

lemma deserialize_echo_prefix:
  assumes "8 \<le> n"
  shows "take n (echo_serialize e ty) = ty # tl (take n (echo_serialize e ty)) \<and>
    deserialize_packet parse_echo (tl (take n (echo_serialize e ty))) (LowerBound 8) =
      Ret (Inr \<lparr>echo_code = 0, echo_identifier = echo_identifier e,
        echo_sequence_number = echo_sequence_number e, echo_data = take (n - 8) (echo_data e)\<rparr>)"
proof -
  obtain c where c: "length c = 2" and s: "echo_serialize e ty =
      ty # 0 # c @ to_be 2 (unat (echo_identifier e)) @ to_be 2 (unat (echo_sequence_number e)) @ echo_data e"
    using echo_serialize_eq by blast
  let ?pre = "ty # 0 # c @ to_be 2 (unat (echo_identifier e)) @ to_be 2 (unat (echo_sequence_number e))"
  have "length ?pre = 8" using c by simp
  then have "take n (?pre @ echo_data e) = ?pre @ take (n - 8) (echo_data e)"
    using assms take_append [of n ?pre "echo_data e"] by (simp only: take_all)
  then have t: "take n (echo_serialize e ty) = ty # 0 # c @ to_be 2 (unat (echo_identifier e))
      @ to_be 2 (unat (echo_sequence_number e)) @ take (n - 8) (echo_data e)"
    unfolding s by simp
  show ?thesis
    unfolding t using c by (simp add: deserialize_packet_parse parse_echo_fields)
qed

lemma echo_eq_prefix:
  "echo_eq \<lparr>echo_code = code, echo_identifier = echo_identifier e,
      echo_sequence_number = echo_sequence_number e, echo_data = take n (echo_data e)\<rparr> e"
  by (auto simp: echo_eq_def bytes_starts_with_def min_def)

lemma echo_of_payload_prefix:
  assumes "8 \<le> n"
  shows "echo_of_payload proto 8 ty (proto, take n (echo_serialize e ty)) =
    Ret (Some \<lparr>echo_code = 0, echo_identifier = echo_identifier e,
        echo_sequence_number = echo_sequence_number e, echo_data = take (n - 8) (echo_data e)\<rparr>)"
proof -
  obtain q where "take n (echo_serialize e ty) = ty # q"
    and "deserialize_packet parse_echo q (LowerBound 8) =
      Ret (Inr \<lparr>echo_code = 0, echo_identifier = echo_identifier e,
        echo_sequence_number = echo_sequence_number e, echo_data = take (n - 8) (echo_data e)\<rparr>)"
    using deserialize_echo_prefix [OF assms, of e ty] by blast
  then show ?thesis by (simp add: echo_of_payload_def)
qed

section \<open>Checksums of echo messages: lemmas\<close>

lemma fold_carries_mod: "fold_carries s mod 65535 = s mod 65535 \<and> fold_carries s < 65536
    \<and> (fold_carries s = 0 \<longleftrightarrow> s = 0)"
proof (induction s rule: fold_carries.induct)
  case (1 s)
  show ?case
  proof (cases "s < 65536")
    case True
    then show ?thesis by (simp add: fold_carries.simps [of s])
  next
    case False
    have "s = 65535 * (s div 65536) + (s div 65536 + s mod 65536)"
      using div_mult_mod_eq [of s 65536] by linarith
    then have "s mod 65535 = (s div 65536 + s mod 65536) mod 65535"
      by (metis mod_mult_self4)
    moreover have "s div 65536 + s mod 65536 \<noteq> 0" using False by (simp add: div_eq_0_iff)
    moreover have "fold_carries s = fold_carries (s div 65536 + s mod 65536)"
      using False by (subst fold_carries.simps) (simp only: if_False)
    ultimately show ?thesis using 1(1) [OF False] False by simp
  qed
qed

lemma fold_carries_full: "0 < s \<Longrightarrow> s mod 65535 = 0 \<Longrightarrow> fold_carries s = 65535"
proof -
  assume "0 < s" and "s mod 65535 = 0"
  then have "fold_carries s mod 65535 = 0" "fold_carries s < 65536" "fold_carries s \<noteq> 0"
    using fold_carries_mod [of s] by simp_all
  then obtain k where "fold_carries s = 65535 * k" by (auto elim: dvdE)
  with \<open>fold_carries s < 65536\<close> \<open>fold_carries s \<noteq> 0\<close> show ?thesis by auto
qed

lemma echo_checksum_sum:
  fixes ty :: u8
  assumes "length (echo_data e) \<le> 65528"
  defines "s \<equiv> word_sum (ty # 0 # 0 # 0 # to_be 2 (unat (echo_identifier e))
    @ to_be 2 (unat (echo_sequence_number e)) @ echo_data e)"
  shows "word_sum (echo_serialize e ty) = s + (65535 - (s div 65536 + s mod 65536) mod 65536)"
proof -
  let ?q = "to_be 2 (unat (echo_identifier e)) @ to_be 2 (unat (echo_sequence_number e)) @ echo_data e"
  let ?p = "ty # 0 # 0 # 0 # ?q"
  define c where "c = unat (rfc1071_checksum ?p)"
  have c: "c = 65535 - (s div 65536 + s mod 65536) mod 65536"
    using rfc1071_checksum_value [of ?p] assms by (simp add: c_def)
  have ser: "echo_serialize e ty = ty # 0 # to_be 2 c @ ?q"
    by (simp add: echo_serialize_def Let_def to_be_eval c_def)
  have "c < 65536" by (simp add: c)
  then have "256 * unat (word_of_nat (c div 256) :: u8) + unat (word_of_nat c :: u8) = c"
    by (simp add: unat_of_nat_byte)
  then have "word_sum (echo_serialize e ty) = s + c"
    unfolding ser s_def by (simp add: to_be_eval)
  then show ?thesis by (simp only: c)
qed

section \<open>Properties\<close>



text \<open>
  an error message that quotes one of our echo requests, after an IPv4 header with any options
  or a plain IPv6 header and cut anywhere after the eight header bytes, is matched with a request
  that is equal to the original in the sense of the code's comparison.
\<close>

theorem quoted_echo_is_found:
  assumes "length h4 = 4 * (unat (h4 ! 0) mod 16)" and "20 \<le> length h4" and "h4 ! 9 = 1"
    and "length h6 = 40" and "h6 ! 6 = 58" and "8 \<le> n"
  shows "\<exists>e4 e6. responded_echo_request (IcmpV4 (V4TimeExceeded c (h4 @ take n (echo_serialize e 8)))) =
      Ret (Some e4) \<and> echo_eq e4 e \<and>
    responded_echo_request (IcmpV6 (V6TimeExceeded c (h6 @ take n (echo_serialize e 128)))) =
      Ret (Some e6) \<and> echo_eq e6 e"
proof -
  have "skip_ipv4_header (h4 @ take n (echo_serialize e 8)) = Ret (Some (1, take n (echo_serialize e 8)))"
    using assms(1-3) by (simp add: skip_ipv4_header_eq Let_def nth_append)
  moreover have "skip_ipv6_header (h6 @ take n (echo_serialize e 128)) = Ret (Some (58, take n (echo_serialize e 128)))"
    using assms(5) by (simp add: skip_ipv6_header_eq [OF assms(4)] skip_ipv6_extensions_plain)
  ultimately show ?thesis
    using echo_of_payload_prefix [OF assms(6), of _ _ e] echo_eq_prefix
    by (simp add: v4_echo_in_def v6_echo_in_def IPPROTO_ICMP_def IPPROTO_ICMPV6_def icmp_sizes)
qed

theorem quoted_echo_is_found_witness:
  "\<exists>h4 e4. length h4 = 24 \<and>
     responded_echo_request (IcmpV4 (V4TimeExceeded 0 (h4 @ take 8 (echo_serialize
       \<lparr>echo_code = 0, echo_identifier = 5, echo_sequence_number = 6, echo_data = [1, 2]\<rparr> 8)))) = Ret (Some e4) \<and>
     echo_eq e4 \<lparr>echo_code = 0, echo_identifier = 5, echo_sequence_number = 6, echo_data = [1, 2]\<rparr>"
proof -
  let ?h4 = "(replicate 24 0) [0 := 0x46, 9 := 1] :: bytes"
  let ?h6 = "(replicate 40 0) [6 := 58] :: bytes"
  have "length ?h4 = 4 * (unat (?h4 ! 0) mod 16)" "20 \<le> length ?h4" "?h4 ! 9 = 1"
    "length ?h6 = 40" "?h6 ! 6 = 58" "8 \<le> (8 :: nat)" by simp_all
  from quoted_echo_is_found [OF this, of 0
      "\<lparr>echo_code = 0, echo_identifier = 5, echo_sequence_number = 6, echo_data = [1, 2]\<rparr>"]
  show ?thesis by (intro exI [of _ ?h4]) fastforce
qed

text \<open>
  C39: one ICMPv6 error message from the network stops the endpoint: the parser accepts it, and the
  search for the echo request it answers panics, when the quoted packet has an extension header
  that claims more bytes than follow.
\<close>

lemma icmpv6_error_panics:
  assumes "length h6 = 40" and "unat (h6 ! 6) \<in> {0, 43, 60}" and "length rest < unat ext_length"
  shows "\<exists>m. v6_deserialize ([1, 0, 0, 0] @ replicate 4 0 @ h6 @ nxt # ext_length # rest) = Ret (Ok m) \<and>
    responded_echo_request (IcmpV6 m) = Panic"
proof (intro exI conjI)
  let ?m = "V6DestinationUnreachable 0 (h6 @ nxt # ext_length # rest)"
  show "v6_deserialize ([1, 0, 0, 0] @ replicate 4 0 @ h6 @ nxt # ext_length # rest) = Ret (Ok ?m)"
    using assms(1) by (simp add: v6_deserialize_def deserialize_packet_def
        v6_parse_destination_unreachable_def icmp_sizes)
  show "responded_echo_request (IcmpV6 ?m) = Panic"
    using skip_ipv6_header_overrun [OF assms] by (simp add: v6_echo_in_def)
qed

theorem icmpv6_error_panics_witness:
  "\<exists>m. v6_deserialize ([1, 0, 0, 0] @ replicate 4 0 @ replicate 40 0 @ [58, 8, 0, 0]) = Ret (Ok m) \<and>
    responded_echo_request (IcmpV6 m) = Panic"
  by (rule icmpv6_error_panics) simp_all

text \<open>
  a serialised echo request parses back to itself (with code 0) and carries a valid RFC 1071
  checksum whenever folding the carries of its sum once is enough.
\<close>

theorem echo_request_roundtrip:
  assumes "length (echo_data e) \<le> 65528"
  defines "s \<equiv> word_sum (8 # 0 # 0 # 0 # to_be 2 (unat (echo_identifier e))
    @ to_be 2 (unat (echo_sequence_number e)) @ echo_data e)"
  shows "\<exists>p. icmp_serialize (IcmpV4 (V4Echo e)) = Ret p \<and>
    v4_deserialize p = Ret (Ok (V4Echo (e\<lparr>echo_code := 0\<rparr>))) \<and>
    (s div 65536 + s mod 65536 < 65536 \<longrightarrow> rfc1071_reference p = 0)"
proof -
  let ?p = "echo_serialize e 8"
  have e: "\<lparr>echo_code = 0, echo_identifier = echo_identifier e, echo_sequence_number = echo_sequence_number e,
      echo_data = echo_data e\<rparr> = e\<lparr>echo_code := 0\<rparr>" by (cases e) simp
  obtain q where "?p = 8 # q" and "deserialize_packet parse_echo q (LowerBound 8) = Ret (Inr (e\<lparr>echo_code := 0\<rparr>))"
    using deserialize_echo_prefix [of "length ?p" e 8] by (auto simp: e)
  then have "v4_deserialize ?p = Ret (Ok (V4Echo (e\<lparr>echo_code := 0\<rparr>)))"
    by (simp add: v4_deserialize_def icmp_sizes)
  moreover have "rfc1071_reference ?p = 0" if t: "s div 65536 + s mod 65536 < 65536"
  proof -
    define t where "t = s div 65536 + s mod 65536"
    have "s = 65535 * (s div 65536) + t"
      using div_mult_mod_eq [of s 65536] unfolding t_def by linarith
    moreover have "word_sum ?p = s + (65535 - t)"
      using echo_checksum_sum [OF assms(1), of 8] t by (simp add: s_def t_def)
    moreover have "t < 65536" using t by (simp add: t_def)
    ultimately have "word_sum ?p = 65535 * (s div 65536 + 1)" by (simp add: algebra_simps)
    then have "fold_carries (word_sum ?p) = 65535" by (intro fold_carries_full) simp_all
    then show ?thesis by (simp add: rfc1071_reference_def)
  qed
  ultimately show ?thesis by simp
qed

theorem echo_request_roundtrip_witness:
  "\<exists>p. icmp_serialize (IcmpV4 (V4Echo \<lparr>echo_code = 0, echo_identifier = 1, echo_sequence_number = 2,
      echo_data = [7]\<rparr>)) = Ret p \<and> rfc1071_reference p = 0"
  using echo_request_roundtrip [of "\<lparr>echo_code = 0, echo_identifier = 1, echo_sequence_number = 2,
      echo_data = [7]\<rparr>"] by (simp add: to_be_eval)

end
