(* ===== verification/Icmp_Codec.thy ===== *)
theory Icmp_Codec
  imports Datagram_Codec Icmp_Utils
begin

text \<open>
  The ICMP multiplexer codec, \<^verbatim>\<open>lib/src/http_icmp_codec.rs\<close>. Requests have a fixed size, so the
  decoder only buffers an incomplete request. The payload of the echo request it builds is filled
  by the system's random number generator, which is the parameter \<open>fill\<close>: from a state of the
  generator and a length it gives the bytes and the next state, or fails.
\<close>

section \<open>Layout\<close>

definition ICMPPKT_ID_SIZE :: nat where "ICMPPKT_ID_SIZE = 2"
definition ICMPPKT_ADDR_SIZE :: nat where "ICMPPKT_ADDR_SIZE = 16"
definition ICMPPKT_SEQNO_SIZE :: nat where "ICMPPKT_SEQNO_SIZE = 2"
definition ICMPPKT_TTL_SIZE :: nat where "ICMPPKT_TTL_SIZE = 1"
definition ICMPPKT_DATA_SIZE :: nat where "ICMPPKT_DATA_SIZE = 2"
definition ICMPPKT_TYPE_SIZE :: nat where "ICMPPKT_TYPE_SIZE = 1"
definition ICMPPKT_CODE_SIZE :: nat where "ICMPPKT_CODE_SIZE = 1"
definition ICMPPKT_REQ_SIZE :: nat where
  "ICMPPKT_REQ_SIZE = ICMPPKT_ID_SIZE + ICMPPKT_ADDR_SIZE + ICMPPKT_SEQNO_SIZE + ICMPPKT_TTL_SIZE
     + ICMPPKT_DATA_SIZE"
definition ICMPPKT_REPLY_SIZE :: nat where
  "ICMPPKT_REPLY_SIZE = ICMPPKT_ID_SIZE + ICMPPKT_ADDR_SIZE + ICMPPKT_TYPE_SIZE + ICMPPKT_CODE_SIZE
     + ICMPPKT_SEQNO_SIZE"

lemma icmppkt_sizes: "ICMPPKT_REQ_SIZE = 23" "ICMPPKT_REPLY_SIZE = 22"
  by (simp_all add: ICMPPKT_REQ_SIZE_def ICMPPKT_REPLY_SIZE_def ICMPPKT_ID_SIZE_def ICMPPKT_ADDR_SIZE_def
      ICMPPKT_SEQNO_SIZE_def ICMPPKT_TTL_SIZE_def ICMPPKT_DATA_SIZE_def ICMPPKT_TYPE_SIZE_def
      ICMPPKT_CODE_SIZE_def)

record client_icmp_datagram =
  ci_peer :: ip_addr
  ci_message :: icmp_message
  ci_ttl :: u8

record icmp_datagram =
  id_peer :: ip_addr
  id_message :: icmp_message

section \<open>Decoder\<close>

type_synonym 'g fill_fun = "'g \<Rightarrow> nat \<Rightarrow> (bytes \<times> 'g) option"

record 'g icmp_decoder =
  ic_buffer :: bytes
  ic_rng :: 'g

definition icmp_decoder_new :: "'g \<Rightarrow> 'g icmp_decoder" where
  "icmp_decoder_new g = \<lparr>ic_buffer = [], ic_rng = g\<rparr>"

definition on_message_chunk ::
  "'g icmp_decoder \<Rightarrow> bytes \<Rightarrow> ('g icmp_decoder \<times> (bytes \<times> bytes) option) outcome" where
  "on_message_chunk self chunk =
    (if ic_buffer self \<noteq> [] \<or> length (ic_buffer self) + length chunk < ICMPPKT_REQ_SIZE then
       obind (usize_sub ICMPPKT_REQ_SIZE (length (ic_buffer self))) (\<lambda>space.
       let n = min (length chunk) space;
           buffer = ic_buffer self @ take n chunk;
           chunk = drop n chunk
       in if \<not> length buffer \<le> ICMPPKT_REQ_SIZE then Panic
          else if length buffer < ICMPPKT_REQ_SIZE then
            if chunk = [] then Ret (self\<lparr>ic_buffer := buffer\<rparr>, None) else Panic
          else Ret (self\<lparr>ic_buffer := []\<rparr>, Some (buffer, chunk)))
     else obind (buf_split_to ICMPPKT_REQ_SIZE chunk) (\<lambda>(raw, chunk). Ret (self, Some (raw, chunk))))"

definition icmp_decode_chunk ::
  "'g fill_fun \<Rightarrow> 'g icmp_decoder \<Rightarrow> bytes \<Rightarrow> ('g icmp_decoder \<times> client_icmp_datagram decode_result) outcome" where
  "icmp_decode_chunk fill self data =
    obind (on_message_chunk self data) (\<lambda>(self, r).
      case r of
        None \<Rightarrow> Ret (self, WantMore)
      | Some (raw, tail) \<Rightarrow>
          obind (buf_get_be 2 raw) (\<lambda>(identifier, raw).
          obind (get_fixed_size_ip raw) (\<lambda>(destination, raw).
          obind (buf_get_be 2 raw) (\<lambda>(sequence_number, raw).
          obind (buf_get_u8 raw) (\<lambda>(ttl, raw).
          obind (buf_get_be 2 raw) (\<lambda>(data_size, raw).
          case fill (ic_rng self) data_size of
            None \<Rightarrow> Panic
          | Some (data, g) \<Rightarrow>
              let echo = \<lparr>echo_code = 0, echo_identifier = word_of_nat identifier,
                          echo_sequence_number = word_of_nat sequence_number, echo_data = data\<rparr>
              in Ret (self\<lparr>ic_rng := g\<rparr>, Complete
                   \<lparr>ci_peer = destination,
                    ci_message = (case destination of V4 _ \<Rightarrow> IcmpV4 (V4Echo echo)
                                  | V6 _ \<Rightarrow> IcmpV6 (V6EchoRequest echo)),
                    ci_ttl = ttl\<rparr> tail)))))))"

section \<open>Encoder\<close>

definition icmp_encode_packet :: "icmp_datagram \<Rightarrow> bytes option outcome" where
  "icmp_encode_packet datagram =
    obind (responded_echo_request (id_message datagram)) (\<lambda>r.
      case r of
        None \<Rightarrow> Ret None
      | Some echo \<Rightarrow>
          let encoded = to_be 2 (unat (echo_identifier echo));
              encoded = put_fixed_size_ip encoded (id_peer datagram);
              encoded = encoded @ [icmp_type_id (id_message datagram)];
              encoded = encoded @ [icmp_code (id_message datagram)];
              encoded = encoded @ to_be 2 (unat (echo_sequence_number echo))
          in Ret (Some encoded))"

section \<open>The decoder as a chunk decoder\<close>

definition fill_total :: "'g fill_fun \<Rightarrow> bool" where
  "fill_total fill \<longleftrightarrow> (\<forall>g n. \<exists>bs g'. fill g n = Some (bs, g') \<and> length bs = n)"

definition icmp_admissible :: "'g fill_fun \<Rightarrow> 'g icmp_decoder \<Rightarrow> bytes \<Rightarrow> bool" where
  "icmp_admissible fill self data \<longleftrightarrow> fill_total fill \<and> length (ic_buffer self) < ICMPPKT_REQ_SIZE"

lemma on_message_chunk_eq:
  assumes "length (ic_buffer self) < ICMPPKT_REQ_SIZE"
  shows "on_message_chunk self chunk = Ret
    (if length (ic_buffer self) + length chunk < ICMPPKT_REQ_SIZE
     then (self\<lparr>ic_buffer := ic_buffer self @ chunk\<rparr>, None)
     else (self\<lparr>ic_buffer := []\<rparr>,
           Some (ic_buffer self @ take (ICMPPKT_REQ_SIZE - length (ic_buffer self)) chunk,
                 drop (ICMPPKT_REQ_SIZE - length (ic_buffer self)) chunk)))"
  using assms by (cases self) (auto simp: on_message_chunk_def Let_def min_def)

text \<open>What is read from a complete request.\<close>

definition request_datagram :: "'g fill_fun \<Rightarrow> 'g \<Rightarrow> bytes \<Rightarrow> client_icmp_datagram \<times> 'g" where
  "request_datagram fill g raw =
    (case icmp_decode_chunk fill \<lparr>ic_buffer = [], ic_rng = g\<rparr> raw of
       Ret (self, Complete d _) \<Rightarrow> (d, ic_rng self))"

lemma request_fields:
  assumes "length raw = 23"
  shows "\<exists>destination. buf_get_be 2 raw = Ret (of_be (take 2 raw), drop 2 raw)
    \<and> get_fixed_size_ip (drop 2 raw) = Ret (destination, drop 18 raw)
    \<and> buf_get_be 2 (drop 18 raw) = Ret (of_be (take 2 (drop 18 raw)), drop 20 raw)
    \<and> buf_get_u8 (drop 20 raw) = Ret (raw ! 20, drop 21 raw)
    \<and> buf_get_be 2 (drop 21 raw) = Ret (of_be (take 2 (drop 21 raw)), drop 23 raw)"
proof -
  have "drop 20 raw = raw ! 20 # drop 21 raw"
    using assms Cons_nth_drop_Suc [of 20 raw] by simp
  with assms show ?thesis by (simp add: get_fixed_size_ip_def wire_lengths)
qed

lemma icmp_decode_chunk_eq:
  assumes "icmp_admissible fill self data"
  shows "icmp_decode_chunk fill self data = Ret
    (if length (ic_buffer self) + length data < 23
     then (self\<lparr>ic_buffer := ic_buffer self @ data\<rparr>, WantMore)
     else let (d, g) = request_datagram fill (ic_rng self)
                (ic_buffer self @ take (23 - length (ic_buffer self)) data)
          in (\<lparr>ic_buffer = [], ic_rng = g\<rparr>, Complete d (drop (23 - length (ic_buffer self)) data)))"
proof (cases "length (ic_buffer self) + length data < 23")
  case True
  with assms show ?thesis
    by (simp add: icmp_admissible_def icmp_decode_chunk_def on_message_chunk_eq icmppkt_sizes)
next
  case False
  let ?raw = "ic_buffer self @ take (23 - length (ic_buffer self)) data"
  have buf: "length (ic_buffer self) < 23" using assms by (simp add: icmp_admissible_def icmppkt_sizes)
  then have len: "length ?raw = 23" using False by simp
  from request_fields [OF this] obtain destination where
    fields: "buf_get_be 2 ?raw = Ret (of_be (take 2 ?raw), drop 2 ?raw)"
      "get_fixed_size_ip (drop 2 ?raw) = Ret (destination, drop 18 ?raw)"
      "buf_get_be 2 (drop 18 ?raw) = Ret (of_be (take 2 (drop 18 ?raw)), drop 20 ?raw)"
      "buf_get_u8 (drop 20 ?raw) = Ret (?raw ! 20, drop 21 ?raw)"
      "buf_get_be 2 (drop 21 ?raw) = Ret (of_be (take 2 (drop 21 ?raw)), drop 23 ?raw)" by blast
  obtain bs g where fill: "fill (ic_rng self) (of_be (take 2 (drop 21 ?raw))) = Some (bs, g)"
    using assms unfolding icmp_admissible_def fill_total_def by blast
  have split: "on_message_chunk self data = Ret (self\<lparr>ic_buffer := []\<rparr>,
      Some (?raw, drop (23 - length (ic_buffer self)) data))"
    using on_message_chunk_eq [of self data] buf False by (simp add: icmppkt_sizes)
  have whole: "on_message_chunk \<lparr>ic_buffer = [], ic_rng = ic_rng self\<rparr> ?raw =
      Ret (\<lparr>ic_buffer = [], ic_rng = ic_rng self\<rparr>, Some (?raw, []))"
    using on_message_chunk_eq [of "\<lparr>ic_buffer = [], ic_rng = ic_rng self\<rparr>" ?raw] len by (simp add: icmppkt_sizes)
  have self: "self\<lparr>ic_buffer := [], ic_rng := g\<rparr> = \<lparr>ic_buffer = [], ic_rng = g\<rparr>"
    by (cases self) simp
  show ?thesis
    using False unfolding icmp_decode_chunk_def request_datagram_def split whole
    by (simp add: fields fill self Let_def del: drop_append take_append drop_drop nth_append)
qed

interpretation icmp: chunk_decoder "icmp_decode_chunk fill" "icmp_admissible fill" for fill
proof
  fix st :: "'a icmp_decoder" and xs ys :: bytes
  assume adm: "icmp_admissible fill st (xs @ ys)"
  show adm_xs: "icmp_admissible fill st xs" using adm by (simp add: icmp_admissible_def)
  have buf: "length (ic_buffer st) < 23" using adm by (simp add: icmp_admissible_def icmppkt_sizes)
  show "icmp_decode_chunk fill st (xs @ ys) = icmp_decode_chunk fill st' ys \<and> icmp_admissible fill st' ys"
    if "icmp_decode_chunk fill st xs = Ret (st', WantMore)" for st'
  proof -
    from that have st': "st' = st\<lparr>ic_buffer := ic_buffer st @ xs\<rparr>" "length (ic_buffer st) + length xs < 23"
      by (auto simp: icmp_decode_chunk_eq [OF adm_xs] Let_def split: if_splits prod.splits)
    then have adm': "icmp_admissible fill st' ys"
      using adm by (simp add: icmp_admissible_def icmppkt_sizes)
    note adm' = adm' [unfolded st'(1)]
    show ?thesis
      using st'(2) unfolding st'(1) icmp_decode_chunk_eq [OF adm] icmp_decode_chunk_eq [OF adm']
      by (simp add: adm' Let_def split: prod.splits)
  qed
  show "icmp_decode_chunk fill st (xs @ ys) = Ret (st', Complete d (tail @ ys))
      \<and> icmp_admissible fill st' (tail @ ys)"
    if "icmp_decode_chunk fill st xs = Ret (st', Complete d tail)" for st' d tail
    using that adm buf
    by (auto simp: icmp_decode_chunk_eq [OF adm_xs] icmp_decode_chunk_eq [OF adm] icmp_admissible_def
        icmppkt_sizes Let_def split: if_splits prod.splits)
next
  fix st :: "'a icmp_decoder" and data :: bytes
  assume adm: "icmp_admissible fill st data"
  show "\<exists>st' r. icmp_decode_chunk fill st data = Ret (st', r)"
    by (auto simp: icmp_decode_chunk_eq [OF adm] Let_def split: prod.splits)
next
  fix st :: "'a icmp_decoder"
  assume adm: "icmp_admissible fill st []"
  then show "icmp_decode_chunk fill st [] = Ret (st, WantMore)"
    by (simp add: icmp_decode_chunk_eq [OF adm]) (simp add: icmp_admissible_def icmppkt_sizes)
qed

section \<open>The documented request layout\<close>

record icmp_request =
  rq_id :: u16
  rq_destination :: ip_addr
  rq_seqno :: u16
  rq_ttl :: u8
  rq_data_size :: u16

definition request_packet :: "icmp_request \<Rightarrow> bytes" where
  "request_packet r =
    to_be 2 (unat (rq_id r)) @ put_fixed_size_ip [] (rq_destination r) @ to_be 2 (unat (rq_seqno r))
    @ [rq_ttl r] @ to_be 2 (unat (rq_data_size r))"

text \<open>The datagrams a sequence of requests stands for, with the payloads the generator gives.\<close>

fun requested :: "'g fill_fun \<Rightarrow> 'g \<Rightarrow> icmp_request list \<Rightarrow> client_icmp_datagram list" where
  "requested fill g [] = []"
| "requested fill g (r # rs) =
    (case fill g (unat (rq_data_size r)) of
       None \<Rightarrow> []
     | Some (data, g') \<Rightarrow>
         let echo = \<lparr>echo_code = 0, echo_identifier = rq_id r, echo_sequence_number = rq_seqno r,
                     echo_data = data\<rparr>;
             dst = canonical_ip (rq_destination r)
         in \<lparr>ci_peer = dst,
             ci_message = (case dst of V4 _ \<Rightarrow> IcmpV4 (V4Echo echo) | V6 _ \<Rightarrow> IcmpV6 (V6EchoRequest echo)),
             ci_ttl = rq_ttl r\<rparr> # requested fill g' rs)"

lemma length_request_packet [simp]: "length (request_packet r) = 23"
  by (simp add: request_packet_def)

lemma request_decoded:
  assumes "fill_total fill"
  obtains d g' where "icmp_decode_chunk fill (icmp_decoder_new g) (request_packet r @ rest) =
      Ret (icmp_decoder_new g', Complete d rest)"
    "requested fill g (r # rs) = d # requested fill g' rs"
proof -
  obtain data g' where fill: "fill g (unat (rq_data_size r)) = Some (data, g')"
    using assms unfolding fill_total_def by blast
  have u16: "unat (x :: u16) < 256 ^ 2" for x
    using unsigned_less [of x, where ?'a = nat] by simp
  have take: "on_message_chunk (icmp_decoder_new g) (request_packet r @ rest) =
      Ret (icmp_decoder_new g, Some (request_packet r, rest))"
    by (simp add: on_message_chunk_eq icmp_decoder_new_def icmppkt_sizes)
  have "icmp_decode_chunk fill (icmp_decoder_new g) (request_packet r @ rest) =
      Ret (icmp_decoder_new g', Complete (hd (requested fill g [r])) rest)"
    unfolding icmp_decode_chunk_def take
    by (simp add: request_packet_def buf_get_be_to_be [OF u16] buf_get_be_to_be [OF u16, of _ "[]", simplified]
        get_put_fixed_size_ip fill Let_def icmp_decoder_new_def)
  with fill that show thesis by (simp add: Let_def)
qed

lemma requests_decoded:
  assumes "fill_total fill"
  shows "\<exists>st'. decodes (icmp_decode_chunk fill) (icmp_decoder_new g) (concat (map request_packet rs))
    (requested fill g rs) st'"
proof (induction rs arbitrary: g)
  case Nil
  have "icmp_decode_chunk fill (icmp_decoder_new g) [] = Ret (icmp_decoder_new g, WantMore)"
    by (rule icmp.decode_nil) (simp add: icmp_admissible_def icmp_decoder_new_def icmppkt_sizes assms)
  then show ?case by (auto intro: decodes.want_more)
next
  case (Cons r rs)
  obtain d g' where "icmp_decode_chunk fill (icmp_decoder_new g) (request_packet r @ concat (map request_packet rs)) =
      Ret (icmp_decoder_new g', Complete d (concat (map request_packet rs)))"
    "requested fill g (r # rs) = d # requested fill g' rs"
    using request_decoded [OF assms] by blast
  with Cons.IH [of g'] show ?case by (auto intro: decodes.complete)
qed

section \<open>Properties\<close>

text \<open>
  C10: the reader of the ICMP multiplexer turns the client's requests into echo requests for the
  requested destinations, one each and in order, however the stream is cut into chunks; the
  payload of each is what the random number generator gives for the requested size.
\<close>

theorem icmp_stream_requests:
  assumes "fill_total fill" and "concat cs = concat (map request_packet rs)"
  shows "reads (icmp_decode_chunk fill) (\<lambda>_. Ok ()) (length (requested fill g rs) + k)
      \<lparr>dd_decoder = icmp_decoder_new g, dd_pending_bytes = [], dd_source = map (\<lambda>c. Ok (Chunk c)) cs\<rparr>
    = Ret (map (\<lambda>d. Ready (Ok d)) (requested fill g rs) @ replicate k Pending)"
proof -
  have "icmp_admissible fill (icmp_decoder_new g) (concat cs)"
    using assms(1) by (simp add: icmp_admissible_def icmp_decoder_new_def icmppkt_sizes)
  moreover obtain st' where "decodes (icmp_decode_chunk fill) (icmp_decoder_new g) (concat cs)
      (requested fill g rs) st'"
    using requests_decoded [OF assms(1)] assms(2) by metis
  ultimately show ?thesis by (simp add: icmp.reads_chunks)
qed

theorem icmp_stream_requests_witness:
  "fill_total (\<lambda>g n. Some (replicate n 0, g)) \<and>
   reads (icmp_decode_chunk (\<lambda>g n. Some (replicate n 0, g))) (\<lambda>_. Ok ()) 1
      \<lparr>dd_decoder = icmp_decoder_new (), dd_pending_bytes = [],
       dd_source = [Ok (Chunk [0, 7]), Ok (Chunk (replicate 12 0 @ [8, 8, 8, 8, 0, 9, 64, 0, 1]))]\<rparr>
    = Ret [Ready (Ok \<lparr>ci_peer = V4 0x08080808, ci_message = IcmpV4 (V4Echo \<lparr>echo_code = 0,
        echo_identifier = 7, echo_sequence_number = 9, echo_data = [0]\<rparr>), ci_ttl = 64\<rparr>)]"
proof -
  let ?fill = "\<lambda>g n. Some (replicate n 0, g)"
  let ?r = "\<lparr>rq_id = 7, rq_destination = V4 0x08080808, rq_seqno = 9, rq_ttl = 64, rq_data_size = 1\<rparr>"
  let ?cs = "[[0, 7], replicate 12 0 @ [8, 8, 8, 8, 0, 9, 64, 0, 1]] :: bytes list"
  have tot: "fill_total ?fill" by (simp add: fill_total_def)
  have "concat ?cs = concat (map request_packet [?r])"
    by (simp add: request_packet_def to_be_eval ipv4_octets_def wire_lengths)
  with icmp_stream_requests [OF tot, of ?cs "[?r]" "()" 0] tot show ?thesis
    by (simp del: reads.simps)
qed

text \<open>
  a reply sent to the client has 22 bytes: the identifier and sequence number of the echo
  request it answers around the peer's address and the type and code of the received message. A
  message that answers no echo request is not sent.
\<close>

theorem icmp_reply_layout:
  assumes "responded_echo_request (id_message d) = Ret r"
  shows "icmp_encode_packet d = Ret (map_option (\<lambda>e.
      to_be 2 (unat (echo_identifier e)) @ put_fixed_size_ip [] (id_peer d)
      @ [icmp_type_id (id_message d), icmp_code (id_message d)] @ to_be 2 (unat (echo_sequence_number e))) r)
    \<and> (\<forall>e. length (to_be 2 (unat (echo_identifier e)) @ put_fixed_size_ip [] (id_peer d)
      @ [icmp_type_id (id_message d), icmp_code (id_message d)] @ to_be 2 (unat (echo_sequence_number e)))
      = ICMPPKT_REPLY_SIZE)"
proof -
  have put: "put_fixed_size_ip bs ip = bs @ put_fixed_size_ip [] ip" for bs ip by (cases ip) simp_all
  show ?thesis
    using assms unfolding icmp_encode_packet_def Let_def put [of "to_be _ _"]
    by (simp add: icmppkt_sizes split: option.splits)
qed

theorem icmp_reply_layout_witness:
  "icmp_encode_packet \<lparr>id_peer = V4 0x01020304, id_message = IcmpV4 (V4EchoReply
      \<lparr>echo_code = 0, echo_identifier = 0x0506, echo_sequence_number = 0x0708, echo_data = [9]\<rparr>)\<rparr>
    = Ret (Some ([5, 6] @ replicate 12 0 @ [1, 2, 3, 4, 0, 0, 7, 8]))"
  using icmp_reply_layout [of "\<lparr>id_peer = V4 0x01020304, id_message = IcmpV4 (V4EchoReply
      \<lparr>echo_code = 0, echo_identifier = 0x0506, echo_sequence_number = 0x0708, echo_data = [9]\<rparr>)\<rparr>"]
  by (simp add: to_be_eval ipv4_octets_def wire_lengths)

end
