(* ===== verification/Client_Random.thy ===== *)
theory Client_Random
  imports Prelude
begin

text \<open>
  Generation of client-random prefixes, \<^verbatim>\<open>lib/src/client_random_prefix.rs\<close>. The random number
  generators are parameters: \<open>draw i\<close> is the \<open>i\<close>-th number of \<open>gen_range(0..100)\<close>, \<open>rnd i\<close> the \<open>i\<close>-th
  random byte. \<open>hex_encode\<close> is the \<open>hex\<close> crate's encoder.
\<close>

datatype client_random_error =
    EmptyMask
  | CrInvalidLength nat
  | InvalidPercent u8
  | MaskTooLong nat

fun client_random_error_display :: "client_random_error \<Rightarrow> string" where
  "client_random_error_display EmptyMask = ''mask must not be empty''"
| "client_random_error_display (CrInvalidLength n) =
    ''length must be in range 1..=32 bytes, got '' @ show_nat n"
| "client_random_error_display (InvalidPercent p) =
    ''percent must be in range 1..=100, got '' @ show_nat (unat p)"
| "client_random_error_display (MaskTooLong n) =
    ''mask length must be in range 1..=32 bytes, got '' @ show_nat n"

record generator_params =
  gp_length :: nat
  gp_percent :: u8

definition default_generator_params :: generator_params where
  "default_generator_params = \<lparr>gp_length = 4, gp_percent = 70\<rparr>"

record generated_prefix =
  gen_value :: bytes
  gen_mask :: bytes

definition to_masked_hex_string :: "(bytes \<Rightarrow> string) \<Rightarrow> generated_prefix \<Rightarrow> string" where
  "to_masked_hex_string hex_encode p = hex_encode (gen_value p) @ ''/'' @ hex_encode (gen_mask p)"

definition validate_params :: "generator_params \<Rightarrow> (client_random_error, unit) result" where
  "validate_params params =
    (if \<not> (1 \<le> gp_length params \<and> gp_length params \<le> 32) then Err (CrInvalidLength (gp_length params))
     else if \<not> (1 \<le> gp_percent params \<and> gp_percent params \<le> 100) then Err (InvalidPercent (gp_percent params))
     else Ok ())"

definition validate_mask :: "bytes \<Rightarrow> (client_random_error, unit) result" where
  "validate_mask m =
    (if m = [] then Err EmptyMask
     else if length m > 32 then Err (MaskTooLong (length m))
     else Ok ())"

text \<open>The eight bits of one mask byte, from its eight draws.\<close>

definition generate_mask_byte :: "(nat \<Rightarrow> u8) \<Rightarrow> u8 \<Rightarrow> nat \<Rightarrow> u8" where
  "generate_mask_byte draw percent i =
    foldl (\<lambda>byte bit. if draw (8 * i + bit) < percent then byte OR push_bit bit 1 else byte) 0 [0..<8]"

definition generate_mask :: "(nat \<Rightarrow> u8) \<Rightarrow> nat \<Rightarrow> u8 \<Rightarrow> bytes" where
  "generate_mask draw len percent = map (generate_mask_byte draw percent) [0..<len]"

definition generate_value :: "(nat \<Rightarrow> u8) \<Rightarrow> bytes \<Rightarrow> bytes" where
  "generate_value rnd m = map2 (\<lambda>i mask_byte. rnd i AND mask_byte) [0..<length m] m"

definition generate ::
  "(nat \<Rightarrow> u8) \<Rightarrow> (nat \<Rightarrow> u8) \<Rightarrow> generator_params \<Rightarrow> (client_random_error, generated_prefix) result" where
  "generate draw rnd params =
    rbind (validate_params params) (\<lambda>_.
    let m = generate_mask draw (gp_length params) (gp_percent params);
        v = generate_value rnd m
    in Ok \<lparr>gen_value = v, gen_mask = m\<rparr>)"

definition generate_with_mask ::
  "(nat \<Rightarrow> u8) \<Rightarrow> bytes \<Rightarrow> (client_random_error, generated_prefix) result" where
  "generate_with_mask rnd m =
    rbind (validate_mask m) (\<lambda>_. Ok \<lparr>gen_value = generate_value rnd m, gen_mask = m\<rparr>)"

section \<open>Lemmas\<close>

lemma length_generate_mask [simp]: "length (generate_mask draw n percent) = n"
  by (simp add: generate_mask_def)

lemma length_generate_value [simp]: "length (generate_value rnd m) = length m"
  by (simp add: generate_value_def)

lemma generate_value_masked:
  "i < length m \<Longrightarrow> generate_value rnd m ! i AND m ! i = generate_value rnd m ! i"
  by (simp add: generate_value_def and.assoc)

lemma validate_params_ok:
  "validate_params params = Inr () \<longleftrightarrow>
    1 \<le> gp_length params \<and> gp_length params \<le> 32 \<and> 1 \<le> gp_percent params \<and> gp_percent params \<le> 100"
  by (auto simp: validate_params_def)

lemma generate_ok:
  assumes "generate draw rnd params = Inr p"
  shows "length (gen_value p) = length (gen_mask p) \<and> 1 \<le> length (gen_mask p) \<and> length (gen_mask p) \<le> 32
    \<and> (\<forall>i < length (gen_mask p). gen_value p ! i AND gen_mask p ! i = gen_value p ! i)"
  using assms by (auto simp: generate_def rbind_eq_Inr_iff validate_params_ok Let_def generate_value_masked)

lemma generate_with_mask_ok:
  assumes "generate_with_mask rnd m = Inr p"
  shows "gen_mask p = m \<and> length (gen_value p) = length m \<and> 1 \<le> length m \<and> length m \<le> 32
    \<and> (\<forall>i < length m. gen_value p ! i AND m ! i = gen_value p ! i)"
  using assms
  by (auto simp: generate_with_mask_def rbind_eq_Inr_iff validate_mask_def generate_value_masked
      Suc_le_eq split: if_splits)

end
