(* ===== verification/Rules.thy ===== *)
theory Rules
  imports Net_Utils Client_Random
begin

text \<open>
  The connection filtering rules, \<^verbatim>\<open>lib/src/rules.rs\<close>. The libraries the rules call are the fields of
  \<open>rule_env\<close>: CIDR parsing and membership (\<open>ipnet\<close>), hex decoding (\<open>hex\<close>), HKDF-SHA256 with the fixed
  info string, SHA-256 (\<open>ring\<close>) and one AES-128-ECB update and finalisation (\<open>boring\<close>).
\<close>

section \<open>Rules and their matching\<close>

datatype rule_action = ActAllow | ActDeny

record rule =
  ru_cidr :: "string option"
  ru_client_random_prefix :: "string option"
  ru_client_random_auth_key :: "string option"
  ru_action :: rule_action

type_synonym rules_config = "rule list"

datatype rule_evaluation = Allow | Deny

record rule_env =
  re_parse_cidr :: "string \<Rightarrow> (ip_addr \<Rightarrow> bool) option"
  re_hex_decode :: "string \<Rightarrow> bytes option"
  re_hkdf :: "bytes \<Rightarrow> bytes \<Rightarrow> bytes option"
  re_sha256 :: "bytes \<Rightarrow> bytes"
  re_aes_ecb :: "bytes \<Rightarrow> bytes \<Rightarrow> bytes option"

definition is_valid_hex :: "rule_env \<Rightarrow> string \<Rightarrow> bool" where
  "is_valid_hex env s \<longleftrightarrow> s \<noteq> [] \<and> length s mod 2 = 0 \<and> re_hex_decode env s \<noteq> None"

definition validate_client_random_auth_key :: "rule_env \<Rightarrow> bytes \<Rightarrow> bytes \<Rightarrow> string \<Rightarrow> bool" where
  "validate_client_random_auth_key env auth_key client_random sni =
    (if length client_random \<noteq> 32 \<or> sni = [] \<or> auth_key = [] then False
     else
       let random = take 16 client_random;
           ciphertext = drop 16 client_random
       in case re_hkdf env auth_key random of
            None \<Rightarrow> False
          | Some derived_key \<Rightarrow>
              let sni_hash_prefix = take 16 (re_sha256 env (as_bytes sni))
              in case re_aes_ecb env derived_key sni_hash_prefix of
                   None \<Rightarrow> False
                 | Some out \<Rightarrow>
                     let expected = take 16 out
                     in foldl (\<lambda>diff i. diff OR (ciphertext ! i XOR expected ! i)) 0 [0..<length expected]
                        = (0 :: u8))"

text \<open>The comparison under a mask, over the first \<open>n\<close> bytes.\<close>

fun masked_match :: "nat \<Rightarrow> bytes \<Rightarrow> bytes \<Rightarrow> bytes \<Rightarrow> bool" where
  "masked_match (Suc n) (c # cs) (p # ps) (m # ms) =
    (if c AND m \<noteq> p AND m then False else masked_match n cs ps ms)"
| "masked_match _ _ _ _ = True"

definition matches :: "rule_env \<Rightarrow> rule \<Rightarrow> ip_addr \<Rightarrow> bytes option \<Rightarrow> string option \<Rightarrow> bool" where
  "matches env self client_ip client_random sni =
    (case (case ru_cidr self of
             None \<Rightarrow> Some True
           | Some cidr_str \<Rightarrow> map_option (\<lambda>contains. contains client_ip) (re_parse_cidr env cidr_str)) of
       None \<Rightarrow> False
     | Some m \<Rightarrow>
         case ru_client_random_auth_key self of
           Some auth_hex \<Rightarrow>
             (case (client_random, sni) of
                (Some client_random_data, Some sni_str) \<Rightarrow>
                  (case re_hex_decode env auth_hex of
                     Some auth_bytes \<Rightarrow>
                       m \<and> validate_client_random_auth_key env auth_bytes client_random_data sni_str
                   | None \<Rightarrow> False)
              | _ \<Rightarrow> False)
         | None \<Rightarrow>
             (case ru_client_random_prefix self of
                None \<Rightarrow> m
              | Some prefix_str \<Rightarrow>
                  (case client_random of
                     None \<Rightarrow> False
                   | Some client_random_data \<Rightarrow>
                       (case split_once (CHR ''/'') prefix_str of
                          Some (prefix_part, mask_part) \<Rightarrow>
                            (case (re_hex_decode env prefix_part, re_hex_decode env mask_part) of
                               (Some prefix_bytes, Some mask_bytes) \<Rightarrow>
                                 let mask_len = min (min (length mask_bytes) (length prefix_bytes))
                                                    (length client_random_data)
                                 in m \<and> 0 < mask_len
                                    \<and> masked_match mask_len client_random_data prefix_bytes mask_bytes
                             | _ \<Rightarrow> False)
                        | None \<Rightarrow>
                            (case re_hex_decode env prefix_str of
                               Some prefix_bytes \<Rightarrow>
                                 m \<and> take (length prefix_bytes) client_random_data = prefix_bytes
                             | None \<Rightarrow> False)))))"

section \<open>The engine\<close>

definition default_allow :: rules_config where
  "default_allow = []"

fun first_match :: "rule_env \<Rightarrow> rules_config \<Rightarrow> ip_addr \<Rightarrow> bytes option \<Rightarrow> string option \<Rightarrow> rule_evaluation" where
  "first_match env [] client_ip client_random sni = Allow"
| "first_match env (r # rs) client_ip client_random sni =
    (if matches env r client_ip client_random sni
     then (case ru_action r of ActAllow \<Rightarrow> Allow | ActDeny \<Rightarrow> Deny)
     else first_match env rs client_ip client_random sni)"

definition evaluate :: "rule_env \<Rightarrow> rules_config \<Rightarrow> ip_addr \<Rightarrow> bytes option \<Rightarrow> string option \<Rightarrow> rule_evaluation" where
  "evaluate env rules client_ip client_random sni =
    (let has_prefix_rule = list_ex (\<lambda>r. ru_client_random_prefix r \<noteq> None) rules;
         has_auth_key_rule = list_ex (\<lambda>r. ru_client_random_auth_key r \<noteq> None) rules;
         sni_is_missing = (case sni of None \<Rightarrow> True | Some s \<Rightarrow> s = [])
     in if client_random = None \<and> (has_prefix_rule \<or> has_auth_key_rule)
           \<or> sni_is_missing \<and> has_auth_key_rule
        then Deny
        else first_match env rules client_ip client_random sni)"

text \<open>\<open>Core::evaluate_connection_rules\<close> of \<^verbatim>\<open>lib/src/core.rs\<close>.\<close>

definition evaluate_connection_rules ::
  "rule_env \<Rightarrow> rules_config option \<Rightarrow> ip_addr option \<Rightarrow> bytes option \<Rightarrow> string option \<Rightarrow> (string, unit) result" where
  "evaluate_connection_rules env rules_engine client_ip client_random sni =
    (case rules_engine of
       None \<Rightarrow> Ok ()
     | Some rules \<Rightarrow>
         (case client_ip of
            None \<Rightarrow> Ok ()
          | Some ip \<Rightarrow>
              (case evaluate env rules ip client_random sni of
                 Deny \<Rightarrow> Err ''Connection denied by filtering rules''
               | Allow \<Rightarrow> Ok ())))"

section \<open>Lemmas\<close>

lemma foldl_or_zero:
  "foldl (\<lambda>diff i. diff OR f i) a xs = (0 :: u8) \<longleftrightarrow> a = 0 \<and> (\<forall>i \<in> set xs. f i = 0)"
proof (induction xs arbitrary: a)
  case (Cons x xs)
  have "a OR f x = 0 \<longleftrightarrow> a = 0 \<and> f x = 0"
    by (auto simp: bit_eq_iff bit_or_iff)
  with Cons show ?case by auto
qed simp

lemma xor_zero_iff: "(a :: u8) XOR b = 0 \<longleftrightarrow> a = b"
proof
  assume "a XOR b = 0"
  then have "(a XOR b) XOR b = 0 XOR b" by (simp only:)
  then show "a = b" by (simp only: xor.assoc xor_self_eq xor.right_neutral xor.left_neutral)
next
  assume "a = b"
  then show "a XOR b = 0" by (simp only: xor_self_eq)
qed

lemma constant_time_equality:
  "length e \<le> length c \<Longrightarrow>
    foldl (\<lambda>diff i. diff OR (c ! i XOR e ! i)) 0 [0..<length e] = (0 :: u8) \<longleftrightarrow> take (length e) c = e"
proof -
  assume len: "length e \<le> length c"
  have "take (length e) c = e \<longleftrightarrow> (\<forall>i < length e. c ! i = e ! i)"
    using len list_eq_iff_nth_eq [of "take (length e) c" e] by simp
  then show ?thesis by (simp only: foldl_or_zero xor_zero_iff) (simp add: atLeast0LessThan Ball_def)
qed

lemma masked_match_iff:
  "n \<le> length cs \<Longrightarrow> n \<le> length ps \<Longrightarrow> n \<le> length ms \<Longrightarrow>
    masked_match n cs ps ms \<longleftrightarrow> (\<forall>i < n. cs ! i AND ms ! i = ps ! i AND ms ! i)"
proof (induction n cs ps ms rule: masked_match.induct)
  case (1 n c cs p ps m ms)
  then show ?case by (auto simp: All_less_Suc2)
qed auto

lemma first_match_find:
  "first_match env rules ip cr sni =
    (case find (\<lambda>r. matches env r ip cr sni) rules of
       None \<Rightarrow> Allow
     | Some r \<Rightarrow> if ru_action r = ActAllow then Allow else Deny)"
  by (induction rules) (auto split: rule_action.splits)

lemma find_append_Some: "find P xs = Some x \<Longrightarrow> find P (xs @ ys) = Some x"
  by (induction xs) auto

lemma find_append_None: "find P xs = None \<Longrightarrow> find P (xs @ ys) = find P ys"
  by (induction xs) auto

text \<open>A rule that does not look at the client random or at the SNI.\<close>

definition catch_all :: "rule_action \<Rightarrow> rule" where
  "catch_all a = \<lparr>ru_cidr = None, ru_client_random_prefix = None, ru_client_random_auth_key = None, ru_action = a\<rparr>"

lemma matches_catch_all [simp]: "matches env (catch_all a) ip cr sni"
  by (simp add: matches_def catch_all_def)

section \<open>Properties\<close>

text \<open>
  C9: an allow list. With rules that only allow, followed by a rule that denies everything, a
  connection is admitted exactly when one of the allow rules matches it and nothing a rule of the
  list looks at is missing: without a client random no list that mentions one admits, and without
  an SNI no list with an authentication key does.
\<close>

theorem allow_list_admission:
  assumes "list_all (\<lambda>r. ru_action r = ActAllow) allowed"
  shows "evaluate_connection_rules env (Some (allowed @ [catch_all ActDeny])) (Some ip) cr sni = Ok () \<longleftrightarrow>
    list_ex (\<lambda>r. matches env r ip cr sni) allowed \<and>
    \<not> (cr = None \<and> list_ex (\<lambda>r. ru_client_random_prefix r \<noteq> None \<or> ru_client_random_auth_key r \<noteq> None) allowed) \<and>
    \<not> ((sni = None \<or> sni = Some []) \<and> list_ex (\<lambda>r. ru_client_random_auth_key r \<noteq> None) allowed)"
proof -
  have "first_match env (allowed @ [catch_all ActDeny]) ip cr sni = Allow \<longleftrightarrow>
      list_ex (\<lambda>r. matches env r ip cr sni) allowed"
    using assms
  proof (induction allowed)
    case Nil
    show ?case by (simp) (simp add: catch_all_def)
  qed (auto split: rule_action.splits)
  moreover have "list_ex (\<lambda>r. ru_client_random_prefix r \<noteq> None \<or> ru_client_random_auth_key r \<noteq> None) allowed
      \<longleftrightarrow> list_ex (\<lambda>r. ru_client_random_prefix r \<noteq> None) allowed
        \<or> list_ex (\<lambda>r. ru_client_random_auth_key r \<noteq> None) allowed"
    by (auto simp: list_ex_iff)
  ultimately show ?thesis
    by (auto simp: evaluate_connection_rules_def evaluate_def Let_def catch_all_def
        split: rule_evaluation.splits option.splits)
qed

theorem allow_list_admission_witness:
  "let env = \<lparr>re_parse_cidr = (\<lambda>_. None), re_hex_decode = (\<lambda>s. if s = ''07'' then Some [7] else None),
       re_hkdf = (\<lambda>_ _. None), re_sha256 = id, re_aes_ecb = (\<lambda>_ _. None)\<rparr>;
       r = \<lparr>ru_cidr = None, ru_client_random_prefix = Some ''07'', ru_client_random_auth_key = None,
         ru_action = ActAllow\<rparr>
   in evaluate_connection_rules env (Some ([r] @ [catch_all ActDeny])) (Some (V4 1)) (Some [7, 8]) None = Ok () \<and>
      evaluate_connection_rules env (Some ([r] @ [catch_all ActDeny])) (Some (V4 1)) None None \<noteq> Ok ()"
proof -
  let ?env = "\<lparr>re_parse_cidr = (\<lambda>_. None), re_hex_decode = (\<lambda>s. if s = ''07'' then Some [7] else None),
       re_hkdf = (\<lambda>_ _. None), re_sha256 = id, re_aes_ecb = (\<lambda>_ _. None)\<rparr>"
  let ?r = "\<lparr>ru_cidr = None, ru_client_random_prefix = Some ''07'', ru_client_random_auth_key = None,
         ru_action = ActAllow\<rparr>"
  have all: "list_all (\<lambda>r. ru_action r = ActAllow) [?r]" by simp
  have m: "matches ?env ?r (V4 1) (Some [7, 8]) None" by (simp add: matches_def split_once_def)
  show ?thesis
    using allow_list_admission [OF all, of ?env "V4 1" "Some [7, 8]" None]
      allow_list_admission [OF all, of ?env "V4 1" None None] m
    by (simp add: Let_def)
qed

text \<open>
  a generated prefix works as a rule. A rule holding the text form of a prefix produced by the
  generator matches a client random exactly when the random agrees with the generated value on the
  bits of the mask, provided hex decoding inverts hex encoding and encodings contain no slash.
\<close>

theorem generated_prefix_rule:
  assumes "generate draw rnd params = Ok p" and "length (gen_mask p) \<le> length client_random"
    and "\<And>bs. re_hex_decode env (hex_encode bs) = Some bs" and "\<And>bs. CHR ''/'' \<notin> set (hex_encode bs)"
  shows "matches env \<lparr>ru_cidr = None, ru_client_random_prefix = Some (to_masked_hex_string hex_encode p),
      ru_client_random_auth_key = None, ru_action = a\<rparr> ip (Some client_random) sni \<longleftrightarrow>
    (\<forall>i < length (gen_mask p). client_random ! i AND gen_mask p ! i = gen_value p ! i)"
proof -
  note p = generate_ok [OF assms(1)]
  have "split_once (CHR ''/'') (to_masked_hex_string hex_encode p) =
      Some (hex_encode (gen_value p), hex_encode (gen_mask p))"
    using assms(4) by (simp add: split_once_Some to_masked_hex_string_def)
  moreover have "gen_mask p \<noteq> []" using p by auto
  ultimately show ?thesis
    using p assms(2) by (simp add: matches_def assms(3) masked_match_iff Let_def)
qed

theorem generated_prefix_rule_witness:
  "\<exists>env hex_encode p. generate (\<lambda>_. 0) (\<lambda>_. 0xA5) \<lparr>gp_length = 1, gp_percent = 70\<rparr> = Ok p \<and>
    matches env \<lparr>ru_cidr = None, ru_client_random_prefix = Some (to_masked_hex_string hex_encode p),
      ru_client_random_auth_key = None, ru_action = ActAllow\<rparr> (V4 0) (Some [0xA5, 1]) None"
proof -
  let ?enc = "\<lambda>bs :: bytes. concat (map (\<lambda>b. replicate (Suc (unat b)) CHR ''a'' @ ''b'') bs)"
  have slash: "CHR ''/'' \<notin> set (?enc bs)" for bs by (induction bs) auto
  have inj: "inj ?enc"
  proof (rule injI)
    fix bs cs assume "?enc bs = ?enc cs"
    then show "bs = cs"
    proof (induction bs arbitrary: cs)
      case Nil
      then show ?case by (cases cs) simp_all
    next
      case (Cons b bs)
      then obtain c cs' where cs: "cs = c # cs'" by (cases cs) simp_all
      have tw: "takeWhile (\<lambda>x. x = CHR ''a'') (?enc (x # xs)) = replicate (Suc (unat x)) CHR ''a''"
        and dw: "dropWhile (\<lambda>x. x = CHR ''a'') (?enc (x # xs)) = CHR ''b'' # ?enc xs" for x xs
        by (simp_all add: takeWhile_append dropWhile_append)
      have "unat b = unat c" using tw [of b bs] tw [of c cs'] Cons.prems cs
        by (metis length_replicate nat.inject)
      moreover have "?enc bs = ?enc cs'" using dw [of b bs] dw [of c cs'] Cons.prems cs
        by (metis list.inject)
      ultimately show ?case using Cons.IH cs by (simp add: unsigned_word_eqI)
    qed
  qed
  let ?env = "\<lparr>re_parse_cidr = (\<lambda>_. None), re_hex_decode = (\<lambda>s. Some (inv ?enc s)),
       re_hkdf = (\<lambda>_ _. None), re_sha256 = id, re_aes_ecb = (\<lambda>_ _. None)\<rparr>"
  have dec: "re_hex_decode ?env (?enc bs) = Some bs" for bs
    using inv_f_f [OF inj] by simp
  let ?p = "\<lparr>gen_value = [0xA5], gen_mask = [0xFF]\<rparr>"
  have gen: "generate (\<lambda>_. 0) (\<lambda>_. 0xA5) \<lparr>gp_length = 1, gp_percent = 70\<rparr> = Ok ?p"
    by (simp add: generate_def validate_params_def generate_mask_def generate_value_def
        generate_mask_byte_def upt_conv_Cons)
  from generated_prefix_rule [OF gen, of "[0xA5, 1]" ?env ?enc ActAllow "V4 0" None] dec slash gen
  show ?thesis by (intro exI [of _ ?env] exI [of _ ?enc] exI [of _ ?p]) simp
qed

text \<open>
  a rule with an authentication key matches a 32-byte client random exactly when its second half
  is the encryption, under the key derived from the first half, of the hash of the SNI: the
  constant-time comparison loop decides equality of all sixteen bytes.
\<close>

theorem auth_key_rule:
  assumes "re_hex_decode env key_hex = Some key" and "key \<noteq> []" and "sni \<noteq> []" and "length random = 16"
    and "length ciphertext = 16" and "re_hkdf env key random = Some k"
    and "re_aes_ecb env k (take 16 (re_sha256 env (as_bytes sni))) = Some out" and "length out = 16"
  shows "matches env \<lparr>ru_cidr = None, ru_client_random_prefix = pfx,
      ru_client_random_auth_key = Some key_hex, ru_action = a\<rparr> ip (Some (random @ ciphertext)) (Some sni)
    \<longleftrightarrow> ciphertext = out"
  using assms constant_time_equality [of out ciphertext]
  by (simp add: matches_def validate_client_random_auth_key_def Let_def)

theorem auth_key_rule_witness:
  "let env = \<lparr>re_parse_cidr = (\<lambda>_. None), re_hex_decode = (\<lambda>_. Some [1]), re_hkdf = (\<lambda>_ salt. Some salt),
       re_sha256 = (\<lambda>_. replicate 32 7), re_aes_ecb = (\<lambda>_ block. Some block)\<rparr>
   in matches env \<lparr>ru_cidr = None, ru_client_random_prefix = None, ru_client_random_auth_key = Some ''01'',
        ru_action = ActAllow\<rparr> (V4 0) (Some (replicate 16 0 @ replicate 16 7)) (Some ''host'')"
  using auth_key_rule [of "\<lparr>re_parse_cidr = (\<lambda>_. None), re_hex_decode = (\<lambda>_. Some [1]), re_hkdf = (\<lambda>_ salt. Some salt),
       re_sha256 = (\<lambda>_. replicate 32 7), re_aes_ecb = (\<lambda>_ block. Some block)\<rparr>" "''01''" "[1]" "''host''"
       "replicate 16 0" "replicate 16 7" "replicate 16 0" "replicate 16 7" None ActAllow "V4 0"]
  by (simp add: Let_def)

end
