(* ===== verification/Authentication.thy ===== *)
theory Authentication
  imports Net_Utils
begin

text \<open>
  Authentication of clients, \<^verbatim>\<open>lib/src/authentication/mod.rs\<close> and
  \<^verbatim>\<open>lib/src/authentication/registry_based.rs\<close>. A client is identified by the base64 text of
  \<open>username:password\<close>; the encoder is the parameter \<open>base64\<close>. The locale \<open>authenticator\<close> is the
  contract of the \<open>Authenticator\<close> trait that the tunnel relies on.
\<close>

section \<open>Sources and status\<close>

datatype auth_source = Sni string | ProxyBasic string

datatype auth_status = Pass | Reject

fun auth_source_debug :: "auth_source \<Rightarrow> string" where
  "auth_source_debug (Sni _) = ''Sni(__stripped__)''"
| "auth_source_debug (ProxyBasic _) = ''ProxyBasic(__stripped__)''"

fun source_creds :: "auth_source \<Rightarrow> string" where
  "source_creds (ProxyBasic s) = s"
| "source_creds (Sni s) = s"

section \<open>The registry\<close>

record client =
  cl_username :: string
  cl_password :: string
  cl_max_http2_conns :: "u32 option"
  cl_max_http3_conns :: "u32 option"

definition credentials :: "(string \<Rightarrow> string) \<Rightarrow> client \<Rightarrow> string" where
  "credentials base64 c = base64 (cl_username c @ '':'' @ cl_password c)"

text \<open>Collecting pairs into a hash map: a later pair replaces an earlier one with the same key.\<close>

definition collect_map :: "('k \<times> 'v) list \<Rightarrow> 'k \<rightharpoonup> 'v" where
  "collect_map kvs = foldl (\<lambda>m (k, v). m(k \<mapsto> v)) Map.empty kvs"

type_synonym registry = "string \<rightharpoonup> string"

definition registry_new :: "(string \<Rightarrow> string) \<Rightarrow> client list \<Rightarrow> registry" where
  "registry_new base64 clients = collect_map (map (\<lambda>x. (credentials base64 x, cl_username x)) clients)"

definition authenticate :: "registry \<Rightarrow> auth_source \<Rightarrow> auth_status" where
  "authenticate self source =
    (case self (source_creds source) of Some _ \<Rightarrow> Pass | None \<Rightarrow> Reject)"

definition auth_username :: "registry \<Rightarrow> auth_source \<Rightarrow> string option" where
  "auth_username self source = self (source_creds source)"

section \<open>The contract\<close>

text \<open>What the tunnel relies on: the verdict depends on the credentials only, not on how they were
  presented, and a user name is known exactly for the accepted ones.\<close>

locale authenticator =
  fixes verdict :: "auth_source \<Rightarrow> auth_status"
    and user :: "auth_source \<Rightarrow> string option"
  assumes verdict_creds: "source_creds a = source_creds b \<Longrightarrow> verdict a = verdict b"
    and user_iff: "user a = None \<longleftrightarrow> verdict a = Reject"
begin

lemma accepted_has_user: "verdict a = Pass \<Longrightarrow> \<exists>u. user a = Some u"
  using user_iff [of a] by auto

lemma sni_iff_basic: "verdict (Sni s) = Pass \<longleftrightarrow> verdict (ProxyBasic s) = Pass"
  using verdict_creds [of "Sni s" "ProxyBasic s"] by simp

end

interpretation registry: authenticator "authenticate r" "auth_username r" for r
  by unfold_locales (auto simp: authenticate_def auth_username_def split: option.splits)

lemma collect_map_append: "collect_map (xs @ [(k, v)]) = (collect_map xs)(k \<mapsto> v)"
  by (simp add: collect_map_def)

lemma dom_collect_map: "dom (collect_map kvs) = fst ` set kvs"
proof (induction kvs rule: rev_induct)
  case (snoc kv kvs)
  then show ?case by (cases kv) (auto simp: collect_map_append dom_if)
qed (simp add: collect_map_def)

lemma collect_map_eq_Some: "collect_map kvs k = Some v \<Longrightarrow> (k, v) \<in> set kvs"
proof (induction kvs rule: rev_induct)
  case (snoc kv kvs)
  then show ?case by (cases kv) (auto simp: collect_map_append split: if_splits)
qed (simp add: collect_map_def)

lemma collect_map_distinct:
  "distinct (map fst kvs) \<Longrightarrow> (k, v) \<in> set kvs \<Longrightarrow> collect_map kvs k = Some v"
proof (induction kvs rule: rev_induct)
  case (snoc kv kvs)
  then show ?case by (cases kv) (auto simp: collect_map_append rev_image_eqI)
qed simp

lemma authenticate_iff:
  "authenticate (registry_new base64 clients) source = Pass \<longleftrightarrow>
    (\<exists>c \<in> set clients. source_creds source = credentials base64 c)"
proof -
  have "source_creds source \<in> dom (registry_new base64 clients) \<longleftrightarrow>
      (\<exists>c \<in> set clients. source_creds source = credentials base64 c)"
    by (auto simp: registry_new_def dom_collect_map image_iff)
  then show ?thesis
    by (cases "registry_new base64 clients (source_creds source)") (simp_all add: authenticate_def dom_def)
qed

lemma registry_username:
  "auth_username (registry_new base64 clients) source = Some u \<Longrightarrow>
    \<exists>c \<in> set clients. source_creds source = credentials base64 c \<and> u = cl_username c"
  by (auto simp: auth_username_def registry_new_def dest!: collect_map_eq_Some)

end
