(* ===== verification/Settings.thy ===== *)
theory Settings
  imports Rules Authentication
begin

text \<open>
  The endpoint's configuration, \<^verbatim>\<open>lib/src/settings.rs\<close>: the settings records with their defaults and
  builders, their validation, and the reading of the rules file. Durations are in seconds. The file
  system is a parameter (\<open>load_certs\<close>, \<open>load_private_key\<close>); name resolution of the address setters is
  the list of resolved addresses they are given.
\<close>

section \<open>Errors\<close>

datatype validation_error =
    ListenAddressNotSet
  | MainTlsHostInfo string
  | PingTlsHostInfo string
  | SpeedTlsHostInfo string
  | ReverseProxyError string
  | SubscriptionError string
  | ListenProtocols string
  | InvalidPath string
  | RulesFile string
  | NoCredentialsOnPublicAddress
  | InvalidAuthFailureStatusCode u16

fun validation_error_debug :: "validation_error \<Rightarrow> string" where
  "validation_error_debug ListenAddressNotSet = ''Listen address is not set''"
| "validation_error_debug (MainTlsHostInfo x) = ''Invalid main TLS hosts: '' @ x"
| "validation_error_debug (PingTlsHostInfo x) = ''Invalid ping TLS hosts: '' @ x"
| "validation_error_debug (SpeedTlsHostInfo x) = ''Invalid speedtest TLS hosts: '' @ x"
| "validation_error_debug (ReverseProxyError x) = ''Invalid reverse proxy settings: '' @ x"
| "validation_error_debug (SubscriptionError x) = ''Invalid subscription settings: '' @ x"
| "validation_error_debug (ListenProtocols x) = ''Invalid listen protocols settings: '' @ x"
| "validation_error_debug (InvalidPath x) = ''Invalid request path: '' @ x"
| "validation_error_debug (RulesFile x) = ''Invalid rules file: '' @ x"
| "validation_error_debug NoCredentialsOnPublicAddress =
     ''No credentials configured (credentials_file is missing) while listening on a public address. ''
     @ ''This is a security risk. Either configure credentials or use a loopback address (127.0.0.1 or ::1)''"
| "validation_error_debug (InvalidAuthFailureStatusCode code) =
     ''Invalid auth_failure_status_code: '' @ show_nat (unat code)
     @ ''. Supported values: 407, 405, 404, 403''"

datatype socks5_error = AddressNotSet

fun socks5_error_debug :: "socks5_error \<Rightarrow> string" where
  "socks5_error_debug AddressNotSet = ''Server address is not set''"

section \<open>Records\<close>

record subscription_settings =
  su_enabled :: bool
  su_hostname :: "string option"
  su_path :: string
  su_address :: "string option"
  su_name :: "string option"
  su_dns_upstreams :: "string list"
  su_custom_sni :: "string option"
  su_client_random_prefix :: "string option"

definition default_subscription_path :: string where
  "default_subscription_path = ''/subscription''"

definition default_subscription_settings :: subscription_settings where
  "default_subscription_settings = \<lparr>su_enabled = False, su_hostname = None,
     su_path = default_subscription_path, su_address = None, su_name = None, su_dns_upstreams = [],
     su_custom_sni = None, su_client_random_prefix = None\<rparr>"

record tls_host_info =
  th_hostname :: string
  th_cert_chain_path :: string
  th_private_key_path :: string
  th_allowed_sni :: "string list"

record tls_hosts_settings =
  ts_main_hosts :: "tls_host_info list"
  ts_ping_hosts :: "tls_host_info list"
  ts_speedtest_hosts :: "tls_host_info list"
  ts_reverse_proxy_hosts :: "tls_host_info list"
  ts_built :: bool

record reverse_proxy_settings =
  rp_server_address :: socket_addr
  rp_path_mask :: string
  rp_h3_backward_compatibility :: bool

record socks5_forwarder_settings =
  so_address :: socket_addr
  so_extended_auth :: bool

datatype forward_protocol_settings = Direct | Socks5 socks5_forwarder_settings

record http1_settings =
  h1_upload_buffer_size :: nat

record http2_settings =
  h2_initial_connection_window_size :: u32
  h2_initial_stream_window_size :: u32
  h2_max_concurrent_streams :: u32
  h2_max_frame_size :: u32
  h2_header_table_size :: u32

record quic_settings =
  q_recv_udp_payload_size :: nat
  q_send_udp_payload_size :: nat
  q_initial_max_data :: u64
  q_initial_max_stream_data_bidi_local :: u64
  q_initial_max_stream_data_bidi_remote :: u64
  q_initial_max_stream_data_uni :: u64
  q_initial_max_streams_bidi :: u64
  q_initial_max_streams_uni :: u64
  q_max_connection_window :: u64
  q_max_stream_window :: u64
  q_disable_active_migration :: bool
  q_enable_early_data :: bool
  q_message_queue_capacity :: nat

record listen_protocol_settings =
  lp_http1 :: "http1_settings option"
  lp_http2 :: "http2_settings option"
  lp_quic :: "quic_settings option"

record icmp_settings =
  ics_interface_name :: string
  ics_request_timeout :: nat
  ics_recv_message_queue_capacity :: nat

record metrics_settings =
  ms_address :: socket_addr
  ms_request_timeout :: nat
  ms_per_client_metrics :: bool

record settings =
  se_listen_address :: socket_addr
  se_ipv6_available :: bool
  se_allow_private_network_connections :: bool
  se_tls_handshake_timeout :: nat
  se_client_listener_timeout :: nat
  se_connection_establishment_timeout :: nat
  se_tcp_connections_timeout :: nat
  se_udp_connections_timeout :: nat
  se_forward_protocol :: forward_protocol_settings
  se_listen_protocols :: listen_protocol_settings
  se_clients :: "client list"
  se_reverse_proxy :: "reverse_proxy_settings option"
  se_subscription :: "subscription_settings option"
  se_icmp :: "icmp_settings option"
  se_metrics :: "metrics_settings option"
  se_rules_engine :: "rules_config option"
  se_speedtest_enable :: bool
  se_ping_enable :: bool
  se_ping_path :: "string option"
  se_speedtest_path :: "string option"
  se_auth_failure_status_code :: u16
  se_non_connect_auth_failure_status_code :: "u16 option"
  se_default_max_http2_conns_per_client :: "u32 option"
  se_default_max_http3_conns_per_client :: "u32 option"
  se_built :: bool

section \<open>Validation\<close>

fun ip_is_unspecified :: "ip_addr \<Rightarrow> bool" where
  "ip_is_unspecified (V4 a) \<longleftrightarrow> a = 0"
| "ip_is_unspecified (V6 a) \<longleftrightarrow> is_unspecified_v6 a"

fun ip_is_loopback :: "ip_addr \<Rightarrow> bool" where
  "ip_is_loopback (V4 a) \<longleftrightarrow> is_loopback_v4 a"
| "ip_is_loopback (V6 a) \<longleftrightarrow> is_loopback_v6 a"

definition is_valid_auth_failure_status_code :: "u16 \<Rightarrow> bool" where
  "is_valid_auth_failure_status_code code \<longleftrightarrow> code = 407 \<or> code = 405 \<or> code = 404 \<or> code = 403"

definition validate_request_path :: "string \<Rightarrow> string option \<Rightarrow> (validation_error, unit) result" where
  "validate_request_path name path =
    (case path of
       None \<Rightarrow> Ok ()
     | Some path \<Rightarrow>
         if path = [] \<or> \<not> starts_with path ''/'' then Err (InvalidPath (name @ '': '' @ path)) else Ok ())"

definition validate_request_path_overlaps :: "string option \<Rightarrow> string option \<Rightarrow> (validation_error, unit) result" where
  "validate_request_path_overlaps left right =
    (case (left, right) of
       (Some left, Some right) \<Rightarrow>
         if left = right \<or> starts_with left right \<or> starts_with right left
         then Err (InvalidPath (''path overlap: '' @ left @ '' vs '' @ right)) else Ok ()
     | _ \<Rightarrow> Ok ())"

definition reverse_proxy_validate :: "reverse_proxy_settings \<Rightarrow> (validation_error, unit) result" where
  "reverse_proxy_validate self =
    (if sa_port (rp_server_address self) = 0 then Err (ReverseProxyError ''Server address is not set'')
     else if rp_path_mask self = [] \<or> \<not> starts_with (rp_path_mask self) ''/''
     then Err (ReverseProxyError (''Invalid path mask: '' @ rp_path_mask self))
     else Ok ())"

definition settings_validate :: "settings \<Rightarrow> (validation_error, unit) result" where
  "settings_validate self =
    (if ip_is_unspecified (sa_ip (se_listen_address self)) \<and> sa_port (se_listen_address self) = 0
     then Err ListenAddressNotSet
     else
       rbind (case se_reverse_proxy self of None \<Rightarrow> Ok () | Some rp \<Rightarrow> reverse_proxy_validate rp) (\<lambda>_.
       rbind (validate_request_path ''ping_path'' (se_ping_path self)) (\<lambda>_.
       rbind (validate_request_path ''speedtest_path'' (se_speedtest_path self)) (\<lambda>_.
       rbind (validate_request_path_overlaps (se_ping_path self) (se_speedtest_path self)) (\<lambda>_.
       if lp_http1 (se_listen_protocols self) = None \<and> lp_http2 (se_listen_protocols self) = None
          \<and> lp_quic (se_listen_protocols self) = None
       then Err (ListenProtocols ''Not set'')
       else if se_clients self = [] \<and> \<not> ip_is_loopback (sa_ip (se_listen_address self))
       then Err NoCredentialsOnPublicAddress
       else if \<not> is_valid_auth_failure_status_code (se_auth_failure_status_code self)
       then Err (InvalidAuthFailureStatusCode (se_auth_failure_status_code self))
       else
         case se_non_connect_auth_failure_status_code self of
           Some code \<Rightarrow>
             if \<not> is_valid_auth_failure_status_code code then Err (InvalidAuthFailureStatusCode code) else Ok ()
         | None \<Rightarrow> Ok ())))))"

type_synonym load_fun = "string \<Rightarrow> (string, unit) result"

fun validate_tls_hosts ::
  "load_fun \<Rightarrow> load_fun \<Rightarrow> tls_host_info list \<Rightarrow> string list \<Rightarrow> (string, string list) result" where
  "validate_tls_hosts load_certs load_private_key [] unique_hosts = Ok unique_hosts"
| "validate_tls_hosts load_certs load_private_key (h # hosts) unique_hosts =
    rbind (map_err (\<lambda>e. ''Invalid cert chain: path='' @ [CHR 0x27] @ th_cert_chain_path h @ [CHR 0x27]
                        @ '', error='' @ [CHR 0x27] @ e @ [CHR 0x27])
             (load_certs (th_cert_chain_path h))) (\<lambda>_.
    rbind (map_err (\<lambda>e. ''Invalid key: path='' @ [CHR 0x27] @ th_private_key_path h @ [CHR 0x27]
                        @ '', error='' @ [CHR 0x27] @ e @ [CHR 0x27])
             (load_private_key (th_private_key_path h))) (\<lambda>_.
    if th_hostname h \<in> set unique_hosts then Err (''Hostname must be unique: '' @ th_hostname h)
    else validate_tls_hosts load_certs load_private_key hosts (th_hostname h # unique_hosts)))"

definition tls_hosts_validate :: "load_fun \<Rightarrow> load_fun \<Rightarrow> tls_hosts_settings \<Rightarrow> (validation_error, unit) result" where
  "tls_hosts_validate load_certs load_private_key self =
    (if ts_main_hosts self = [] then Err (MainTlsHostInfo ''Not set'')
     else
       rbind (map_err MainTlsHostInfo (validate_tls_hosts load_certs load_private_key (ts_main_hosts self) [])) (\<lambda>hosts.
       rbind (map_err PingTlsHostInfo (validate_tls_hosts load_certs load_private_key (ts_ping_hosts self) hosts)) (\<lambda>hosts.
       rbind (map_err SpeedTlsHostInfo (validate_tls_hosts load_certs load_private_key (ts_speedtest_hosts self) hosts)) (\<lambda>hosts.
       rbind (map_err ReverseProxyError (validate_tls_hosts load_certs load_private_key (ts_reverse_proxy_hosts self) hosts)) (\<lambda>_.
       Ok ())))))"

section \<open>Defaults\<close>

definition default_listen_address :: "socket_addr" where "default_listen_address = \<lparr>sa_ip = V4 0, sa_port = 443\<rparr>"
definition default_ipv6_available :: "bool" where "default_ipv6_available = True"
definition default_allow_private_network_connections :: "bool" where "default_allow_private_network_connections = False"
definition default_tls_handshake_timeout :: "nat" where "default_tls_handshake_timeout = 10"
definition default_client_listener_timeout :: "nat" where "default_client_listener_timeout = 10 * 60"
definition default_connection_establishment_timeout :: "nat" where "default_connection_establishment_timeout = 30"
definition default_tcp_connections_timeout :: "nat" where "default_tcp_connections_timeout = 604800"
definition default_udp_connections_timeout :: "nat" where "default_udp_connections_timeout = 300"
definition default_speedtest_enable :: "bool" where "default_speedtest_enable = False"
definition default_speedtest_path :: "string option" where "default_speedtest_path = Some ''/speedtest''"
definition default_ping_enable :: "bool" where "default_ping_enable = False"
definition default_ping_path :: "string option" where "default_ping_path = Some ''/ping''"
definition default_auth_failure_status_code :: "u16" where "default_auth_failure_status_code = 407"
definition default_upload_buffer_size :: "nat" where "default_upload_buffer_size = 32 * 1024"
definition default_initial_connection_window_size :: "u32" where "default_initial_connection_window_size = 8 * 1024 * 1024"
definition default_initial_stream_window_size :: "u32" where "default_initial_stream_window_size = 128 * 1024"
definition default_max_concurrent_streams :: "u32" where "default_max_concurrent_streams = 1000"
definition default_max_frame_size :: "u32" where "default_max_frame_size = push_bit 14 1"
definition default_header_table_size :: "u32" where "default_header_table_size = 65536"
definition quic_default_recv_udp_payload_size :: "nat" where "quic_default_recv_udp_payload_size = 1350"
definition quic_default_send_udp_payload_size :: "nat" where "quic_default_send_udp_payload_size = 1350"
definition quic_default_initial_max_data :: "u64" where "quic_default_initial_max_data = 100 * 1024 * 1024"
definition quic_default_initial_max_stream_data_bidi_local :: "u64" where "quic_default_initial_max_stream_data_bidi_local = 1024 * 1024"
definition quic_default_initial_max_stream_data_bidi_remote :: "u64" where "quic_default_initial_max_stream_data_bidi_remote = 1024 * 1024"
definition quic_default_initial_max_stream_data_uni :: "u64" where "quic_default_initial_max_stream_data_uni = 1024 * 1024"
definition quic_default_initial_max_streams_bidi :: "u64" where "quic_default_initial_max_streams_bidi = 4 * 1024"
definition quic_default_initial_max_streams_uni :: "u64" where "quic_default_initial_max_streams_uni = 4 * 1024"
definition quic_default_max_connection_window :: "u64" where "quic_default_max_connection_window = 24 * 1024 * 1024"
definition quic_default_max_stream_window :: "u64" where "quic_default_max_stream_window = 16 * 1024 * 1024"
definition quic_default_disable_active_migration :: "bool" where "quic_default_disable_active_migration = True"
definition quic_default_enable_early_data :: "bool" where "quic_default_enable_early_data = True"
definition quic_default_message_queue_capacity :: "nat" where "quic_default_message_queue_capacity = 4 * 1024"
definition icmp_default_request_timeout :: "nat" where "icmp_default_request_timeout = 3"
definition icmp_default_message_queue_capacity :: "nat" where "icmp_default_message_queue_capacity = 256"
definition metrics_default_listen_address :: "socket_addr" where "metrics_default_listen_address = \<lparr>sa_ip = V4 0x7F000001, sa_port = 1987\<rparr>"
definition metrics_default_request_timeout :: "nat" where "metrics_default_request_timeout = 3"
definition metrics_default_per_client_metrics :: "bool" where "metrics_default_per_client_metrics = False"

text \<open>The interface name default depends on the platform the endpoint is built for.\<close>

definition icmp_default_interface_name :: "bool \<Rightarrow> string" where
  "icmp_default_interface_name linux = (if linux then ''eth0'' else ''en0'')"

definition default_metrics_settings :: metrics_settings where
  "default_metrics_settings = \<lparr>ms_address = metrics_default_listen_address,
     ms_request_timeout = metrics_default_request_timeout,
     ms_per_client_metrics = metrics_default_per_client_metrics\<rparr>"

definition default_forward_protocol :: forward_protocol_settings where
  "default_forward_protocol = Direct"

section \<open>Builders\<close>

text \<open>A builder wraps the record it builds; its methods update one field.\<close>

definition settings_builder_new :: settings where
  "settings_builder_new =
    \<lparr>se_listen_address = default_listen_address,
     se_ipv6_available = default_ipv6_available,
     se_allow_private_network_connections = default_allow_private_network_connections,
     se_tls_handshake_timeout = default_tls_handshake_timeout,
     se_client_listener_timeout = default_client_listener_timeout,
     se_connection_establishment_timeout = default_connection_establishment_timeout,
     se_tcp_connections_timeout = default_tcp_connections_timeout,
     se_udp_connections_timeout = default_udp_connections_timeout,
     se_forward_protocol = default_forward_protocol,
     se_listen_protocols = \<lparr>lp_http1 = None, lp_http2 = None, lp_quic = None\<rparr>,
     se_clients = [],
     se_reverse_proxy = None,
     se_subscription = None,
     se_icmp = None,
     se_metrics = None,
     se_rules_engine = Some default_allow,
     se_speedtest_enable = default_speedtest_enable,
     se_ping_enable = default_ping_enable,
     se_ping_path = default_ping_path,
     se_speedtest_path = default_speedtest_path,
     se_auth_failure_status_code = default_auth_failure_status_code,
     se_non_connect_auth_failure_status_code = None,
     se_default_max_http2_conns_per_client = None,
     se_default_max_http3_conns_per_client = None,
     se_built = True\<rparr>"

definition settings_build :: "settings \<Rightarrow> (validation_error, settings) result" where
  "settings_build self = rbind (settings_validate self) (\<lambda>_. Ok self)"

text \<open>The address setters take the first resolved address.\<close>

definition first_address :: "(io_error, socket_addr list) result \<Rightarrow> (io_error, socket_addr) result" where
  "first_address r =
    rbind r (\<lambda>addrs. case addrs of
       [] \<Rightarrow> Err (IoError Other ''Address is parsed to empty list'')
     | a # _ \<Rightarrow> Ok a)"

definition set_listen_address ::
  "(io_error, socket_addr list) result \<Rightarrow> settings \<Rightarrow> (io_error, settings) result" where
  "set_listen_address addr self = rbind (first_address addr) (\<lambda>a. Ok (self\<lparr>se_listen_address := a\<rparr>))"

definition set_reverse_proxy :: "reverse_proxy_settings \<Rightarrow> settings \<Rightarrow> settings" where
  "set_reverse_proxy v self = self\<lparr>se_reverse_proxy := Some v\<rparr>"

definition set_subscription :: "subscription_settings \<Rightarrow> settings \<Rightarrow> settings" where
  "set_subscription v self = self\<lparr>se_subscription := Some v\<rparr>"

definition set_ipv6_available :: "bool \<Rightarrow> settings \<Rightarrow> settings" where
  "set_ipv6_available v self = self\<lparr>se_ipv6_available := v\<rparr>"

definition set_allow_private_network_connections :: "bool \<Rightarrow> settings \<Rightarrow> settings" where
  "set_allow_private_network_connections v self = self\<lparr>se_allow_private_network_connections := v\<rparr>"

definition set_tls_handshake_timeout :: "nat \<Rightarrow> settings \<Rightarrow> settings" where
  "set_tls_handshake_timeout v self = self\<lparr>se_tls_handshake_timeout := v\<rparr>"

definition set_client_listener_timeout :: "nat \<Rightarrow> settings \<Rightarrow> settings" where
  "set_client_listener_timeout v self = self\<lparr>se_client_listener_timeout := v\<rparr>"

definition set_connection_establishment_timeout :: "nat \<Rightarrow> settings \<Rightarrow> settings" where
  "set_connection_establishment_timeout v self = self\<lparr>se_connection_establishment_timeout := v\<rparr>"

definition set_tcp_connections_timeout :: "nat \<Rightarrow> settings \<Rightarrow> settings" where
  "set_tcp_connections_timeout v self = self\<lparr>se_tcp_connections_timeout := v\<rparr>"

definition set_udp_connections_timeout :: "nat \<Rightarrow> settings \<Rightarrow> settings" where
  "set_udp_connections_timeout v self = self\<lparr>se_udp_connections_timeout := v\<rparr>"

definition set_forward_protocol :: "forward_protocol_settings \<Rightarrow> settings \<Rightarrow> settings" where
  "set_forward_protocol v self = self\<lparr>se_forward_protocol := v\<rparr>"

definition set_listen_protocols :: "listen_protocol_settings \<Rightarrow> settings \<Rightarrow> settings" where
  "set_listen_protocols v self = self\<lparr>se_listen_protocols := v\<rparr>"

definition set_clients :: "client list \<Rightarrow> settings \<Rightarrow> settings" where
  "set_clients v self = self\<lparr>se_clients := v\<rparr>"

definition set_icmp :: "icmp_settings \<Rightarrow> settings \<Rightarrow> settings" where
  "set_icmp v self = self\<lparr>se_icmp := Some v\<rparr>"

definition set_metrics :: "metrics_settings \<Rightarrow> settings \<Rightarrow> settings" where
  "set_metrics v self = self\<lparr>se_metrics := Some v\<rparr>"

definition set_rules_engine :: "rules_config \<Rightarrow> settings \<Rightarrow> settings" where
  "set_rules_engine v self = self\<lparr>se_rules_engine := Some v\<rparr>"

definition set_speedtest_enable :: "bool \<Rightarrow> settings \<Rightarrow> settings" where
  "set_speedtest_enable v self = self\<lparr>se_speedtest_enable := v\<rparr>"

definition set_default_max_http2_conns_per_client :: "u32 option \<Rightarrow> settings \<Rightarrow> settings" where
  "set_default_max_http2_conns_per_client v self = self\<lparr>se_default_max_http2_conns_per_client := v\<rparr>"

definition set_default_max_http3_conns_per_client :: "u32 option \<Rightarrow> settings \<Rightarrow> settings" where
  "set_default_max_http3_conns_per_client v self = self\<lparr>se_default_max_http3_conns_per_client := v\<rparr>"

definition set_auth_failure_status_code :: "u16 \<Rightarrow> settings \<Rightarrow> settings" where
  "set_auth_failure_status_code v self = self\<lparr>se_auth_failure_status_code := v\<rparr>"

definition set_non_connect_auth_failure_status_code :: "u16 option \<Rightarrow> settings \<Rightarrow> settings" where
  "set_non_connect_auth_failure_status_code v self = self\<lparr>se_non_connect_auth_failure_status_code := v\<rparr>"

definition set_ping_enable :: "bool \<Rightarrow> settings \<Rightarrow> settings" where
  "set_ping_enable v self = self\<lparr>se_ping_enable := v\<rparr>"

definition set_ping_path :: "string \<Rightarrow> settings \<Rightarrow> settings" where
  "set_ping_path v self = self\<lparr>se_ping_path := Some v\<rparr>"

definition set_speedtest_path :: "string \<Rightarrow> settings \<Rightarrow> settings" where
  "set_speedtest_path v self = self\<lparr>se_speedtest_path := Some v\<rparr>"

definition tls_settings_builder_new :: tls_hosts_settings where
  "tls_settings_builder_new = \<lparr>ts_main_hosts = [], ts_ping_hosts = [], ts_speedtest_hosts = [],
     ts_reverse_proxy_hosts = [], ts_built = True\<rparr>"

definition tls_settings_build ::
  "load_fun \<Rightarrow> load_fun \<Rightarrow> tls_hosts_settings \<Rightarrow> (validation_error, tls_hosts_settings) result" where
  "tls_settings_build load_certs load_private_key self =
    rbind (tls_hosts_validate load_certs load_private_key self) (\<lambda>_. Ok self)"

definition set_main_hosts :: "tls_host_info list \<Rightarrow> tls_hosts_settings \<Rightarrow> tls_hosts_settings" where
  "set_main_hosts v self = self\<lparr>ts_main_hosts := v\<rparr>"

definition set_ping_hosts :: "tls_host_info list \<Rightarrow> tls_hosts_settings \<Rightarrow> tls_hosts_settings" where
  "set_ping_hosts v self = self\<lparr>ts_ping_hosts := v\<rparr>"

definition set_speedtest_hosts :: "tls_host_info list \<Rightarrow> tls_hosts_settings \<Rightarrow> tls_hosts_settings" where
  "set_speedtest_hosts v self = self\<lparr>ts_speedtest_hosts := v\<rparr>"

definition set_reverse_proxy_hosts :: "tls_host_info list \<Rightarrow> tls_hosts_settings \<Rightarrow> tls_hosts_settings" where
  "set_reverse_proxy_hosts v self = self\<lparr>ts_reverse_proxy_hosts := v\<rparr>"

definition socks5_builder_new :: socks5_forwarder_settings where
  "socks5_builder_new = \<lparr>so_address = \<lparr>sa_ip = V4 0, sa_port = 0\<rparr>, so_extended_auth = False\<rparr>"

definition socks5_build :: "socks5_forwarder_settings \<Rightarrow> (socks5_error, socks5_forwarder_settings) result" where
  "socks5_build self =
    (if ip_is_unspecified (sa_ip (so_address self)) then Err AddressNotSet else Ok self)"

definition set_socks5_server_address ::
  "(io_error, socket_addr list) result \<Rightarrow> socks5_forwarder_settings \<Rightarrow> (io_error, socks5_forwarder_settings) result" where
  "set_socks5_server_address addr self = rbind (first_address addr) (\<lambda>a. Ok (self\<lparr>so_address := a\<rparr>))"

definition set_extended_auth :: "bool \<Rightarrow> socks5_forwarder_settings \<Rightarrow> socks5_forwarder_settings" where
  "set_extended_auth v self = self\<lparr>so_extended_auth := v\<rparr>"

definition http1_builder_new :: http1_settings where
  "http1_builder_new = \<lparr>h1_upload_buffer_size = default_upload_buffer_size\<rparr>"

definition http2_builder_new :: http2_settings where
  "http2_builder_new =
    \<lparr>h2_initial_connection_window_size = default_initial_connection_window_size,
     h2_initial_stream_window_size = default_initial_stream_window_size,
     h2_max_concurrent_streams = default_max_concurrent_streams,
     h2_max_frame_size = default_max_frame_size,
     h2_header_table_size = default_header_table_size\<rparr>"

definition set_initial_connection_window_size :: "u32 \<Rightarrow> http2_settings \<Rightarrow> http2_settings" where
  "set_initial_connection_window_size v self = self\<lparr>h2_initial_connection_window_size := v\<rparr>"

definition set_initial_stream_window_size :: "u32 \<Rightarrow> http2_settings \<Rightarrow> http2_settings" where
  "set_initial_stream_window_size v self = self\<lparr>h2_initial_stream_window_size := v\<rparr>"

definition set_max_concurrent_streams :: "u32 \<Rightarrow> http2_settings \<Rightarrow> http2_settings" where
  "set_max_concurrent_streams v self = self\<lparr>h2_max_concurrent_streams := v\<rparr>"

definition set_max_frame_size :: "u32 \<Rightarrow> http2_settings \<Rightarrow> http2_settings" where
  "set_max_frame_size v self = self\<lparr>h2_max_frame_size := v\<rparr>"

definition set_header_table_size :: "u32 \<Rightarrow> http2_settings \<Rightarrow> http2_settings" where
  "set_header_table_size v self = self\<lparr>h2_header_table_size := v\<rparr>"

definition quic_builder_new :: quic_settings where
  "quic_builder_new =
    \<lparr>q_recv_udp_payload_size = quic_default_recv_udp_payload_size,
     q_send_udp_payload_size = quic_default_send_udp_payload_size,
     q_initial_max_data = quic_default_initial_max_data,
     q_initial_max_stream_data_bidi_local = quic_default_initial_max_stream_data_bidi_local,
     q_initial_max_stream_data_bidi_remote = quic_default_initial_max_stream_data_bidi_remote,
     q_initial_max_stream_data_uni = quic_default_initial_max_stream_data_uni,
     q_initial_max_streams_bidi = quic_default_initial_max_streams_bidi,
     q_initial_max_streams_uni = quic_default_initial_max_streams_uni,
     q_max_connection_window = quic_default_max_connection_window,
     q_max_stream_window = quic_default_max_stream_window,
     q_disable_active_migration = quic_default_disable_active_migration,
     q_enable_early_data = quic_default_enable_early_data,
     q_message_queue_capacity = quic_default_message_queue_capacity\<rparr>"

definition set_quic_recv_udp_payload_size :: "nat \<Rightarrow> quic_settings \<Rightarrow> quic_settings" where
  "set_quic_recv_udp_payload_size v self = self\<lparr>q_recv_udp_payload_size := v\<rparr>"

definition set_quic_send_udp_payload_size :: "nat \<Rightarrow> quic_settings \<Rightarrow> quic_settings" where
  "set_quic_send_udp_payload_size v self = self\<lparr>q_send_udp_payload_size := v\<rparr>"

definition set_quic_initial_max_data :: "u64 \<Rightarrow> quic_settings \<Rightarrow> quic_settings" where
  "set_quic_initial_max_data v self = self\<lparr>q_initial_max_data := v\<rparr>"

definition set_quic_initial_max_stream_data_bidi_local :: "u64 \<Rightarrow> quic_settings \<Rightarrow> quic_settings" where
  "set_quic_initial_max_stream_data_bidi_local v self = self\<lparr>q_initial_max_stream_data_bidi_local := v\<rparr>"

definition set_quic_initial_max_stream_data_bidi_remote :: "u64 \<Rightarrow> quic_settings \<Rightarrow> quic_settings" where
  "set_quic_initial_max_stream_data_bidi_remote v self = self\<lparr>q_initial_max_stream_data_bidi_remote := v\<rparr>"

definition set_quic_initial_max_stream_data_uni :: "u64 \<Rightarrow> quic_settings \<Rightarrow> quic_settings" where
  "set_quic_initial_max_stream_data_uni v self = self\<lparr>q_initial_max_stream_data_uni := v\<rparr>"

definition set_quic_initial_max_streams_bidi :: "u64 \<Rightarrow> quic_settings \<Rightarrow> quic_settings" where
  "set_quic_initial_max_streams_bidi v self = self\<lparr>q_initial_max_streams_bidi := v\<rparr>"

definition set_quic_initial_max_streams_uni :: "u64 \<Rightarrow> quic_settings \<Rightarrow> quic_settings" where
  "set_quic_initial_max_streams_uni v self = self\<lparr>q_initial_max_streams_uni := v\<rparr>"

definition set_quic_max_connection_window :: "u64 \<Rightarrow> quic_settings \<Rightarrow> quic_settings" where
  "set_quic_max_connection_window v self = self\<lparr>q_max_connection_window := v\<rparr>"

definition set_quic_max_stream_window :: "u64 \<Rightarrow> quic_settings \<Rightarrow> quic_settings" where
  "set_quic_max_stream_window v self = self\<lparr>q_max_stream_window := v\<rparr>"

definition set_quic_disable_active_migration :: "bool \<Rightarrow> quic_settings \<Rightarrow> quic_settings" where
  "set_quic_disable_active_migration v self = self\<lparr>q_disable_active_migration := v\<rparr>"

definition set_quic_enable_early_data :: "bool \<Rightarrow> quic_settings \<Rightarrow> quic_settings" where
  "set_quic_enable_early_data v self = self\<lparr>q_enable_early_data := v\<rparr>"

definition set_quic_message_queue_capacity :: "nat \<Rightarrow> quic_settings \<Rightarrow> quic_settings" where
  "set_quic_message_queue_capacity v self = self\<lparr>q_message_queue_capacity := v\<rparr>"

definition reverse_proxy_builder_new :: reverse_proxy_settings where
  "reverse_proxy_builder_new = \<lparr>rp_server_address = \<lparr>sa_ip = V4 0, sa_port = 0\<rparr>, rp_path_mask = [],
     rp_h3_backward_compatibility = False\<rparr>"

definition reverse_proxy_build :: "reverse_proxy_settings \<Rightarrow> (validation_error, reverse_proxy_settings) result" where
  "reverse_proxy_build self = rbind (reverse_proxy_validate self) (\<lambda>_. Ok self)"

definition set_rp_server_address ::
  "(io_error, socket_addr list) result \<Rightarrow> reverse_proxy_settings \<Rightarrow> (io_error, reverse_proxy_settings) result" where
  "set_rp_server_address addr self = rbind (first_address addr) (\<lambda>a. Ok (self\<lparr>rp_server_address := a\<rparr>))"

definition set_path_mask :: "string \<Rightarrow> reverse_proxy_settings \<Rightarrow> reverse_proxy_settings" where
  "set_path_mask v self = self\<lparr>rp_path_mask := v\<rparr>"

definition set_h3_backward_compatibility :: "bool \<Rightarrow> reverse_proxy_settings \<Rightarrow> reverse_proxy_settings" where
  "set_h3_backward_compatibility v self = self\<lparr>rp_h3_backward_compatibility := v\<rparr>"

definition icmp_builder_new :: icmp_settings where
  "icmp_builder_new = \<lparr>ics_interface_name = [], ics_request_timeout = icmp_default_request_timeout,
     ics_recv_message_queue_capacity = icmp_default_message_queue_capacity\<rparr>"

definition set_interface_name :: "string \<Rightarrow> icmp_settings \<Rightarrow> icmp_settings" where
  "set_interface_name v self = self\<lparr>ics_interface_name := v\<rparr>"

definition set_icmp_request_timeout :: "nat \<Rightarrow> icmp_settings \<Rightarrow> icmp_settings" where
  "set_icmp_request_timeout v self = self\<lparr>ics_request_timeout := v\<rparr>"

definition set_recv_message_queue_capacity :: "nat \<Rightarrow> icmp_settings \<Rightarrow> icmp_settings" where
  "set_recv_message_queue_capacity v self = self\<lparr>ics_recv_message_queue_capacity := v\<rparr>"

definition metrics_builder_new :: metrics_settings where
  "metrics_builder_new = default_metrics_settings"

definition set_metrics_listen_address ::
  "(io_error, socket_addr list) result \<Rightarrow> metrics_settings \<Rightarrow> (io_error, metrics_settings) result" where
  "set_metrics_listen_address addr self = rbind (first_address addr) (\<lambda>a. Ok (self\<lparr>ms_address := a\<rparr>))"

definition set_metrics_request_timeout :: "nat \<Rightarrow> metrics_settings \<Rightarrow> metrics_settings" where
  "set_metrics_request_timeout v self = self\<lparr>ms_request_timeout := v\<rparr>"

definition set_per_client_metrics :: "bool \<Rightarrow> metrics_settings \<Rightarrow> metrics_settings" where
  "set_per_client_metrics v self = self\<lparr>ms_per_client_metrics := v\<rparr>"

section \<open>The rules file\<close>

text \<open>A TOML table is seen through \<open>get(key).and_then(as_str)\<close>; reading the file and parsing the document
  are parameters. A document is the list of its \<open>rule\<close> tables, if it has that array.\<close>

type_synonym toml_table = "string \<Rightarrow> string option"

definition rule_of_table :: "toml_table \<Rightarrow> rule option" where
  "rule_of_table t =
    (case t ''action'' of
       None \<Rightarrow> None
     | Some s \<Rightarrow>
         map_option (\<lambda>action.
             \<lparr>ru_cidr = t ''cidr'', ru_client_random_prefix = t ''client_random_prefix'',
              ru_client_random_auth_key = t ''client_random_auth_key'', ru_action = action\<rparr>)
           (if s = ''allow'' then Some ActAllow else if s = ''deny'' then Some ActDeny else None))"

definition deserialize_rules ::
  "(string, string) result \<Rightarrow> (string \<Rightarrow> (string, string) result)
   \<Rightarrow> (string \<Rightarrow> (string, toml_table list option) result) \<Rightarrow> rules_config option" where
  "deserialize_rules file_path read_to_string parse =
    (case file_path of
       Inl _ \<Rightarrow> Some default_allow
     | Inr path \<Rightarrow>
         (case read_to_string path of
            Inl _ \<Rightarrow> Some default_allow
          | Inr content \<Rightarrow>
              (case parse content of
                 Inl _ \<Rightarrow> Some default_allow
               | Inr (Some rules_array) \<Rightarrow> Some (List.map_filter rule_of_table rules_array)
               | Inr None \<Rightarrow> Some [])))"

section \<open>Lemmas\<close>

definition path_ok :: "string option \<Rightarrow> bool" where
  "path_ok path = (case path of None \<Rightarrow> True | Some p \<Rightarrow> starts_with p ''/'')"

text \<open>Two path prefixes that no path can start with at the same time.\<close>

definition paths_apart :: "string option \<Rightarrow> string option \<Rightarrow> bool" where
  "paths_apart left right =
    (case (left, right) of (Some l, Some r) \<Rightarrow> \<not> starts_with l r \<and> \<not> starts_with r l | _ \<Rightarrow> True)"

lemma starts_with_self [simp]: "starts_with s s"
  by (simp add: starts_with_def)

lemma starts_with_Nil [simp]: "\<not> starts_with [] ''/''"
  by (simp add: starts_with_def)

lemma validate_request_path_ok: "validate_request_path name path = Inr () \<longleftrightarrow> path_ok path"
  by (auto simp: validate_request_path_def path_ok_def split: option.splits)

lemma validate_overlaps_ok: "validate_request_path_overlaps l r = Inr () \<longleftrightarrow> paths_apart l r"
  by (auto simp: validate_request_path_overlaps_def paths_apart_def split: option.splits)

lemma reverse_proxy_validate_ok:
  "reverse_proxy_validate rp = Inr () \<longleftrightarrow> sa_port (rp_server_address rp) \<noteq> 0 \<and> starts_with (rp_path_mask rp) ''/''"
  by (auto simp: reverse_proxy_validate_def)

lemma paths_apart_exclusive:
  "paths_apart (Some l) (Some r) \<Longrightarrow> starts_with p l \<Longrightarrow> starts_with p r \<Longrightarrow> False"
proof -
  assume apart: "paths_apart (Some l) (Some r)" and l: "starts_with p l" and r: "starts_with p r"
  from l obtain a where "p = l @ a" unfolding starts_with_iff by blast
  moreover from r obtain b where "p = r @ b" unfolding starts_with_iff by blast
  ultimately have "l @ a = r @ b" by simp
  then have "(\<exists>u. l = r @ u) \<or> (\<exists>u. r = l @ u)" by (auto simp: append_eq_append_conv2)
  with apart show False by (auto simp: paths_apart_def starts_with_iff)
qed

lemma settings_validate_ok:
  "settings_validate s = Inr () \<longleftrightarrow>
    \<not> (ip_is_unspecified (sa_ip (se_listen_address s)) \<and> sa_port (se_listen_address s) = 0) \<and>
    (case se_reverse_proxy s of None \<Rightarrow> True | Some rp \<Rightarrow> reverse_proxy_validate rp = Inr ()) \<and>
    path_ok (se_ping_path s) \<and> path_ok (se_speedtest_path s) \<and>
    paths_apart (se_ping_path s) (se_speedtest_path s) \<and>
    (lp_http1 (se_listen_protocols s) \<noteq> None \<or> lp_http2 (se_listen_protocols s) \<noteq> None
      \<or> lp_quic (se_listen_protocols s) \<noteq> None) \<and>
    (se_clients s \<noteq> [] \<or> ip_is_loopback (sa_ip (se_listen_address s))) \<and>
    is_valid_auth_failure_status_code (se_auth_failure_status_code s) \<and>
    (case se_non_connect_auth_failure_status_code s of
       None \<Rightarrow> True | Some code \<Rightarrow> is_valid_auth_failure_status_code code)"
  unfolding settings_validate_def
  by (simp add: rbind_eq_Inr_iff validate_request_path_ok validate_overlaps_ok split: option.split)

lemma validate_tls_hosts_ok:
  "validate_tls_hosts lc lk hs seen = Inr seen' \<longleftrightarrow>
    (\<forall>h \<in> set hs. is_ok (lc (th_cert_chain_path h)) \<and> is_ok (lk (th_private_key_path h))) \<and>
    distinct (map th_hostname hs) \<and> set (map th_hostname hs) \<inter> set seen = {} \<and>
    seen' = rev (map th_hostname hs) @ seen"
proof (induction hs arbitrary: seen)
  case (Cons h hs)
  show ?case by (auto simp: rbind_eq_Inr_iff is_ok_iff Cons.IH)
qed auto

lemma validate_tls_hosts_append:
  "validate_tls_hosts lc lk (hs @ hs') seen = Inr s \<longleftrightarrow>
    (\<exists>s1. validate_tls_hosts lc lk hs seen = Inr s1 \<and> validate_tls_hosts lc lk hs' s1 = Inr s)"
  by (induction hs arbitrary: seen) (auto simp: rbind_eq_Inr_iff)

lemma tls_hosts_validate_ok:
  "tls_hosts_validate lc lk t = Inr () \<longleftrightarrow>
    ts_main_hosts t \<noteq> [] \<and>
    (\<forall>h \<in> set (ts_main_hosts t @ ts_ping_hosts t @ ts_speedtest_hosts t @ ts_reverse_proxy_hosts t).
       is_ok (lc (th_cert_chain_path h)) \<and> is_ok (lk (th_private_key_path h))) \<and>
    distinct (map th_hostname (ts_main_hosts t @ ts_ping_hosts t @ ts_speedtest_hosts t @ ts_reverse_proxy_hosts t))"
proof (cases "ts_main_hosts t = []")
  case True
  then show ?thesis by (simp add: tls_hosts_validate_def)
next
  case False
  have "tls_hosts_validate lc lk t = Inr () \<longleftrightarrow> (\<exists>s1 s2 s3 s4.
      validate_tls_hosts lc lk (ts_main_hosts t) [] = Inr s1 \<and>
      validate_tls_hosts lc lk (ts_ping_hosts t) s1 = Inr s2 \<and>
      validate_tls_hosts lc lk (ts_speedtest_hosts t) s2 = Inr s3 \<and>
      validate_tls_hosts lc lk (ts_reverse_proxy_hosts t) s3 = Inr s4)"
    using False by (simp add: tls_hosts_validate_def rbind_eq_Inr_iff)
  also have "\<dots> \<longleftrightarrow> (\<exists>s. validate_tls_hosts lc lk (ts_main_hosts t @ ts_ping_hosts t
      @ ts_speedtest_hosts t @ ts_reverse_proxy_hosts t) [] = Inr s)"
    unfolding validate_tls_hosts_append by blast
  finally show ?thesis
    unfolding validate_tls_hosts_ok using False by simp
qed


section \<open>Properties\<close>

text \<open>C32: what a successful \<open>Settings::build\<close> guarantees. The built settings are the given ones, they
  listen on a usable address with at least one protocol, an endpoint without clients (and so without
  authentication) listens on the loopback interface only, the ping and speedtest paths are absolute and
  no request path has both as a prefix, and the authentication failure codes are among 403, 404, 405
  and 407.\<close>

theorem built_settings_are_safe:
  assumes "settings_build s = Inr s'"
  shows "s' = s \<and>
    (se_clients s = [] \<longrightarrow> ip_is_loopback (sa_ip (se_listen_address s))) \<and>
    \<not> (ip_is_unspecified (sa_ip (se_listen_address s)) \<and> sa_port (se_listen_address s) = 0) \<and>
    (lp_http1 (se_listen_protocols s) \<noteq> None \<or> lp_http2 (se_listen_protocols s) \<noteq> None
      \<or> lp_quic (se_listen_protocols s) \<noteq> None) \<and>
    (\<forall>p q path. se_ping_path s = Some p \<and> se_speedtest_path s = Some q \<longrightarrow>
       starts_with p ''/'' \<and> starts_with q ''/'' \<and> \<not> (starts_with path p \<and> starts_with path q)) \<and>
    se_auth_failure_status_code s \<in> {403, 404, 405, 407}"
proof -
  have valid: "settings_validate s = Inr ()" and "s' = s"
    using assms by (auto simp: settings_build_def rbind_eq_Inr_iff)
  have apart: "\<not> (starts_with path p \<and> starts_with path q)"
    if "se_ping_path s = Some p" "se_speedtest_path s = Some q" for p q path
    using valid that paths_apart_exclusive [of p q path] by (auto simp: settings_validate_ok)
  have paths: "starts_with p ''/'' \<and> starts_with q ''/''"
    if "se_ping_path s = Some p" "se_speedtest_path s = Some q" for p q
    using valid that by (simp add: settings_validate_ok path_ok_def)
  from valid have "se_clients s \<noteq> [] \<or> ip_is_loopback (sa_ip (se_listen_address s))"
      "\<not> (ip_is_unspecified (sa_ip (se_listen_address s)) \<and> sa_port (se_listen_address s) = 0)"
      "lp_http1 (se_listen_protocols s) \<noteq> None \<or> lp_http2 (se_listen_protocols s) \<noteq> None
        \<or> lp_quic (se_listen_protocols s) \<noteq> None"
      "se_auth_failure_status_code s \<in> {403, 404, 405, 407}"
    unfolding settings_validate_ok is_valid_auth_failure_status_code_def by auto
  with \<open>s' = s\<close> apart paths show ?thesis by blast
qed

definition loopback_settings :: settings where
  "loopback_settings = set_listen_protocols
     \<lparr>lp_http1 = Some http1_builder_new, lp_http2 = None, lp_quic = None\<rparr>
     (settings_builder_new\<lparr>se_listen_address := \<lparr>sa_ip = V6 1, sa_port = 443\<rparr>\<rparr>)"

theorem built_settings_are_safe_witness:
  "settings_build loopback_settings = Inr loopback_settings \<and> se_clients loopback_settings = [] \<and>
   ip_is_loopback (sa_ip (se_listen_address loopback_settings))"
proof -
  have "ip_is_loopback (V6 1)" "\<not> ip_is_unspecified (V6 1)"
    by (simp_all add: is_loopback_v6_def is_unspecified_v6_def)
  then have "settings_validate loopback_settings = Inr ()"
    by (simp add: settings_validate_ok loopback_settings_def set_listen_protocols_def settings_builder_new_def
        default_ping_path_def default_speedtest_path_def default_auth_failure_status_code_def path_ok_def
        paths_apart_def starts_with_def is_valid_auth_failure_status_code_def)
  then have built: "settings_build loopback_settings = Inr loopback_settings"
    by (simp add: settings_build_def rbind_def)
  have "se_clients loopback_settings = []"
    by (simp add: loopback_settings_def set_listen_protocols_def settings_builder_new_def)
  with built_settings_are_safe [OF built] built show ?thesis by blast
qed

text \<open>C37: a rules file that is not named, cannot be read or does not parse admits every connection: the
  filter fails open.\<close>

theorem rules_file_failure_admits_all:
  assumes "(\<exists>e. file_path = Inl e) \<or> (\<exists>p e. file_path = Inr p \<and> read_file p = Inl e) \<or>
    (\<exists>p content e. file_path = Inr p \<and> read_file p = Inr content \<and> parse content = Inl e)"
  shows "evaluate_connection_rules env (deserialize_rules file_path read_file parse) ip cr sni = Inr ()"
proof -
  have "deserialize_rules file_path read_file parse = Some default_allow"
    using assms by (auto simp: deserialize_rules_def)
  then show ?thesis
    by (simp add: evaluate_connection_rules_def evaluate_def default_allow_def split: option.split)
qed

theorem rules_file_failure_admits_all_witness:
  "evaluate_connection_rules \<lparr>re_parse_cidr = (\<lambda>_. None), re_hex_decode = (\<lambda>_. None),
       re_hkdf = (\<lambda>_ _. None), re_sha256 = id, re_aes_ecb = (\<lambda>_ _. None)\<rparr>
     (deserialize_rules (Inr ''rules.toml'') (\<lambda>_. Inr ''[[rule'') (\<lambda>_. Inl ''parse error''))
     (Some (V4 1)) None None = Inr ()"
  by (rule rules_file_failure_admits_all) auto

end
