(* ===== verification/Subscription.thy ===== *)
theory Subscription
  imports Settings
begin

text \<open>
  The subscription endpoint, \<^verbatim>\<open>lib/src/subscription.rs\<close> and \<^verbatim>\<open>lib/src/http_subscription_handler.rs\<close>: the
  validation and resolution of its settings and the decision the handler takes for a request. Hex and
  base64 decoding, certificate verification and file reading are parameters.
\<close>

section \<open>Validation\<close>

definition check_path_overlap :: "string \<Rightarrow> string option \<Rightarrow> (validation_error, unit) result" where
  "check_path_overlap path other =
    (case other of
       None \<Rightarrow> Ok ()
     | Some other \<Rightarrow>
         if path = other \<or> starts_with path other \<or> starts_with other path
         then Err (InvalidPath (''subscription path overlaps an existing path: '' @ path @ '' vs '' @ other))
         else Ok ())"

definition has_valid_port :: "string \<Rightarrow> bool" where
  "has_valid_port address =
    (case rsplit_once (CHR '':'') address of
       None \<Rightarrow> False
     | Some (_, port) \<Rightarrow> (case parse_uint 65536 port of None \<Rightarrow> False | Some p \<Rightarrow> p \<noteq> 0))"

definition subscription_validate ::
  "(string \<Rightarrow> bytes option) \<Rightarrow> subscription_settings \<Rightarrow> settings \<Rightarrow> (validation_error, unit) result" where
  "subscription_validate hex_decode sub settings =
    (let path = su_path sub;
         address = (case su_address sub of None \<Rightarrow> [] | Some a \<Rightarrow> a)
     in if path = [] \<or> \<not> starts_with path ''/'' \<or> path = ''/''
        then Err (InvalidPath (''subscription path: '' @ path))
        else if \<not> has_valid_port address
        then Err (SubscriptionError (''subscription address is not a valid host:port: '' @ address))
        else
          rbind (case su_client_random_prefix sub of
                   None \<Rightarrow> Ok ()
                 | Some pre \<Rightarrow>
                     if pre = [] then Ok ()
                     else let (prefix_part, mask_part) =
                            (case split_once (CHR ''/'') pre of None \<Rightarrow> (pre, []) | Some pm \<Rightarrow> pm)
                          in if hex_decode prefix_part = None
                             then Err (SubscriptionError (''subscription client_random_prefix is not valid hex: '' @ pre))
                             else if mask_part \<noteq> [] \<and> hex_decode mask_part = None
                             then Err (SubscriptionError (''subscription client_random_prefix mask is not valid hex: '' @ pre))
                             else Ok ()) (\<lambda>_.
          rbind (check_path_overlap path (se_ping_path settings)) (\<lambda>_.
          rbind (check_path_overlap path (se_speedtest_path settings)) (\<lambda>_.
          case se_reverse_proxy settings of
            None \<Rightarrow> Ok ()
          | Some reverse_proxy \<Rightarrow> check_path_overlap path (Some (rp_path_mask reverse_proxy))))))"

definition validate_with_hosts ::
  "(string \<Rightarrow> bytes option) \<Rightarrow> subscription_settings \<Rightarrow> settings \<Rightarrow> tls_hosts_settings
   \<Rightarrow> (validation_error, tls_host_info) result" where
  "validate_with_hosts hex_decode sub settings hosts =
    rbind (subscription_validate hex_decode sub settings) (\<lambda>_.
    let hostname = (case su_hostname sub of None \<Rightarrow> [] | Some h \<Rightarrow> h)
    in case find (\<lambda>h. th_hostname h = hostname) (ts_main_hosts hosts) of
         Some h \<Rightarrow> Ok h
       | None \<Rightarrow> Err (SubscriptionError (''subscription hostname '' @ [CHR 0x27] @ hostname @ [CHR 0x27]
                                        @ '' is not present in main_hosts'')))"

section \<open>Resolution\<close>

record subscription_config =
  sc_enabled :: bool
  sc_path :: string
  sc_hostname :: string
  sc_address :: string
  sc_name :: "string option"
  sc_dns_upstreams :: "string list"
  sc_certificate :: "string option"
  sc_custom_sni :: "string option"
  sc_client_random_prefix :: "string option"

definition non_empty :: "string option \<Rightarrow> string option" where
  "non_empty s = (case s of Some x \<Rightarrow> if x \<noteq> [] then Some x else None | None \<Rightarrow> None)"

definition resolve ::
  "(string \<Rightarrow> bytes option) \<Rightarrow> (string \<Rightarrow> string \<Rightarrow> bool) option \<Rightarrow> (string \<Rightarrow> (string, string) result)
   \<Rightarrow> subscription_settings \<Rightarrow> settings \<Rightarrow> tls_hosts_settings \<Rightarrow> (validation_error, subscription_config) result" where
  "resolve hex_decode verifier read_to_string sub settings hosts =
    rbind (validate_with_hosts hex_decode sub settings hosts) (\<lambda>host.
    let system_verifiable = (case verifier of
          Some is_system_verifiable \<Rightarrow> is_system_verifiable (th_cert_chain_path host) (th_hostname host)
        | None \<Rightarrow> False)
    in rbind (if system_verifiable then Ok None
              else map_err (\<lambda>e. SubscriptionError (''failed to read certificate '' @ [CHR 0x27]
                       @ th_cert_chain_path host @ [CHR 0x27] @ '': '' @ e))
                     (rbind (read_to_string (th_cert_chain_path host)) (\<lambda>pem. Ok (Some pem)))) (\<lambda>certificate.
       Ok \<lparr>sc_enabled = su_enabled sub, sc_path = su_path sub,
           sc_hostname = (case su_hostname sub of None \<Rightarrow> [] | Some h \<Rightarrow> h),
           sc_address = (case su_address sub of None \<Rightarrow> [] | Some a \<Rightarrow> a),
           sc_name = su_name sub, sc_dns_upstreams = su_dns_upstreams sub, sc_certificate = certificate,
           sc_custom_sni = non_empty (su_custom_sni sub),
           sc_client_random_prefix = non_empty (su_client_random_prefix sub)\<rparr>))"

text \<open>\<open>Core::reload_subscription_settings\<close>: the new configuration, or the error and the old one.\<close>

definition reload_subscription_settings ::
  "(string \<Rightarrow> bytes option) \<Rightarrow> (string \<Rightarrow> string \<Rightarrow> bool) option \<Rightarrow> (string \<Rightarrow> (string, string) result)
   \<Rightarrow> settings \<Rightarrow> subscription_settings option \<Rightarrow> tls_hosts_settings
   \<Rightarrow> subscription_config option \<Rightarrow> subscription_config option \<times> (io_error, unit) result" where
  "reload_subscription_settings hex_decode verifier read_to_string settings sub hosts store =
    (case sub of
       None \<Rightarrow> (None, Ok ())
     | Some sub \<Rightarrow>
         (case resolve hex_decode verifier read_to_string sub settings hosts of
            Inl e \<Rightarrow> (store, Err (IoError Other (''Subscription resolve failure: '' @ validation_error_debug e)))
          | Inr c \<Rightarrow> (Some c, Ok ())))"

section \<open>The request handler\<close>

record subscription_response =
  sr_version :: nat
  sr_hostname :: string
  sr_address :: string
  sr_username :: string
  sr_password :: string
  sr_has_ipv6 :: bool
  sr_upstream_protocol :: string
  sr_anti_dpi :: bool
  sr_skip_verification :: bool
  sr_certificate :: "string option"
  sr_custom_sni :: "string option"
  sr_client_random_prefix :: "string option"
  sr_name :: "string option"
  sr_dns_upstreams :: "string list"

datatype handler_response =
    BadResponse nat "(string \<times> string) list"
  | JsonResponse subscription_response

text \<open>\<open>authorization\<close> is the header's value, if it is there and is text.\<close>

definition subscription_authenticate ::
  "(string \<Rightarrow> bytes option) \<Rightarrow> client list \<Rightarrow> string option \<Rightarrow> (string \<times> string) option" where
  "subscription_authenticate base64_decode clients authorization =
    (case authorization of
       None \<Rightarrow> None
     | Some header \<Rightarrow>
         (case strip_prefix header ''Basic '' of
            None \<Rightarrow> None
          | Some encoded \<Rightarrow>
              (case base64_decode (trim encoded) of
                 None \<Rightarrow> None
               | Some decoded \<Rightarrow>
                   (case from_utf8 decoded of
                      Inl _ \<Rightarrow> None
                    | Inr creds \<Rightarrow>
                        (case split_once (CHR '':'') creds of
                           None \<Rightarrow> None
                         | Some (user, pass) \<Rightarrow>
                             map_option (\<lambda>c. (cl_username c, cl_password c))
                               (find (\<lambda>c. cl_username c = user \<and> cl_password c = pass) clients))))))"

definition subscription_handle ::
  "(string \<Rightarrow> bytes option) \<Rightarrow> client list \<Rightarrow> subscription_config option \<Rightarrow> string \<Rightarrow> string option \<Rightarrow> string
   \<Rightarrow> handler_response" where
  "subscription_handle base64_decode clients config sni authorization req_method =
    (case config of
       None \<Rightarrow> BadResponse 404 []
     | Some config \<Rightarrow>
         if sni \<noteq> sc_hostname config then BadResponse 404 []
         else
           (case subscription_authenticate base64_decode clients authorization of
              None \<Rightarrow> BadResponse 401 [(''www-authenticate'', ''Basic realm='' @ [CHR 0x22] @ ''Subscription'' @ [CHR 0x22])]
            | Some (username, password) \<Rightarrow>
                if \<not> sc_enabled config then BadResponse 403 []
                else if req_method \<noteq> ''GET'' then BadResponse 405 [(''allow'', ''GET'')]
                else JsonResponse
                  \<lparr>sr_version = 1, sr_hostname = sc_hostname config, sr_address = sc_address config,
                   sr_username = username, sr_password = password, sr_has_ipv6 = True,
                   sr_upstream_protocol = ''http2'', sr_anti_dpi = False, sr_skip_verification = False,
                   sr_certificate = sc_certificate config, sr_custom_sni = sc_custom_sni config,
                   sr_client_random_prefix = sc_client_random_prefix config, sr_name = sc_name config,
                   sr_dns_upstreams = sc_dns_upstreams config\<rparr>))"

section \<open>Lemmas\<close>

lemma check_path_overlap_ok: "check_path_overlap path other = Inr () \<longleftrightarrow> paths_apart (Some path) other"
  by (auto simp: check_path_overlap_def paths_apart_def split: option.splits)

lemma subscription_validate_paths:
  assumes "subscription_validate hex sub s = Inr ()"
  shows "starts_with (su_path sub) ''/'' \<and> paths_apart (Some (su_path sub)) (se_ping_path s) \<and>
    paths_apart (Some (su_path sub)) (se_speedtest_path s) \<and>
    (\<forall>rp. se_reverse_proxy s = Some rp \<longrightarrow> paths_apart (Some (su_path sub)) (Some (rp_path_mask rp)))"
  using assms
  by (auto simp: subscription_validate_def Let_def rbind_eq_Inr_iff check_path_overlap_ok
      split: if_splits option.splits)

lemma find_client:
  "map_option (\<lambda>c. (cl_username c, cl_password c))
     (find (\<lambda>c. cl_username c = a \<and> cl_password c = b) clients) = Some up \<longleftrightarrow>
   up = (a, b) \<and> (a, b) \<in> (\<lambda>c. (cl_username c, cl_password c)) ` set clients"
  by (induction clients) auto

lemma subscription_authenticate_Some:
  "subscription_authenticate dec clients auth = Some (u, p) \<longleftrightarrow>
    (\<exists>encoded decoded creds. auth = Some (''Basic '' @ encoded) \<and> dec (trim encoded) = Some decoded \<and>
      from_utf8 decoded = Inr creds \<and> split_once (CHR '':'') creds = Some (u, p) \<and>
      (u, p) \<in> (\<lambda>c. (cl_username c, cl_password c)) ` set clients)"
  unfolding subscription_authenticate_def
  by (auto simp: strip_prefix_eq_Some strip_prefix_append [of "''Basic ''", simplified] find_client
      simp del: map_option_eq_Some
      split: option.splits sum.splits prod.splits)


lemma subscription_handle_json:
  "subscription_handle dec clients config sni auth m = JsonResponse r \<Longrightarrow>
    \<exists>c u p. config = Some c \<and> sni = sc_hostname c \<and> sc_enabled c \<and> m = ''GET'' \<and>
      subscription_authenticate dec clients auth = Some (u, p) \<and> sr_username r = u \<and> sr_password r = p \<and>
      sr_hostname r = sni \<and> sr_address r = sc_address c"
  by (auto simp: subscription_handle_def split: option.splits if_splits prod.splits)

text \<open>C27: The subscription endpoint hands out connection data for one user only: a response with the
  configuration is sent only for a GET request on the configured TLS host, with the endpoint enabled,
  and the user name and password in it are those the request itself carried in its authorization
  header, which belong to a configured client.\<close>

theorem subscription_serves_own_credentials:
  assumes "subscription_handle dec clients config sni auth m = JsonResponse r"
  shows "m = ''GET'' \<and> (\<exists>c. config = Some c \<and> sc_enabled c \<and> sc_hostname c = sni) \<and>
    (\<exists>encoded. auth = Some (''Basic '' @ encoded) \<and>
       dec (trim encoded) = Some (as_bytes (sr_username r @ '':'' @ sr_password r))) \<and>
    (\<exists>c \<in> set clients. cl_username c = sr_username r \<and> cl_password c = sr_password r)"
proof -
  obtain c where c: "config = Some c" "sni = sc_hostname c" "sc_enabled c" "m = ''GET''"
    and a: "subscription_authenticate dec clients auth = Some (sr_username r, sr_password r)"
    using subscription_handle_json [OF assms] by auto
  then obtain encoded decoded creds where e: "auth = Some (''Basic '' @ encoded)"
      "dec (trim encoded) = Some decoded" "from_utf8 decoded = Inr creds"
      "split_once (CHR '':'') creds = Some (sr_username r, sr_password r)"
      "(sr_username r, sr_password r) \<in> (\<lambda>c. (cl_username c, cl_password c)) ` set clients"
    unfolding subscription_authenticate_Some by blast
  moreover have "decoded = as_bytes (sr_username r @ '':'' @ sr_password r)"
    using e(3,4) by (simp add: from_utf8_eq_Inr split_once_Some)
  ultimately show ?thesis using c by auto
qed

definition sample_client :: client where
  "sample_client = \<lparr>cl_username = ''bob'', cl_password = ''pw'', cl_max_http2_conns = None, cl_max_http3_conns = None\<rparr>"

definition sample_config :: subscription_config where
  "sample_config = \<lparr>sc_enabled = True, sc_path = ''/subscription'', sc_hostname = ''vpn.example.com'',
     sc_address = ''1.2.3.4:443'', sc_name = None, sc_dns_upstreams = [], sc_certificate = None,
     sc_custom_sni = None, sc_client_random_prefix = None\<rparr>"

theorem subscription_serves_own_credentials_witness:
  "\<exists>r. subscription_handle (\<lambda>s. Some (as_bytes s)) [sample_client] (Some sample_config) ''vpn.example.com''
        (Some ''Basic bob:pw'') ''GET'' = JsonResponse r \<and> sr_username r = ''bob'' \<and>
       (\<exists>c \<in> set [sample_client]. cl_username c = sr_username r)"
proof -
  have authenticate: "subscription_authenticate (\<lambda>s. Some (as_bytes s)) [sample_client] (Some ''Basic bob:pw'')
      = Some (''bob'', ''pw'')"
    by code_simp
  obtain r where r: "subscription_handle (\<lambda>s. Some (as_bytes s)) [sample_client] (Some sample_config)
      ''vpn.example.com'' (Some ''Basic bob:pw'') ''GET'' = JsonResponse r" "sr_username r = ''bob''"
    by (simp add: subscription_handle_def authenticate sample_config_def)
  with subscription_serves_own_credentials [OF r(1)] show ?thesis by blast
qed

end
