(* ===== verification/Protocols.thy ===== *)
theory Protocols
  imports Prelude
begin

text \<open>
  The application protocols of a TLS connection, from \<^verbatim>\<open>lib/src/tls_demultiplexer.rs\<close>. The order of the
  constructors is the order the code derives for \<open>Protocol\<close> and uses to pick the best one.
\<close>

datatype tls_protocol = Http1 | Http2 | Http3

definition DEFAULT_PROTOCOL :: tls_protocol where
  "DEFAULT_PROTOCOL = Http1"

definition HTTP1_ALPN :: string where "HTTP1_ALPN = ''http/1.1''"
definition HTTP2_ALPN :: string where "HTTP2_ALPN = ''h2''"
definition HTTP3_ALPN :: string where "HTTP3_ALPN = ''h3''"

lemmas alpn_defs = HTTP1_ALPN_def HTTP2_ALPN_def HTTP3_ALPN_def

fun as_alpn :: "tls_protocol \<Rightarrow> string" where
  "as_alpn Http1 = HTTP1_ALPN"
| "as_alpn Http2 = HTTP2_ALPN"
| "as_alpn Http3 = HTTP3_ALPN"

definition from_alpn :: "string \<Rightarrow> tls_protocol option" where
  "from_alpn alpn =
    (if alpn = HTTP1_ALPN then Some Http1
     else if alpn = HTTP2_ALPN then Some Http2
     else if alpn = HTTP3_ALPN then Some Http3
     else None)"

fun protocol_as_str :: "tls_protocol \<Rightarrow> string" where
  "protocol_as_str Http1 = ''HTTP1''"
| "protocol_as_str Http2 = ''HTTP2''"
| "protocol_as_str Http3 = ''HTTP3''"

fun protocol_rank :: "tls_protocol \<Rightarrow> nat" where
  "protocol_rank Http1 = 0"
| "protocol_rank Http2 = 1"
| "protocol_rank Http3 = 2"

lemma protocol_rank_inject [simp]: "protocol_rank p = protocol_rank q \<longleftrightarrow> p = q"
  by (cases p; cases q) simp_all

instantiation tls_protocol :: linorder
begin

definition less_eq_tls_protocol :: "tls_protocol \<Rightarrow> tls_protocol \<Rightarrow> bool" where
  "less_eq_tls_protocol p q \<longleftrightarrow> protocol_rank p \<le> protocol_rank q"

definition less_tls_protocol :: "tls_protocol \<Rightarrow> tls_protocol \<Rightarrow> bool" where
  "less_tls_protocol p q \<longleftrightarrow> protocol_rank p < protocol_rank q"

instance
  by standard (auto simp: less_eq_tls_protocol_def less_tls_protocol_def)

end

lemma from_alpn_as_alpn [simp]: "from_alpn (as_alpn p) = Some p"
  by (cases p) (simp_all add: from_alpn_def alpn_defs)

lemma from_alpn_Some: "from_alpn s = Some p \<longleftrightarrow> s = as_alpn p"
  by (cases p) (auto simp: from_alpn_def alpn_defs)

text \<open>\<open>Iterator::max\<close>.\<close>

fun iter_max :: "'a :: linorder list \<Rightarrow> 'a option" where
  "iter_max [] = None"
| "iter_max (x # xs) = (case iter_max xs of None \<Rightarrow> Some x | Some y \<Rightarrow> Some (max x y))"

lemma iter_max_None [simp]: "iter_max xs = None \<longleftrightarrow> xs = []"
  by (cases xs) (auto split: option.splits)

lemma iter_max_Some: "iter_max xs = Some m \<longleftrightarrow> m \<in> set xs \<and> (\<forall>x \<in> set xs. x \<le> m)"
proof (induction xs arbitrary: m)
  case (Cons x xs)
  show ?case
  proof (cases "iter_max xs")
    case None
    then have "xs = []" by simp
    then show ?thesis by auto
  next
    case (Some y)
    with Cons.IH [of y] show ?thesis by (auto simp: max_def intro: antisym)
  qed
qed simp

end
