(* ===== verification/Tls_Demux.thy ===== *)
theory Tls_Demux
  imports Settings Protocols
begin

text \<open>
  The TLS demultiplexer, \<^verbatim>\<open>lib/src/tls_demultiplexer.rs\<close>: from the server name and the protocols of a
  client hello it selects the virtual host, the channel and the application protocol of a connection.
  Loading and parsing of certificates and keys are parameters, and so is the order in which a hash map
  is iterated.
\<close>

section \<open>Hosts and connections\<close>

record ('c, 'k, 'b) host =
  ho_cert_chain :: 'c
  ho_key :: 'k
  ho_cert_chain_path :: string
  ho_key_path :: string
  ho_allowed_sni :: "string list"
  ho_boring :: 'b

record ('c, 'k, 'b) connection_meta =
  cm_sni :: string
  cm_protocol :: tls_protocol
  cm_channel :: channel
  cm_cert_chain :: 'c
  cm_key :: 'k
  cm_cert_chain_path :: string
  cm_key_path :: string
  cm_sni_auth_creds :: "string option"
  cm_boring :: 'b

record ('c, 'k, 'b) tls_demux =
  td_main_hosts :: "string \<rightharpoonup> ('c, 'k, 'b) host"
  td_reverse_proxy_hosts :: "string \<rightharpoonup> ('c, 'k, 'b) host"
  td_ping_hosts :: "string \<rightharpoonup> ('c, 'k, 'b) host"
  td_speedtest_hosts :: "string \<rightharpoonup> ('c, 'k, 'b) host"
  td_tunnel_protocols :: "tls_protocol list"
  td_allowed_sni_to_main_host :: "string \<rightharpoonup> string"

fun protocol_debug :: "tls_protocol \<Rightarrow> string" where
  "protocol_debug Http1 = ''Http1''"
| "protocol_debug Http2 = ''Http2''"
| "protocol_debug Http3 = ''Http3''"

fun channel_debug :: "channel \<Rightarrow> string" where
  "channel_debug Tunnel = ''Tunnel''"
| "channel_debug Ping = ''Ping''"
| "channel_debug Speedtest = ''Speedtest''"
| "channel_debug ReverseProxy = ''ReverseProxy''"
| "channel_debug Subscription = ''Subscription''"

text \<open>The debug text of a string, for strings with nothing to escape, and of an optional one.\<close>

definition quoted :: "string \<Rightarrow> string" where
  "quoted s = [CHR 0x22] @ s @ [CHR 0x22]"

definition option_debug :: "string option \<Rightarrow> string" where
  "option_debug x = (case x of None \<Rightarrow> ''None'' | Some s \<Rightarrow> ''Some('' @ quoted s @ '')'')"

definition connection_meta_debug :: "('c, 'k, 'b) connection_meta \<Rightarrow> string" where
  "connection_meta_debug m =
    (let sni_ref = (if cm_sni_auth_creds m \<noteq> None then scrub_sni (cm_sni m) else cm_sni m)
     in ''ConnectionMeta { sni: '' @ quoted sni_ref @
        '', protocol: '' @ protocol_debug (cm_protocol m) @
        '', channel: '' @ channel_debug (cm_channel m) @
        '', sni_auth_creds: '' @ option_debug (cm_sni_auth_creds m) @ '' }'')"

section \<open>Construction\<close>

definition make_entry ::
  "(string \<Rightarrow> (io_error, 'c) result) \<Rightarrow> (string \<Rightarrow> (io_error, 'k) result) \<Rightarrow> ('c \<Rightarrow> 'k \<Rightarrow> (io_error, 'b) result)
   \<Rightarrow> tls_host_info \<Rightarrow> (io_error, string \<times> ('c, 'k, 'b) host) result" where
  "make_entry load_certs load_private_key boring_identity x =
    rbind (load_certs (th_cert_chain_path x)) (\<lambda>cert_chain.
    rbind (load_private_key (th_private_key_path x)) (\<lambda>key.
    rbind (boring_identity cert_chain key) (\<lambda>boring.
    Ok (th_hostname x,
        \<lparr>ho_cert_chain = cert_chain, ho_key = key, ho_cert_chain_path = th_cert_chain_path x,
         ho_key_path = th_private_key_path x, ho_allowed_sni = th_allowed_sni x, ho_boring = boring\<rparr>))))"

text \<open>Collecting results: the first error, or all the values.\<close>

fun collect_results :: "('e, 'a) result list \<Rightarrow> ('e, 'a list) result" where
  "collect_results [] = Ok []"
| "collect_results (r # rs) = rbind r (\<lambda>x. rbind (collect_results rs) (\<lambda>xs. Ok (x # xs)))"

definition make_hosts ::
  "(tls_host_info \<Rightarrow> (io_error, string \<times> ('c, 'k, 'b) host) result) \<Rightarrow> tls_host_info list
   \<Rightarrow> (io_error, string \<rightharpoonup> ('c, 'k, 'b) host) result" where
  "make_hosts entry xs = rbind (collect_results (map entry xs)) (\<lambda>kvs. Ok (collect_map kvs))"

definition tunnel_protocols :: "settings \<Rightarrow> tls_protocol list" where
  "tunnel_protocols settings =
    (let l = se_listen_protocols settings
     in (if lp_http1 l \<noteq> None then [Http1] else []) @
        (if lp_http2 l \<noteq> None then [Http2] else []) @
        (if lp_quic l \<noteq> None then [Http3] else []))"

definition allowed_snis :: "(string \<times> ('c, 'k, 'b) host) list \<Rightarrow> string \<rightharpoonup> string" where
  "allowed_snis entries =
    collect_map (concat (map (\<lambda>(hostname, host). map (\<lambda>sni. (sni, hostname)) (ho_allowed_sni host)) entries))"

definition tls_demux_new ::
  "((string \<rightharpoonup> ('c, 'k, 'b) host) \<Rightarrow> (string \<times> ('c, 'k, 'b) host) list)
   \<Rightarrow> (tls_host_info \<Rightarrow> (io_error, string \<times> ('c, 'k, 'b) host) result)
   \<Rightarrow> settings \<Rightarrow> tls_hosts_settings \<Rightarrow> (io_error, ('c, 'k, 'b) tls_demux) result" where
  "tls_demux_new map_iter entry settings tls_settings =
    rbind (make_hosts entry (ts_main_hosts tls_settings)) (\<lambda>main_hosts.
    let allowed = allowed_snis (map_iter main_hosts) in
    rbind (make_hosts entry (ts_ping_hosts tls_settings)) (\<lambda>ping_hosts.
    rbind (make_hosts entry (ts_speedtest_hosts tls_settings)) (\<lambda>speedtest_hosts.
    rbind (case se_reverse_proxy settings of
             None \<Rightarrow> Ok Map.empty
           | Some _ \<Rightarrow> make_hosts entry (ts_reverse_proxy_hosts tls_settings)) (\<lambda>reverse_proxy_hosts.
    Ok \<lparr>td_main_hosts = main_hosts, td_reverse_proxy_hosts = reverse_proxy_hosts,
        td_ping_hosts = ping_hosts, td_speedtest_hosts = speedtest_hosts,
        td_tunnel_protocols = tunnel_protocols settings, td_allowed_sni_to_main_host = allowed\<rparr>))))"

text \<open>The metadata a QUIC connection is accepted with before its server name is known; the dummy chain
  and key are parameters. Without a main host the code panics.\<close>

definition get_quic_connection_bootstrap_meta ::
  "((string \<rightharpoonup> ('c, 'k, 'b) host) \<Rightarrow> (string \<times> ('c, 'k, 'b) host) list) \<Rightarrow> 'c \<Rightarrow> 'k
   \<Rightarrow> ('c, 'k, 'b) tls_demux \<Rightarrow> ('c, 'k, 'b) connection_meta outcome" where
  "get_quic_connection_bootstrap_meta map_iter no_chain no_key self =
    (case map_iter (td_main_hosts self) of
       [] \<Rightarrow> Panic
     | (name, host) # _ \<Rightarrow>
         Ret \<lparr>cm_sni = name, cm_protocol = Http3, cm_channel = Tunnel, cm_cert_chain = no_chain,
              cm_key = no_key, cm_cert_chain_path = ho_cert_chain_path host, cm_key_path = ho_key_path host,
              cm_sni_auth_creds = None, cm_boring = ho_boring host\<rparr>)"

section \<open>Selection\<close>

definition hex_dump :: "bytes \<Rightarrow> string" where
  "hex_dump buf = foldl (\<lambda>str b. str @ show_hex2 b) [] buf"

definition hex_dumps :: "bytes list \<Rightarrow> string" where
  "hex_dumps alpn = ''['' @ join '', '' (map (\<lambda>a. quoted (hex_dump a)) alpn) @ '']''"

definition parse_alpn :: "bytes list \<Rightarrow> tls_protocol list" where
  "parse_alpn alpn =
    List.map_filter (\<lambda>b. case from_utf8 b of Inl _ \<Rightarrow> None | Inr s \<Rightarrow> from_alpn s) alpn"

definition select_tunnel_channel_protocol ::
  "('c, 'k, 'b) tls_demux \<Rightarrow> tls_protocol list \<Rightarrow> bytes list \<Rightarrow> (string, tls_protocol) result" where
  "select_tunnel_channel_protocol self parsed_advertised_alpn advertised_alpn =
    (case iter_max (filter (\<lambda>x. x \<in> set (td_tunnel_protocols self)) parsed_advertised_alpn) of
       Some x \<Rightarrow> Ok x
     | None \<Rightarrow>
         if DEFAULT_PROTOCOL \<in> set (td_tunnel_protocols self) \<and> advertised_alpn = []
         then Ok DEFAULT_PROTOCOL
         else Err (''Unexpected ALPN on reverse proxy connection '' @ hex_dumps advertised_alpn))"

definition select_reverse_proxy_protocol :: "tls_protocol list \<Rightarrow> bytes list \<Rightarrow> (string, tls_protocol) result" where
  "select_reverse_proxy_protocol parsed_alpn alpn =
    (case iter_max (filter (\<lambda>x. x = Http1 \<or> x = Http3) parsed_alpn) of
       Some x \<Rightarrow> Ok x
     | None \<Rightarrow>
         if alpn = [] then Ok DEFAULT_PROTOCOL
         else Err (''Unexpected ALPN on reverse proxy connection '' @ hex_dumps alpn))"

definition best_protocol :: "tls_protocol list \<Rightarrow> tls_protocol" where
  "best_protocol parsed_alpn = (case iter_max parsed_alpn of Some x \<Rightarrow> x | None \<Rightarrow> DEFAULT_PROTOCOL)"

text \<open>The \<open>unwrap\<close> on the main host an alternative name points to is a panic of the model.\<close>

definition select_host ::
  "('c, 'k, 'b) tls_demux \<Rightarrow> tls_protocol list \<Rightarrow> bytes list \<Rightarrow> string
   \<Rightarrow> (string, tls_protocol \<times> channel \<times> ('c, 'k, 'b) host \<times> string option) result outcome" where
  "select_host self parsed_alpn alpn sni =
    (case td_main_hosts self sni of
       Some h \<Rightarrow> Ret (rbind (select_tunnel_channel_protocol self parsed_alpn alpn) (\<lambda>p. Ok (p, Tunnel, h, None)))
     | None \<Rightarrow>
    (case td_reverse_proxy_hosts self sni of
       Some h \<Rightarrow> Ret (rbind (select_reverse_proxy_protocol parsed_alpn alpn) (\<lambda>p. Ok (p, ReverseProxy, h, None)))
     | None \<Rightarrow>
    (case td_ping_hosts self sni of
       Some h \<Rightarrow> Ret (Ok (best_protocol parsed_alpn, Ping, h, None))
     | None \<Rightarrow>
    (case td_speedtest_hosts self sni of
       Some h \<Rightarrow> Ret (Ok (best_protocol parsed_alpn, Speedtest, h, None))
     | None \<Rightarrow>
    (case (case split_once (CHR ''.'') sni of
             None \<Rightarrow> None
           | Some (a, b) \<Rightarrow> map_option (\<lambda>h. (h, a)) (td_main_hosts self b)) of
       Some (host, auth_creds) \<Rightarrow>
         Ret (rbind (select_tunnel_channel_protocol self parsed_alpn alpn) (\<lambda>p. Ok (p, Tunnel, host, Some auth_creds)))
     | None \<Rightarrow>
    (case td_allowed_sni_to_main_host self sni of
       Some main_hostname \<Rightarrow>
         (case td_main_hosts self main_hostname of
            None \<Rightarrow> Panic
          | Some host \<Rightarrow>
              Ret (rbind (select_tunnel_channel_protocol self parsed_alpn alpn) (\<lambda>p. Ok (p, Tunnel, host, None))))
     | None \<Rightarrow> Ret (Err (''Unexpected SNI '' @ sni))))))))"

definition tls_select ::
  "('c, 'k, 'b) tls_demux \<Rightarrow> bytes list \<Rightarrow> string \<Rightarrow> (string, ('c, 'k, 'b) connection_meta) result outcome" where
  "tls_select self alpn sni =
    (let parsed_alpn = parse_alpn alpn
     in if parsed_alpn = [] \<and> alpn \<noteq> []
        then Ret (Err (''None of advertised ALPNs successfully parsed: '' @ hex_dumps alpn))
        else obind (select_host self parsed_alpn alpn sni) (\<lambda>r.
          Ret (rbind r (\<lambda>(protocol, channel, host, auth).
            Ok \<lparr>cm_sni = sni, cm_protocol = protocol, cm_channel = channel, cm_cert_chain = ho_cert_chain host,
                cm_key = ho_key host, cm_cert_chain_path = ho_cert_chain_path host,
                cm_key_path = ho_key_path host, cm_sni_auth_creds = auth, cm_boring = ho_boring host\<rparr>))))"


section \<open>Lemmas\<close>

definition hostnames :: "tls_host_info list \<Rightarrow> string set" where
  "hostnames hs = th_hostname ` set hs"

lemma collect_results_Inr:
  "collect_results (map f xs) = Inr ys \<longleftrightarrow> list_all2 (\<lambda>x y. f x = Inr y) xs ys"
proof (induction xs arbitrary: ys)
  case (Cons x xs)
  show ?case by (cases ys) (auto simp: rbind_eq_Inr_iff Cons.IH)
qed auto

lemma make_entry_name: "make_entry lc lk bi x = Inr (n, h) \<Longrightarrow> n = th_hostname x"
  by (auto simp: make_entry_def rbind_eq_Inr_iff)

lemma make_entry_paths:
  "make_entry lc lk bi x = Inr (n, h) \<Longrightarrow>
    ho_cert_chain_path h = th_cert_chain_path x \<and> ho_key_path h = th_private_key_path x"
  by (auto simp: make_entry_def rbind_eq_Inr_iff)

lemma make_hosts_entries:
  assumes "make_hosts (make_entry lc lk bi) hs = Inr m"
  obtains kvs where "m = collect_map kvs" "list_all2 (\<lambda>x kv. make_entry lc lk bi x = Inr kv) hs kvs"
  using assms by (auto simp: make_hosts_def rbind_eq_Inr_iff collect_results_Inr)

lemma make_hosts_dom:
  assumes "make_hosts (make_entry lc lk bi) hs = Inr m"
  shows "dom m = hostnames hs"
proof -
  obtain kvs where m: "m = collect_map kvs" and l: "list_all2 (\<lambda>x kv. make_entry lc lk bi x = Inr kv) hs kvs"
    using assms by (rule make_hosts_entries)
  from l have "map fst kvs = map th_hostname hs"
    by (induction rule: list_all2_induct) (auto dest: make_entry_name)
  then have "fst ` set kvs = hostnames hs"
    unfolding hostnames_def by (metis list.set_map)
  with m show ?thesis by (simp add: dom_collect_map)
qed

lemma make_hosts_paths:
  assumes "make_hosts (make_entry lc lk bi) hs = Inr m" "m n = Some h"
  shows "\<exists>x \<in> set hs. th_hostname x = n \<and> ho_cert_chain_path h = th_cert_chain_path x \<and>
    ho_key_path h = th_private_key_path x"
proof -
  obtain kvs where m: "m = collect_map kvs" and l: "list_all2 (\<lambda>x kv. make_entry lc lk bi x = Inr kv) hs kvs"
    using assms(1) by (rule make_hosts_entries)
  have "(n, h) \<in> set kvs" using collect_map_eq_Some [of kvs n h] assms(2) m by simp
  then obtain x where "x \<in> set hs" "make_entry lc lk bi x = Inr (n, h)"
    using l by (auto simp: list_all2_conv_all_nth in_set_conv_nth) (metis nth_mem)
  then show ?thesis by (auto dest: make_entry_name make_entry_paths)
qed

lemma in_set_map_filter: "y \<in> set (List.map_filter f xs) \<longleftrightarrow> (\<exists>x \<in> set xs. f x = Some y)"
  by (induction xs) (auto simp: List.map_filter_simps split: option.splits)

lemma p_in_parse_alpn: "p \<in> set (parse_alpn alpn) \<longleftrightarrow> as_bytes (as_alpn p) \<in> set alpn"
proof -
  have str: "is_str (as_alpn p)"
    by (cases p) (simp_all add: is_str_def as_bytes_def alpn_defs)
  have "(case from_utf8 b of Inl _ \<Rightarrow> None | Inr s \<Rightarrow> from_alpn s) = Some p \<longleftrightarrow> b = as_bytes (as_alpn p)" for b
  proof
    assume "(case from_utf8 b of Inl _ \<Rightarrow> None | Inr s \<Rightarrow> from_alpn s) = Some p"
    then obtain s where "from_utf8 b = Inr s" "from_alpn s = Some p"
      by (auto split: sum.splits)
    then show "b = as_bytes (as_alpn p)" by (simp add: from_alpn_Some from_utf8_eq_Inr)
  qed (simp add: str)
  then show ?thesis
    by (simp add: parse_alpn_def in_set_map_filter)
qed

lemma tunnel_protocol_selected:
  assumes "select_tunnel_channel_protocol d ps alpn = Inr p"
  shows "p \<in> set (td_tunnel_protocols d) \<and>
    (\<forall>q \<in> set ps. q \<in> set (td_tunnel_protocols d) \<longrightarrow> q \<le> p) \<and> (p \<in> set ps \<or> alpn = [])"
  using assms
  by (auto simp: select_tunnel_channel_protocol_def iter_max_Some filter_empty_conv
      split: option.splits if_splits)

text \<open>The state that \<open>TlsDemux::new\<close> builds and the routing relies on.\<close>

definition alternatives_ok :: "('c, 'k, 'b) tls_demux \<Rightarrow> bool" where
  "alternatives_ok d \<longleftrightarrow> ran (td_allowed_sni_to_main_host d) \<subseteq> dom (td_main_hosts d)"

lemma allowed_snis_ran: "ran (allowed_snis entries) \<subseteq> fst ` set entries"
  by (force simp: allowed_snis_def ran_def dest!: collect_map_eq_Some)

lemma tls_demux_new_hosts:
  assumes "tls_demux_new it (make_entry lc lk bi) s t = Inr d"
  shows "dom (td_main_hosts d) = hostnames (ts_main_hosts t) \<and>
    dom (td_ping_hosts d) = hostnames (ts_ping_hosts t) \<and>
    dom (td_speedtest_hosts d) = hostnames (ts_speedtest_hosts t) \<and>
    dom (td_reverse_proxy_hosts d) = (if se_reverse_proxy s = None then {} else hostnames (ts_reverse_proxy_hosts t)) \<and>
    td_tunnel_protocols d = tunnel_protocols s \<and>
    td_allowed_sni_to_main_host d = allowed_snis (it (td_main_hosts d))"
  using assms
  by (cases "se_reverse_proxy s")
    (clarsimp simp: tls_demux_new_def rbind_eq_Inr_iff Let_def; simp add: make_hosts_dom)+

lemma tls_demux_new_alternatives:
  assumes "tls_demux_new it (make_entry lc lk bi) s t = Inr d"
    and "set (it (td_main_hosts d)) = Map.graph (td_main_hosts d)"
  shows "alternatives_ok d"
proof -
  have "fst ` set (it (td_main_hosts d)) = dom (td_main_hosts d)"
    unfolding assms(2) by (auto simp: Map.graph_def image_iff)
  then show ?thesis
    using allowed_snis_ran [of "it (td_main_hosts d)"] tls_demux_new_hosts [OF assms(1)]
    by (simp add: alternatives_ok_def)
qed

lemma select_host_no_panic: "alternatives_ok d \<Longrightarrow> select_host d ps alpn sni \<noteq> Panic"
  by (auto simp: select_host_def alternatives_ok_def ran_def split: option.splits prod.splits)

lemma tls_select_no_panic: "alternatives_ok d \<Longrightarrow> \<exists>r. tls_select d alpn sni = Ret r"
  using select_host_no_panic [of d "parse_alpn alpn" alpn sni]
  by (cases "select_host d (parse_alpn alpn) alpn sni") (auto simp: tls_select_def Let_def obind_def)

lemma tls_select_Inr:
  assumes "tls_select d alpn sni = Ret (Inr m)"
  obtains host where "select_host d (parse_alpn alpn) alpn sni =
      Ret (Inr (cm_protocol m, cm_channel m, host, cm_sni_auth_creds m))" "cm_sni m = sni"
    "cm_cert_chain_path m = ho_cert_chain_path host" "cm_key_path m = ho_key_path host"
  using assms
  by (auto simp: tls_select_def Let_def obind_eq_Ret rbind_eq_Inr_iff split: if_splits prod.splits)

text \<open>What the selected host, channel and credentials are, for each kind of server name.\<close>

definition exact_name :: "('c, 'k, 'b) tls_demux \<Rightarrow> string \<Rightarrow> bool" where
  "exact_name d sni \<longleftrightarrow> sni \<in> dom (td_main_hosts d) \<union> dom (td_reverse_proxy_hosts d)
     \<union> dom (td_ping_hosts d) \<union> dom (td_speedtest_hosts d)"

lemma select_host_channel:
  assumes "select_host d ps alpn sni = Ret (Inr (p, ch, h, auth))"
  shows "ch \<noteq> Subscription \<and>
    (ch = ReverseProxy \<longleftrightarrow> sni \<notin> dom (td_main_hosts d) \<and> sni \<in> dom (td_reverse_proxy_hosts d)) \<and>
    (ch = Ping \<longleftrightarrow> sni \<notin> dom (td_main_hosts d) \<and> sni \<notin> dom (td_reverse_proxy_hosts d) \<and> sni \<in> dom (td_ping_hosts d)) \<and>
    (ch = Speedtest \<longleftrightarrow> sni \<notin> dom (td_main_hosts d) \<and> sni \<notin> dom (td_reverse_proxy_hosts d) \<and>
       sni \<notin> dom (td_ping_hosts d) \<and> sni \<in> dom (td_speedtest_hosts d))"
  using assms
  by (auto simp: select_host_def rbind_eq_Inr_iff dom_def split: option.splits prod.splits)

lemma select_host_tunnel:
  assumes "select_host d ps alpn sni = Ret (Inr (p, Tunnel, h, auth))"
  shows "select_tunnel_channel_protocol d ps alpn = Inr p"
  using assms
  by (auto simp: select_host_def rbind_eq_Inr_iff split: option.splits prod.splits)

lemma select_host_auth:
  assumes "select_host d ps alpn sni = Ret (Inr (p, ch, h, Some a))"
  shows "\<not> exact_name d sni \<and> ch = Tunnel \<and> CHR ''.'' \<notin> set a \<and>
    (\<exists>b. sni = a @ ''.'' @ b \<and> td_main_hosts d b = Some h)"
  using assms
  by (auto simp: select_host_def exact_name_def rbind_eq_Inr_iff dom_def split_once_Some
      split: option.splits prod.splits)

lemma select_host_main:
  assumes "select_host d ps alpn sni = Ret (Inr (p, Tunnel, h, auth))"
  shows "h \<in> ran (td_main_hosts d)"
  using assms
  by (auto simp: select_host_def rbind_eq_Inr_iff split: option.splits prod.splits intro: ranI)


section \<open>A sample configuration\<close>

definition sample_settings :: settings where
  "sample_settings = set_listen_protocols
     \<lparr>lp_http1 = Some http1_builder_new, lp_http2 = Some http2_builder_new, lp_quic = None\<rparr> settings_builder_new"

definition sample_host :: "string \<Rightarrow> tls_host_info" where
  "sample_host name = \<lparr>th_hostname = name, th_cert_chain_path = ''cert.pem'', th_private_key_path = ''key.pem'',
     th_allowed_sni = []\<rparr>"

definition sample_hosts :: tls_hosts_settings where
  "sample_hosts = \<lparr>ts_main_hosts = [sample_host ''vpn.org''], ts_ping_hosts = [sample_host ''ping.org''],
     ts_speedtest_hosts = [], ts_reverse_proxy_hosts = [], ts_built = True\<rparr>"

definition main_iter :: "(string \<rightharpoonup> (unit, unit, unit) host) \<Rightarrow> (string \<times> (unit, unit, unit) host) list" where
  "main_iter m = (case m ''vpn.org'' of None \<Rightarrow> [] | Some h \<Rightarrow> [(''vpn.org'', h)])"

definition sample_virtual_host :: "(unit, unit, unit) host" where
  "sample_virtual_host = \<lparr>ho_cert_chain = (), ho_key = (), ho_cert_chain_path = ''cert.pem'',
     ho_key_path = ''key.pem'', ho_allowed_sni = [], ho_boring = ()\<rparr>"

definition sample_demux :: "(unit, unit, unit) tls_demux" where
  "sample_demux = \<lparr>td_main_hosts = [''vpn.org'' \<mapsto> sample_virtual_host], td_reverse_proxy_hosts = Map.empty,
     td_ping_hosts = [''ping.org'' \<mapsto> sample_virtual_host], td_speedtest_hosts = Map.empty,
     td_tunnel_protocols = [Http1, Http2], td_allowed_sni_to_main_host = Map.empty\<rparr>"

lemma sample_demux_new:
  "tls_demux_new main_iter (make_entry (\<lambda>_. Inr ()) (\<lambda>_. Inr ()) (\<lambda>_ _. Inr ())) sample_settings sample_hosts
    = Inr sample_demux"
  by (simp add: tls_demux_new_def make_hosts_def make_entry_def sample_hosts_def sample_host_def
      sample_settings_def set_listen_protocols_def settings_builder_new_def rbind_def collect_map_def
      tunnel_protocols_def allowed_snis_def main_iter_def sample_demux_def sample_virtual_host_def)

lemma sample_demux_iteration:
  "set (main_iter (td_main_hosts sample_demux)) = Map.graph (td_main_hosts sample_demux)"
  by (auto simp: main_iter_def sample_demux_def Map.graph_def split: if_splits)

lemma sample_hosts_valid: "tls_hosts_validate (\<lambda>_. Inr ()) (\<lambda>_. Inr ()) sample_hosts = Inr ()"
  by (simp add: tls_hosts_validate_ok sample_hosts_def sample_host_def is_ok_def)

lemma sample_parse: "parse_alpn [as_bytes ''h2''] = [Http2]"
  by code_simp

section \<open>Properties\<close>

lemma validated_hosts_disjoint:
  assumes "tls_hosts_validate lc lk t = Inr ()"
  shows "hostnames (ts_main_hosts t) \<inter> hostnames (ts_ping_hosts t) = {} \<and>
    hostnames (ts_main_hosts t) \<inter> hostnames (ts_speedtest_hosts t) = {} \<and>
    hostnames (ts_main_hosts t) \<inter> hostnames (ts_reverse_proxy_hosts t) = {} \<and>
    hostnames (ts_ping_hosts t) \<inter> hostnames (ts_speedtest_hosts t) = {} \<and>
    hostnames (ts_ping_hosts t) \<inter> hostnames (ts_reverse_proxy_hosts t) = {} \<and>
    hostnames (ts_speedtest_hosts t) \<inter> hostnames (ts_reverse_proxy_hosts t) = {}"
proof -
  have "distinct (map th_hostname (ts_main_hosts t @ ts_ping_hosts t @ ts_speedtest_hosts t @ ts_reverse_proxy_hosts t))"
    using assms by (simp only: tls_hosts_validate_ok)
  then show ?thesis
    by (simp only: hostnames_def map_append distinct_append set_append set_map image_Un Int_Un_distrib Un_empty simp_thms)
qed

text \<open>C6: On validated host settings the demultiplexer never panics, and the channel of an accepted
  connection is a function of the server name alone: ping, speedtest and reverse-proxy connections are
  exactly those whose name is in the list configured for them, and every other accepted connection is
  a tunnel. A subscription channel is never selected, so the branch of the core that handles it as
  unreachable is so.\<close>

theorem tls_select_channel:
  assumes "tls_hosts_validate lc' lk' t = Inr ()"
    and new: "tls_demux_new it (make_entry lc lk bi) s t = Inr d"
    and iteration: "set (it (td_main_hosts d)) = Map.graph (td_main_hosts d)"
  shows "tls_select d alpn sni \<noteq> Panic \<and>
    (\<forall>m. tls_select d alpn sni = Ret (Inr m) \<longrightarrow> cm_sni m = sni \<and>
      cm_channel m = (if sni \<in> hostnames (ts_ping_hosts t) then Ping
        else if sni \<in> hostnames (ts_speedtest_hosts t) then Speedtest
        else if sni \<in> hostnames (ts_reverse_proxy_hosts t) \<and> se_reverse_proxy s \<noteq> None then ReverseProxy
        else Tunnel))"
proof -
  have no_panic: "tls_select d alpn sni \<noteq> Panic"
    using tls_select_no_panic [OF tls_demux_new_alternatives [OF new iteration], of alpn sni] by auto
  have "cm_sni m = sni \<and> cm_channel m = (if sni \<in> hostnames (ts_ping_hosts t) then Ping
        else if sni \<in> hostnames (ts_speedtest_hosts t) then Speedtest
        else if sni \<in> hostnames (ts_reverse_proxy_hosts t) \<and> se_reverse_proxy s \<noteq> None then ReverseProxy
        else Tunnel)" if "tls_select d alpn sni = Ret (Inr m)" for m
  proof -
    from that obtain h where h: "select_host d (parse_alpn alpn) alpn sni =
        Ret (Inr (cm_protocol m, cm_channel m, h, cm_sni_auth_creds m))" and "cm_sni m = sni"
      by (rule tls_select_Inr)
    moreover have "cm_channel m \<in> {Tunnel, Ping, Speedtest, ReverseProxy, Subscription}"
      by (cases "cm_channel m") simp_all
    ultimately show ?thesis
      using select_host_channel [OF h] tls_demux_new_hosts [OF new] validated_hosts_disjoint [OF assms(1)]
      by (auto split: if_splits)
  qed
  with no_panic show ?thesis by blast
qed

theorem tls_select_channel_witness:
  "\<exists>m. tls_select sample_demux [] ''ping.org'' = Ret (Inr m) \<and> cm_channel m = Ping"
proof -
  obtain m where m: "tls_select sample_demux [] ''ping.org'' = Ret (Inr m)"
    by (simp add: tls_select_def select_host_def parse_alpn_def sample_demux_def best_protocol_def obind_def rbind_def)
  with tls_select_channel [OF sample_hosts_valid sample_demux_new sample_demux_iteration, of "[]" "''ping.org''"]
  show ?thesis by (auto simp: hostnames_def sample_hosts_def sample_host_def)
qed



text \<open>C34: The protocol of a tunnel connection is enabled in the settings, is the best enabled one the
  client offered, and is one the client offered unless it offered none.\<close>

theorem tunnel_protocol_negotiation:
  assumes new: "tls_demux_new it (make_entry lc lk bi) s t = Inr d"
    and m: "tls_select d alpn sni = Ret (Inr m)" "cm_channel m = Tunnel"
  shows "cm_protocol m \<in> set (tunnel_protocols s) \<and>
    (\<forall>q. as_bytes (as_alpn q) \<in> set alpn \<and> q \<in> set (tunnel_protocols s) \<longrightarrow> q \<le> cm_protocol m) \<and>
    (as_bytes (as_alpn (cm_protocol m)) \<in> set alpn \<or> alpn = [])"
proof -
  obtain h where "select_host d (parse_alpn alpn) alpn sni =
      Ret (Inr (cm_protocol m, Tunnel, h, cm_sni_auth_creds m))"
    using tls_select_Inr [OF m(1)] m(2) by metis
  from tunnel_protocol_selected [OF select_host_tunnel [OF this]] show ?thesis
    using tls_demux_new_hosts [OF new] by (simp add: p_in_parse_alpn)
qed

theorem tunnel_protocol_negotiation_witness:
  "\<exists>m. tls_select sample_demux [as_bytes ''h2''] ''vpn.org'' = Ret (Inr m) \<and> cm_channel m = Tunnel \<and>
     cm_protocol m = Http2"
proof -
  obtain m where m: "tls_select sample_demux [as_bytes ''h2''] ''vpn.org'' = Ret (Inr m)" "cm_channel m = Tunnel"
    by (simp add: tls_select_def select_host_def sample_parse select_tunnel_channel_protocol_def
        sample_demux_def obind_def rbind_def)
  from tunnel_protocol_negotiation [OF sample_demux_new m] have "as_bytes (as_alpn (cm_protocol m)) = as_bytes ''h2''"
    by simp
  then have "cm_protocol m = Http2"
    by (cases "cm_protocol m") (simp_all add: alpn_defs as_bytes_def)
  with m show ?thesis by blast
qed

end
