(* ===== verification/Http_Downstream.thy ===== *)
theory Http_Downstream
  imports Datagram_Codec Subscription Tls_Demux
begin

text \<open>
  The client side of a tunnel: the request interface of \<^verbatim>\<open>lib/src/http_codec.rs\<close>, the routing of requests
  of \<^verbatim>\<open>lib/src/http_demultiplexer.rs\<close>, the connection errors of \<^verbatim>\<open>lib/src/tunnel.rs\<close> and the decisions of
  \<^verbatim>\<open>lib/src/http_downstream.rs\<close>: what a request is promoted to, where it wants to go, and how a failure is
  reported. The URI and header types are those of the \<open>http\<close> crate: a request is a record of the parts
  the code reads, and the reading of a socket address from text is the parameter \<open>parse_addr\<close>.
\<close>

section \<open>Requests\<close>

record authority =
  au_text :: string
  au_host :: string
  au_port :: "u16 option"

text \<open>A header value is \<open>None\<close> inside when it is not visible ASCII (\<open>to_str\<close> fails).\<close>

record request_headers =
  rq_method :: string
  rq_path :: string
  rq_authority :: "authority option"
  rq_proxy_authorization :: "string option option"
  rq_user_agent :: "string option option"

definition CONNECT :: string where "CONNECT = ''CONNECT''"

definition auth_info :: "(request_headers \<Rightarrow> string) \<Rightarrow> request_headers \<Rightarrow> (io_error, auth_source option) result" where
  "auth_info scrubbed request =
    (case rq_proxy_authorization request of
       None \<Rightarrow> Ok None
     | Some header \<Rightarrow>
         (case Option.bind header (\<lambda>s. strip_prefix s ''Basic '') of
            Some s \<Rightarrow> Ok (Some (ProxyBasic s))
          | None \<Rightarrow> Err (IoError Other (''Unexpected authorization header: '' @ scrubbed request))))"

definition request_authority :: "(request_headers \<Rightarrow> string) \<Rightarrow> request_headers \<Rightarrow> (io_error, authority) result" where
  "request_authority debug request =
    (case rq_authority request of
       Some a \<Rightarrow> Ok a
     | None \<Rightarrow> Err (IoError Other (''Authority not found: '' @ debug request)))"

definition user_agent :: "request_headers \<Rightarrow> string option" where
  "user_agent request = Option.bind (rq_user_agent request) (\<lambda>v. v)"

text \<open>\<open>send_bad_response\<close>: the status and the headers, the content length last (replacing one given).\<close>

record response_headers =
  rs_status :: nat
  rs_headers :: "(string \<times> string) list"
  rs_eof :: bool

definition bad_response :: "nat \<Rightarrow> (string \<times> string) list \<Rightarrow> response_headers" where
  "bad_response status extra_headers =
    \<lparr>rs_status = status,
     rs_headers = filter (\<lambda>h. fst h \<noteq> ''content-length'') extra_headers @ [(''content-length'', ''0'')],
     rs_eof = True\<rparr>"

definition ok_response :: "bool \<Rightarrow> response_headers" where
  "ok_response eof = \<lparr>rs_status = 200, rs_headers = [], rs_eof = eof\<rparr>"

text \<open>\<open>SingleRequestCodec\<close>: it yields its stream once and then waits; a stream that was not taken is
  answered at shutdown.\<close>

definition single_listen :: "'s option \<Rightarrow> 's option \<times> (io_error, 's option) result poll" where
  "single_listen stream = (None, (case stream of Some s \<Rightarrow> Ready (Ok (Some s)) | None \<Rightarrow> Pending))"

definition single_shutdown :: "'s option \<Rightarrow> 's option \<times> ('s \<times> response_headers) option" where
  "single_shutdown stream =
    (None, (case stream of Some s \<Rightarrow> Some (s, bad_response 500 []) | None \<Rightarrow> None))"

section \<open>Routing of requests\<close>

definition check_subscription :: "subscription_config option \<Rightarrow> request_headers \<Rightarrow> bool" where
  "check_subscription sub request =
    (case sub of Some cfg \<Rightarrow> rq_path request = sc_path cfg | None \<Rightarrow> False)"

definition check_ping :: "settings \<Rightarrow> request_headers \<Rightarrow> bool" where
  "check_ping settings request =
    (if \<not> se_ping_enable settings then False
     else case se_ping_path settings of Some path \<Rightarrow> starts_with (rq_path request) path | None \<Rightarrow> False)"

definition check_speedtest :: "settings \<Rightarrow> request_headers \<Rightarrow> bool" where
  "check_speedtest settings request =
    (if \<not> se_speedtest_enable settings then False
     else case se_speedtest_path settings of Some path \<Rightarrow> starts_with (rq_path request) path | None \<Rightarrow> False)"

definition check_reverse_proxy_path :: "settings \<Rightarrow> request_headers \<Rightarrow> bool" where
  "check_reverse_proxy_path settings request =
    (case se_reverse_proxy settings of
       None \<Rightarrow> False
     | Some x \<Rightarrow> starts_with (rq_path request) (rp_path_mask x))"

definition http_select :: "settings \<Rightarrow> subscription_config option \<Rightarrow> request_headers \<Rightarrow> channel" where
  "http_select settings sub request =
    (if check_subscription sub request then Subscription
     else if check_ping settings request then Ping
     else if check_speedtest settings request then Speedtest
     else if check_reverse_proxy_path settings request then ReverseProxy
     else Tunnel)"

section \<open>Connection errors\<close>

datatype connection_error =
    CeIo io_error
  | CeAuthentication string
  | CeTimeout
  | CeHostUnreachable
  | CeDnsNonroutable
  | CeDnsLoopback
  | CeOther string

fun io_error_display :: "io_error \<Rightarrow> string" where
  "io_error_display (IoError _ message) = message"

fun connection_error_display :: "connection_error \<Rightarrow> string" where
  "connection_error_display (CeIo x) = ''IO error: '' @ io_error_display x"
| "connection_error_display (CeAuthentication x) = ''Authentication error: '' @ x"
| "connection_error_display CeTimeout = ''Connection timed out''"
| "connection_error_display CeHostUnreachable = ''Remote host is unreachable''"
| "connection_error_display CeDnsNonroutable = ''DNS: resolved address in non-routable network''"
| "connection_error_display CeDnsLoopback = ''DNS: resolved address in loopback''"
| "connection_error_display (CeOther x) = x"

section \<open>The downstream\<close>

definition HEALTH_CHECK_AUTHORITY :: string where "HEALTH_CHECK_AUTHORITY = ''_check''"
definition UDP_AUTHORITY :: string where "UDP_AUTHORITY = ''_udp2''"
definition ICMP_AUTHORITY :: string where "ICMP_AUTHORITY = ''_icmp''"
definition AUTHORIZATION_FAILURE_EXTRA_HEADER :: "string \<times> string" where
  "AUTHORIZATION_FAILURE_EXTRA_HEADER = (''proxy-authenticate'', ''Basic realm=Authorization Required'')"
definition BAD_STATUS_CODE :: nat where "BAD_STATUS_CODE = 502"
definition PROXY_AUTHENTICATION_REQUIRED :: nat where "PROXY_AUTHENTICATION_REQUIRED = 407"
definition WARNING_HEADER_NAME :: string where "WARNING_HEADER_NAME = ''X-Warning''"
definition DNS_WARNING_HEADER_NAME :: string where "DNS_WARNING_HEADER_NAME = ''X-Adguard-Vpn-Error''"
definition PLAIN_HTTP_PORT_NUMBER :: u16 where "PLAIN_HTTP_PORT_NUMBER = 80"

lemmas authority_defs = HEALTH_CHECK_AUTHORITY_def UDP_AUTHORITY_def ICMP_AUTHORITY_def

text \<open>\<open>StatusCode::from_u16\<close> accepts 100 to 999.\<close>

definition status_from_u16 :: "u16 \<Rightarrow> nat option" where
  "status_from_u16 c = (if 100 \<le> c \<and> c < 1000 then Some (unat c) else None)"

definition auth_failure_status_code :: "settings \<Rightarrow> request_headers \<Rightarrow> nat" where
  "auth_failure_status_code settings request =
    (let connect_code = se_auth_failure_status_code settings;
         effective_code = (if rq_method request = CONNECT then connect_code
           else (case se_non_connect_auth_failure_status_code settings of Some c \<Rightarrow> c | None \<Rightarrow> connect_code))
     in case status_from_u16 effective_code of Some s \<Rightarrow> s | None \<Rightarrow> PROXY_AUTHENTICATION_REQUIRED)"

record pending_request =
  pr_request :: request_headers
  pr_auth_failure_status_code :: nat

text \<open>\<open>HttpDownstream::listen\<close> over the results of the codec's \<open>listen\<close>: the requests handed to the
  other handlers, with their channel, and what the loop returns with the events it has not read.
  No event left is a wait.\<close>

fun downstream_listen ::
  "settings \<Rightarrow> subscription_config option \<Rightarrow> (io_error, request_headers option) result list
   \<Rightarrow> (channel \<times> request_headers) list
      \<times> ((io_error, pending_request option) result poll \<times> (io_error, request_headers option) result list)" where
  "downstream_listen settings sub [] = ([], Pending, [])"
| "downstream_listen settings sub (Inl e # events) = ([], Ready (Err e), events)"
| "downstream_listen settings sub (Inr None # events) = ([], Ready (Ok None), events)"
| "downstream_listen settings sub (Inr (Some request) # events) =
    (case http_select settings sub request of
       Tunnel \<Rightarrow>
         ([], Ready (Ok (Some \<lparr>pr_request = request,
                pr_auth_failure_status_code = auth_failure_status_code settings request\<rparr>)), events)
     | channel \<Rightarrow>
         (let (spawned, r) = downstream_listen settings sub events in ((channel, request) # spawned, r)))"

text \<open>\<open>PendingRequest::promote_to_next_state\<close>.\<close>

datatype promoted =
    HealthCheck response_headers
  | Refused response_headers
  | DatagramMultiplexer pending_request
  | TcpConnect pending_request

definition promote_request :: "pending_request \<Rightarrow> promoted" where
  "promote_request self =
    (let request = pr_request self; a = map_option au_text (rq_authority request)
     in if a = Some HEALTH_CHECK_AUTHORITY \<and> rq_method request = CONNECT then HealthCheck (ok_response True)
        else if (a = Some UDP_AUTHORITY \<or> a = Some ICMP_AUTHORITY) \<and> rq_method request = CONNECT
        then DatagramMultiplexer self
        else if a = Some HEALTH_CHECK_AUTHORITY \<or> a = Some UDP_AUTHORITY \<or> a = Some ICMP_AUTHORITY
        then Refused (bad_response BAD_STATUS_CODE [])
        else TcpConnect self)"

text \<open>\<open>promote_to_next_state\<close> of a datagram multiplexer: the kind of its pipe, and the response sent.\<close>

datatype datagram_halves = UdpHalves response_headers | IcmpHalves response_headers

definition promote_datagram ::
  "(request_headers \<Rightarrow> string) \<Rightarrow> pending_request \<Rightarrow> (io_error, datagram_halves) result outcome" where
  "promote_datagram debug self =
    (case request_authority debug (pr_request self) of
       Inl e \<Rightarrow> Ret (Err e)
     | Inr a \<Rightarrow>
         if au_text a = UDP_AUTHORITY then Ret (Ok (UdpHalves (ok_response False)))
         else if au_text a = ICMP_AUTHORITY then Ret (Ok (IcmpHalves (ok_response False)))
         else Panic)"

datatype tcp_destination = Address socket_addr | HostName string u16

definition destination ::
  "(request_headers \<Rightarrow> string) \<Rightarrow> (string \<Rightarrow> socket_addr option) \<Rightarrow> pending_request
   \<Rightarrow> (io_error, tcp_destination) result" where
  "destination debug parse_addr self =
    rbind (request_authority debug (pr_request self)) (\<lambda>authority.
    case parse_addr (au_text authority) of
      Some a \<Rightarrow> Ok (Address a)
    | None \<Rightarrow>
        rbind (if rq_method (pr_request self) = CONNECT
               then (case au_port authority of
                       Some p \<Rightarrow> Ok p
                     | None \<Rightarrow> Err (IoError Other (''Unexpected authority port: request='' @ debug (pr_request self))))
               else Ok (case au_port authority of Some p \<Rightarrow> p | None \<Rightarrow> PLAIN_HTTP_PORT_NUMBER)) (\<lambda>port.
        Ok (HostName (au_host authority) port)))"

fun tunnel_error_to_status_code :: "connection_error \<Rightarrow> nat \<Rightarrow> nat" where
  "tunnel_error_to_status_code (CeAuthentication _) status = status"
| "tunnel_error_to_status_code _ status = BAD_STATUS_CODE"

fun tunnel_error_to_warn_header :: "connection_error \<Rightarrow> string \<Rightarrow> nat \<Rightarrow> (string \<times> string) list" where
  "tunnel_error_to_warn_header (CeIo _) hostname status =
    [(WARNING_HEADER_NAME, ''300 - Connection failed for some reason'')]"
| "tunnel_error_to_warn_header (CeAuthentication _) hostname status =
    (if status = PROXY_AUTHENTICATION_REQUIRED then [AUTHORIZATION_FAILURE_EXTRA_HEADER] else [])"
| "tunnel_error_to_warn_header CeTimeout hostname status =
    [(WARNING_HEADER_NAME, ''302 - '' @ connection_error_display CeTimeout)]"
| "tunnel_error_to_warn_header CeHostUnreachable hostname status =
    [(WARNING_HEADER_NAME, ''301 - '' @ connection_error_display CeHostUnreachable)]"
| "tunnel_error_to_warn_header CeDnsNonroutable hostname status =
    [(DNS_WARNING_HEADER_NAME, hostname),
     (WARNING_HEADER_NAME, ''310 - '' @ connection_error_display CeDnsNonroutable)]"
| "tunnel_error_to_warn_header CeDnsLoopback hostname status =
    [(DNS_WARNING_HEADER_NAME, hostname),
     (WARNING_HEADER_NAME, ''311 - '' @ connection_error_display CeDnsLoopback)]"
| "tunnel_error_to_warn_header (CeOther _) hostname status =
    [(WARNING_HEADER_NAME, ''300 - Connection failed for some reason'')]"

definition request_hostname :: "request_headers \<Rightarrow> string" where
  "request_hostname request = (case rq_authority request of Some a \<Rightarrow> au_text a | None \<Rightarrow> [])"

definition fail_request_with_error :: "pending_request \<Rightarrow> connection_error \<Rightarrow> response_headers" where
  "fail_request_with_error self error =
    bad_response (tunnel_error_to_status_code error (pr_auth_failure_status_code self))
      (tunnel_error_to_warn_header error (request_hostname (pr_request self)) (pr_auth_failure_status_code self))"

text \<open>\<open>DatagramEncoder::write\<close>.\<close>

definition encoder_write ::
  "('d \<Rightarrow> bytes option) \<Rightarrow> ('sink \<Rightarrow> bytes \<Rightarrow> 'sink \<times> (io_error, send_status) result)
   \<Rightarrow> 'sink \<Rightarrow> 'd \<Rightarrow> 'sink \<times> (io_error, send_status) result" where
  "encoder_write encode sink_write sink datagram =
    (case encode datagram of None \<Rightarrow> (sink, Ok Dropped) | Some encoded \<Rightarrow> sink_write sink encoded)"


section \<open>A sample configuration\<close>

definition valid_settings :: settings where
  "valid_settings = set_ping_enable True (set_clients [sample_client] sample_settings)"

lemmas valid_settings_defs = valid_settings_def sample_settings_def set_ping_enable_def set_clients_def
  set_listen_protocols_def settings_builder_new_def

lemma valid_settings_ok: "settings_validate valid_settings = Inr ()"
  by (simp add: settings_validate_ok valid_settings_defs default_listen_address_def default_ping_path_def
      default_speedtest_path_def default_auth_failure_status_code_def path_ok_def paths_apart_def
      starts_with_def is_valid_auth_failure_status_code_def)

definition sample_subscription :: subscription_settings where
  "sample_subscription = default_subscription_settings
     \<lparr>su_enabled := True, su_hostname := Some ''vpn.org'', su_address := Some ''1.2.3.4:443''\<rparr>"

definition sample_request :: "string \<Rightarrow> string \<Rightarrow> string \<Rightarrow> request_headers" where
  "sample_request req_method path text = \<lparr>rq_method = req_method, rq_path = path,
     rq_authority = Some \<lparr>au_text = text, au_host = text, au_port = None\<rparr>,
     rq_proxy_authorization = None, rq_user_agent = None\<rparr>"

lemma sample_port: "has_valid_port ''1.2.3.4:443''"
  by (simp add: has_valid_port_def rsplit_once_def split_once_def parse_uint_def is_digit_def digits_value_def)

lemma sample_resolves: "\<exists>cfg. resolve (\<lambda>_. None) None (\<lambda>_. Inr ''PEM'') sample_subscription valid_settings sample_hosts = Inr cfg"
  by (simp add: resolve_def validate_with_hosts_def subscription_validate_def sample_subscription_def
      default_subscription_settings_def default_subscription_path_def sample_port rbind_def map_err_def
      check_path_overlap_def valid_settings_defs default_ping_path_def default_speedtest_path_def
      starts_with_def sample_hosts_def sample_host_def)

lemma sample_channels:
  "http_select valid_settings None (sample_request ''GET'' ''/ping/1'' ''vpn.org'') = Ping"
  "http_select valid_settings None (sample_request CONNECT [] ''_udp2'') = Tunnel"
  by (simp_all add: http_select_def check_subscription_def check_ping_def check_speedtest_def
      check_reverse_proxy_path_def valid_settings_defs default_ping_path_def default_speedtest_enable_def
      sample_request_def starts_with_def)

section \<open>Properties\<close>

lemma resolve_Inr:
  assumes "resolve hex verifier read_file sub s hosts = Inr cfg"
  shows "sc_path cfg = su_path sub \<and> subscription_validate hex sub s = Inr ()"
  using assms by (auto simp: resolve_def validate_with_hosts_def rbind_eq_Inr_iff Let_def)

text \<open>C26: On validated settings the channel of a request does not depend on the order of the checks:
  the subscription, ping and speedtest channels are selected exactly by their own path, and none of
  them hides another.\<close>

theorem http_select_unambiguous:
  assumes "settings_validate s = Inr ()" and "resolve hex verifier read_file sub s hosts = Inr cfg"
  shows "(http_select s (Some cfg) r = Subscription \<longleftrightarrow> rq_path r = su_path sub) \<and>
    (http_select s (Some cfg) r = Ping \<longleftrightarrow>
       se_ping_enable s \<and> (\<exists>p. se_ping_path s = Some p \<and> starts_with (rq_path r) p)) \<and>
    (http_select s (Some cfg) r = Speedtest \<longleftrightarrow>
       se_speedtest_enable s \<and> (\<exists>p. se_speedtest_path s = Some p \<and> starts_with (rq_path r) p))"
proof -
  have sub: "sc_path cfg = su_path sub" "subscription_validate hex sub s = Inr ()"
    using resolve_Inr [OF assms(2)] by auto
  have apart: "paths_apart (Some (su_path sub)) (se_ping_path s)"
      "paths_apart (Some (su_path sub)) (se_speedtest_path s)" "paths_apart (se_ping_path s) (se_speedtest_path s)"
    using subscription_validate_paths [OF sub(2)] assms(1) settings_validate_ok by auto
  have sub_ping: "\<not> starts_with (su_path sub) p" if "se_ping_path s = Some p" for p
    using apart(1) that by (simp add: paths_apart_def)
  have sub_speed: "\<not> starts_with (su_path sub) p" if "se_speedtest_path s = Some p" for p
    using apart(2) that by (simp add: paths_apart_def)
  have ping_speed: "\<not> (starts_with (rq_path r) p \<and> starts_with (rq_path r) q)"
    if "se_ping_path s = Some p" "se_speedtest_path s = Some q" for p q
    using apart(3) that paths_apart_exclusive [of p q "rq_path r"] by auto
  show ?thesis
    using sub(1) sub_ping sub_speed ping_speed
    by (auto simp: http_select_def check_subscription_def check_ping_def check_speedtest_def
        split: option.splits if_splits)
qed

theorem http_select_unambiguous_witness:
  "\<exists>cfg. resolve (\<lambda>_. None) None (\<lambda>_. Inr ''PEM'') sample_subscription valid_settings sample_hosts = Inr cfg \<and>
     http_select valid_settings (Some cfg) (sample_request ''GET'' ''/subscription'' ''vpn.org'') = Subscription \<and>
     http_select valid_settings (Some cfg) (sample_request ''GET'' ''/ping'' ''vpn.org'') = Ping"
proof -
  obtain cfg where cfg: "resolve (\<lambda>_. None) None (\<lambda>_. Inr ''PEM'') sample_subscription valid_settings sample_hosts = Inr cfg"
    using sample_resolves by blast
  note select = http_select_unambiguous [OF valid_settings_ok cfg]
  show ?thesis
    using cfg select [of "sample_request ''GET'' ''/subscription'' ''vpn.org''"]
      select [of "sample_request ''GET'' ''/ping'' ''vpn.org''"]
    by (simp add: sample_request_def sample_subscription_def default_subscription_settings_def
        default_subscription_path_def valid_settings_defs default_ping_path_def)
qed





text \<open>The special authorities are honoured for CONNECT only and the promotion never panics: a
  request becomes a datagram multiplexer exactly for a CONNECT to the UDP or ICMP authority, and the
  multiplexer then opens the pipe of that kind; a special authority is never a TCP destination.\<close>

theorem datagram_promotion:
  "(\<forall>q. promote_request p = DatagramMultiplexer q \<longrightarrow> q = p \<and> rq_method (pr_request p) = CONNECT \<and>
      (\<exists>a. rq_authority (pr_request p) = Some a \<and>
         promote_datagram debug q = Ret (Inr (if au_text a = UDP_AUTHORITY then UdpHalves (ok_response False)
           else IcmpHalves (ok_response False))) \<and> au_text a \<in> {UDP_AUTHORITY, ICMP_AUTHORITY})) \<and>
   (\<forall>q. promote_request p = TcpConnect q \<longrightarrow> q = p \<and>
      (\<forall>a. rq_authority (pr_request p) = Some a \<longrightarrow>
         au_text a \<notin> {HEALTH_CHECK_AUTHORITY, UDP_AUTHORITY, ICMP_AUTHORITY}))"
  by (cases "rq_authority (pr_request p)")
    (auto simp: promote_request_def promote_datagram_def request_authority_def Let_def authority_defs
      split: if_splits)

theorem datagram_promotion_witness:
  "let p = \<lparr>pr_request = sample_request CONNECT [] ''_udp2'', pr_auth_failure_status_code = 407\<rparr>
   in promote_request p = DatagramMultiplexer p \<and>
      promote_datagram (\<lambda>_. []) p = Ret (Inr (UdpHalves (ok_response False)))"
proof -
  let ?p = "\<lparr>pr_request = sample_request CONNECT [] ''_udp2'', pr_auth_failure_status_code = 407\<rparr>"
  have "promote_request ?p = DatagramMultiplexer ?p"
    by (simp add: promote_request_def sample_request_def authority_defs)
  with datagram_promotion [of ?p "\<lambda>_. []"] show ?thesis
    by (auto simp: Let_def sample_request_def authority_defs)
qed

end
