(* ===== verification/Metrics.thy ===== *)
theory Metrics
  imports Http_Downstream
begin

text \<open>
  The metrics of the endpoint, \<^verbatim>\<open>lib/src/metrics.rs\<close>. A gauge of the metrics library is an integer and a
  counter a 64-bit one, per label; the session counter of a connection is a guard, so that the
  sessions alive are the abstract state the gauges are compared with.
\<close>

section \<open>State\<close>

record client_info =
  ci_username :: "string option"
  ci_ip :: "ip_addr option"
  ci_sessions :: u64

record client_summary =
  cs_username :: string
  cs_ip :: "ip_addr option"
  cs_sessions :: u64
  cs_inbound :: u64
  cs_outbound :: u64

record sessions_counter =
  sn_protocol :: tls_protocol
  sn_conn_id :: string

record metrics =
  me_per_client :: bool
  me_client_sessions :: "string \<Rightarrow> int"
  me_inbound_traffic :: "string \<Rightarrow> u64"
  me_outbound_traffic :: "string \<Rightarrow> u64"
  me_client_sessions_per_user :: "string \<times> string \<Rightarrow> int"
  me_inbound_traffic_per_user :: "string \<Rightarrow> u64"
  me_outbound_traffic_per_user :: "string \<Rightarrow> u64"
  me_outbound_tcp_sockets :: int
  me_outbound_udp_sockets :: int
  me_clients :: "string \<rightharpoonup> client_info"

definition metrics_new :: "bool \<Rightarrow> metrics" where
  "metrics_new per_client =
    \<lparr>me_per_client = per_client, me_client_sessions = (\<lambda>_. 0), me_inbound_traffic = (\<lambda>_. 0),
     me_outbound_traffic = (\<lambda>_. 0), me_client_sessions_per_user = (\<lambda>_. 0),
     me_inbound_traffic_per_user = (\<lambda>_. 0), me_outbound_traffic_per_user = (\<lambda>_. 0),
     me_outbound_tcp_sockets = 0, me_outbound_udp_sockets = 0, me_clients = Map.empty\<rparr>"

section \<open>Operations\<close>

definition inc_by :: "('l \<Rightarrow> 'n :: plus) \<Rightarrow> 'l \<Rightarrow> 'n \<Rightarrow> 'l \<Rightarrow> 'n" where
  "inc_by gauge label n = gauge(label := gauge label + n)"

definition unwrap_or_default :: "string option \<Rightarrow> string" where
  "unwrap_or_default u = (case u of Some x \<Rightarrow> x | None \<Rightarrow> [])"

definition add_inbound_bytes :: "tls_protocol \<Rightarrow> string option \<Rightarrow> nat \<Rightarrow> metrics \<Rightarrow> metrics" where
  "add_inbound_bytes protocol username n self =
    (let self = self\<lparr>me_inbound_traffic := inc_by (me_inbound_traffic self) (protocol_as_str protocol) (of_nat n)\<rparr>
     in if me_per_client self
        then (case username of
                Some u \<Rightarrow> self\<lparr>me_inbound_traffic_per_user := inc_by (me_inbound_traffic_per_user self) u (of_nat n)\<rparr>
              | None \<Rightarrow> self)
        else self)"

definition add_outbound_bytes :: "tls_protocol \<Rightarrow> string option \<Rightarrow> nat \<Rightarrow> metrics \<Rightarrow> metrics" where
  "add_outbound_bytes protocol username n self =
    (let self = self\<lparr>me_outbound_traffic := inc_by (me_outbound_traffic self) (protocol_as_str protocol) (of_nat n)\<rparr>
     in if me_per_client self
        then (case username of
                Some u \<Rightarrow> self\<lparr>me_outbound_traffic_per_user := inc_by (me_outbound_traffic_per_user self) u (of_nat n)\<rparr>
              | None \<Rightarrow> self)
        else self)"

definition register_connection :: "string \<Rightarrow> ip_addr option \<Rightarrow> metrics \<Rightarrow> metrics" where
  "register_connection conn_id ip self =
    (case me_clients self conn_id of
       Some _ \<Rightarrow> self
     | None \<Rightarrow> self\<lparr>me_clients := (me_clients self)
         (conn_id \<mapsto> \<lparr>ci_username = None, ci_ip = ip, ci_sessions = 0\<rparr>)\<rparr>)"

definition unregister_connection :: "string \<Rightarrow> metrics \<Rightarrow> metrics" where
  "unregister_connection conn_id self = self\<lparr>me_clients := (me_clients self)(conn_id := None)\<rparr>"

definition transfer_session_username :: "tls_protocol \<Rightarrow> string \<Rightarrow> string option \<Rightarrow> metrics \<Rightarrow> metrics" where
  "transfer_session_username protocol conn_id username self =
    (case me_clients self conn_id of
       None \<Rightarrow> self
     | Some entry \<Rightarrow>
         let old = unwrap_or_default (ci_username entry); new = unwrap_or_default username
         in if old = new then self
            else
              let p = protocol_as_str protocol;
                  self = (if me_per_client self
                    then self\<lparr>me_client_sessions_per_user :=
                      inc_by (inc_by (me_client_sessions_per_user self) (old, p) (-1)) (new, p) 1\<rparr>
                    else self)
              in self\<lparr>me_clients := (me_clients self)(conn_id \<mapsto> entry\<lparr>ci_username := username\<rparr>)\<rparr>)"

text \<open>\<open>saturating_add\<close> on 64 bits.\<close>

definition saturating_add :: "u64 \<Rightarrow> u64 \<Rightarrow> u64" where
  "saturating_add a b = (if unat a + unat b < 2 ^ 64 then a + b else - 1)"

text \<open>\<open>ClientSessionsCounter::new\<close> and its \<open>Drop\<close>.\<close>

definition client_sessions_counter ::
  "tls_protocol \<Rightarrow> string \<Rightarrow> string option \<Rightarrow> metrics \<Rightarrow> metrics \<times> sessions_counter" where
  "client_sessions_counter protocol conn_id username metrics =
    (let p = protocol_as_str protocol;
         metrics = metrics\<lparr>me_client_sessions := inc_by (me_client_sessions metrics) p 1\<rparr>;
         metrics = (if me_per_client metrics
           then metrics\<lparr>me_client_sessions_per_user :=
             inc_by (me_client_sessions_per_user metrics) (unwrap_or_default username, p) 1\<rparr>
           else metrics);
         entry = (case me_clients metrics conn_id of
           Some e \<Rightarrow> e | None \<Rightarrow> \<lparr>ci_username = None, ci_ip = None, ci_sessions = 0\<rparr>);
         entry = (case username of Some u \<Rightarrow> entry\<lparr>ci_username := Some u\<rparr> | None \<Rightarrow> entry);
         entry = entry\<lparr>ci_sessions := saturating_add (ci_sessions entry) 1\<rparr>
     in (metrics\<lparr>me_clients := (me_clients metrics)(conn_id \<mapsto> entry)\<rparr>,
         \<lparr>sn_protocol = protocol, sn_conn_id = conn_id\<rparr>))"

definition drop_sessions_counter :: "sessions_counter \<Rightarrow> metrics \<Rightarrow> metrics" where
  "drop_sessions_counter self metrics =
    (let p = protocol_as_str (sn_protocol self);
         metrics = metrics\<lparr>me_client_sessions := inc_by (me_client_sessions metrics) p (-1)\<rparr>
     in case me_clients metrics (sn_conn_id self) of
          None \<Rightarrow> metrics
        | Some entry \<Rightarrow>
            let metrics = metrics\<lparr>me_clients := (me_clients metrics)(sn_conn_id self := None)\<rparr>
            in if me_per_client metrics
               then metrics\<lparr>me_client_sessions_per_user :=
                 inc_by (me_client_sessions_per_user metrics) (unwrap_or_default (ci_username entry), p) (-1)\<rparr>
               else metrics)"

definition outbound_tcp_socket_counter :: "metrics \<Rightarrow> metrics" where
  "outbound_tcp_socket_counter m = m\<lparr>me_outbound_tcp_sockets := me_outbound_tcp_sockets m + 1\<rparr>"

definition drop_tcp_socket_counter :: "metrics \<Rightarrow> metrics" where
  "drop_tcp_socket_counter m = m\<lparr>me_outbound_tcp_sockets := me_outbound_tcp_sockets m - 1\<rparr>"

definition outbound_udp_socket_counter :: "metrics \<Rightarrow> metrics" where
  "outbound_udp_socket_counter m = m\<lparr>me_outbound_udp_sockets := me_outbound_udp_sockets m + 1\<rparr>"

definition drop_udp_socket_counter :: "metrics \<Rightarrow> metrics" where
  "drop_udp_socket_counter m = m\<lparr>me_outbound_udp_sockets := me_outbound_udp_sockets m - 1\<rparr>"

section \<open>Summaries and requests\<close>

definition seed_summaries :: "string list \<Rightarrow> string \<rightharpoonup> client_summary" where
  "seed_summaries usernames =
    foldl (\<lambda>agg u. case agg u of Some _ \<Rightarrow> agg
      | None \<Rightarrow> agg(u \<mapsto> \<lparr>cs_username = u, cs_ip = None, cs_sessions = 0, cs_inbound = 0, cs_outbound = 0\<rparr>))
      Map.empty usernames"

definition merge_client :: "client_info \<Rightarrow> (string \<rightharpoonup> client_summary) \<Rightarrow> string \<rightharpoonup> client_summary" where
  "merge_client info agg =
    (let uname = unwrap_or_default (ci_username info);
         entry = (case agg uname of Some e \<Rightarrow> e
           | None \<Rightarrow> \<lparr>cs_username = uname, cs_ip = ci_ip info, cs_sessions = 0, cs_inbound = 0, cs_outbound = 0\<rparr>);
         entry = entry\<lparr>cs_sessions := saturating_add (cs_sessions entry) (ci_sessions info)\<rparr>;
         entry = (if cs_ip entry = None then entry\<lparr>cs_ip := ci_ip info\<rparr> else entry)
     in agg(uname \<mapsto> entry))"

text \<open>\<open>clients_summary\<close>: the summary of each user; the order in which the clients map is iterated is
  the parameter \<open>infos\<close>, and the order of the result is not fixed.\<close>

definition clients_summary :: "client_info list \<Rightarrow> metrics \<Rightarrow> string list \<Rightarrow> string \<rightharpoonup> client_summary" where
  "clients_summary infos self configured_usernames =
    (let agg = fold merge_client infos (seed_summaries configured_usernames)
     in if me_per_client self
        then map_option (\<lambda>s. s\<lparr>cs_inbound := me_inbound_traffic_per_user self (cs_username s),
               cs_outbound := me_outbound_traffic_per_user self (cs_username s)\<rparr>) \<circ> agg
        else agg)"

definition HEALTH_CHECK_PATH :: string where "HEALTH_CHECK_PATH = ''/health-check''"
definition METRICS_PATH :: string where "METRICS_PATH = ''/metrics''"
definition CLIENTS_PATH :: string where "CLIENTS_PATH = ''/clients''"

datatype metrics_response =
    HealthOk response_headers
  | MetricsText string bytes
  | ClientsJson bytes
  | MetricsBad response_headers

text \<open>The handler's answer to one request; the text encoder and the JSON encoder are parameters.\<close>

definition metrics_handle ::
  "(metrics \<Rightarrow> string \<times> bytes) \<Rightarrow> ((string \<rightharpoonup> client_summary) \<Rightarrow> bytes option) \<Rightarrow> client_info list
   \<Rightarrow> client list \<Rightarrow> metrics \<Rightarrow> string \<Rightarrow> metrics_response" where
  "metrics_handle collect to_json infos clients self path =
    (if path = HEALTH_CHECK_PATH then HealthOk (ok_response True)
     else if path = METRICS_PATH then (case collect self of (content_type, content) \<Rightarrow> MetricsText content_type content)
     else if path = CLIENTS_PATH then
       (if \<not> me_per_client self then MetricsBad (bad_response 404 [])
        else (case to_json (clients_summary infos self (map cl_username clients)) of
                Some v \<Rightarrow> ClientsJson v
              | None \<Rightarrow> MetricsBad (bad_response 500 [])))
     else MetricsBad (bad_response 400 []))"


section \<open>Runs and the sessions alive\<close>

text \<open>The sessions alive, by connection. A connection is registered before its session starts, is
  relabelled only by the requests of its own session (which may still run after it ended), and is
  unregistered only if its session never started.\<close>

inductive metrics_step :: "metrics \<times> (string \<rightharpoonup> tls_protocol) \<Rightarrow> metrics \<times> (string \<rightharpoonup> tls_protocol) \<Rightarrow> bool" where
  registered: "metrics_step (m, live) (register_connection c ip m, live)"
| unregistered: "live c = None \<Longrightarrow> metrics_step (m, live) (unregister_connection c m, live)"
| started: "live c = None \<Longrightarrow> client_sessions_counter p c u m = (m', g)
    \<Longrightarrow> metrics_step (m, live) (m', live(c \<mapsto> p))"
| relabelled: "live c = Some p \<or> me_clients m c = None
    \<Longrightarrow> metrics_step (m, live) (transfer_session_username p c u m, live)"
| ended: "live c = Some p
    \<Longrightarrow> metrics_step (m, live) (drop_sessions_counter \<lparr>sn_protocol = p, sn_conn_id = c\<rparr> m, live(c := None))"
| inbound: "metrics_step (m, live) (add_inbound_bytes p u n m, live)"
| outbound: "metrics_step (m, live) (add_outbound_bytes p u n m, live)"

definition session_label :: "(string \<rightharpoonup> client_info) \<Rightarrow> string \<Rightarrow> string" where
  "session_label clients c = (case clients c of Some e \<Rightarrow> unwrap_or_default (ci_username e) | None \<Rightarrow> [])"

definition sessions_of :: "(string \<rightharpoonup> tls_protocol) \<Rightarrow> tls_protocol \<Rightarrow> string set" where
  "sessions_of live p = {c. live c = Some p}"

definition sessions_of_user ::
  "(string \<rightharpoonup> client_info) \<Rightarrow> (string \<rightharpoonup> tls_protocol) \<Rightarrow> string \<Rightarrow> tls_protocol \<Rightarrow> string set" where
  "sessions_of_user clients live u p = {c. live c = Some p \<and> session_label clients c = u}"

definition balanced :: "metrics \<Rightarrow> (string \<rightharpoonup> tls_protocol) \<Rightarrow> bool" where
  "balanced m live \<longleftrightarrow>
    finite (dom live) \<and> dom live \<subseteq> dom (me_clients m) \<and>
    (\<forall>c e. me_clients m c = Some e \<longrightarrow>
       (if live c = None then ci_username e = None \<and> ci_sessions e = 0 else ci_sessions e = 1)) \<and>
    (\<forall>p. me_client_sessions m (protocol_as_str p) = int (card (sessions_of live p))) \<and>
    (me_per_client m \<longrightarrow>
      (\<forall>u p. me_client_sessions_per_user m (u, protocol_as_str p) =
         int (card (sessions_of_user (me_clients m) live u p))))"

section \<open>Lemmas\<close>

lemma protocol_as_str_eq [simp]: "protocol_as_str p = protocol_as_str q \<longleftrightarrow> p = q"
  by (cases p; cases q) simp_all

lemma inc_by_apply [simp]: "inc_by g l n k = (if k = l then g l + n else g k)"
  by (simp add: inc_by_def)

lemma saturating_add_one [simp]: "saturating_add 0 1 = 1"
  by (simp add: saturating_add_def)

lemma finite_sessions:
  assumes "finite (dom live)"
  shows "finite (sessions_of live p)" "finite (sessions_of_user clients live u p)"
proof -
  have "sessions_of live p \<subseteq> dom live" "sessions_of_user clients live u p \<subseteq> dom live"
    by (auto simp: sessions_of_def sessions_of_user_def)
  then show "finite (sessions_of live p)" "finite (sessions_of_user clients live u p)"
    using assms finite_subset by blast+
qed

lemma int_card_remove: "finite A \<Longrightarrow> int (card (A - {c})) = int (card A) - (if c \<in> A then 1 else 0)"
proof (cases "c \<in> A")
  case True
  moreover assume "finite A"
  ultimately have "card A = Suc (card (A - {c}))" by (rule card.remove [rotated])
  with True show ?thesis by simp
qed simp

lemma sessions_of_start:
  "sessions_of (live(c \<mapsto> q)) p = (if p = q then insert c (sessions_of live p) else sessions_of live p - {c})"
  by (auto simp: sessions_of_def)

lemma sessions_of_end: "sessions_of (live(c := None)) p = sessions_of live p - {c}"
  by (auto simp: sessions_of_def)

lemma sessions_of_user_start:
  "live c = None \<Longrightarrow> sessions_of_user (clients(c \<mapsto> e)) (live(c \<mapsto> q)) u p =
    (if p = q \<and> unwrap_or_default (ci_username e) = u then insert c (sessions_of_user clients live u p)
     else sessions_of_user clients live u p)"
  by (auto simp: sessions_of_user_def session_label_def)

lemma sessions_of_user_end:
  "sessions_of_user (clients(c := None)) (live(c := None)) u p = sessions_of_user clients live u p - {c}"
  by (auto simp: sessions_of_user_def session_label_def)

lemma sessions_of_user_relabel:
  "live c = Some q \<Longrightarrow> sessions_of_user (clients(c \<mapsto> e)) live u p =
    (if p = q \<and> unwrap_or_default (ci_username e) = u then insert c (sessions_of_user clients live u p)
     else sessions_of_user clients live u p - {c})"
  by (auto simp: sessions_of_user_def session_label_def)

lemma sessions_of_user_other:
  "live c = None \<Longrightarrow> sessions_of_user (clients(c := e)) live u p = sessions_of_user clients live u p"
  by (auto simp: sessions_of_user_def session_label_def)

lemma balanced_new: "balanced (metrics_new per_client) Map.empty"
  by (simp add: balanced_def metrics_new_def sessions_of_def sessions_of_user_def)

lemma balanced_register: "balanced m live \<Longrightarrow> balanced (register_connection c ip m) live"
proof (cases "me_clients m c")
  case None
  moreover assume b: "balanced m live"
  ultimately have "live c = None" by (auto simp: balanced_def)
  with b None show ?thesis
    by (auto simp: balanced_def register_connection_def sessions_of_user_other)
qed (simp add: register_connection_def)

lemma balanced_unregister: "balanced m live \<Longrightarrow> live c = None \<Longrightarrow> balanced (unregister_connection c m) live"
  by (auto simp: balanced_def unregister_connection_def sessions_of_user_other)

lemma balanced_start:
  assumes "balanced m live" "live c = None" "client_sessions_counter p c u m = (m', g)"
  shows "balanced m' (live(c \<mapsto> p))"
proof -
  have m': "m' = fst (client_sessions_counter p c u m)" using assms(3) by simp
  obtain e where e: "ci_username e = u" "ci_sessions e = 1"
    and m'_fields: "me_clients m' = (me_clients m)(c \<mapsto> e)" "me_per_client m' = me_per_client m"
      "me_client_sessions m' = inc_by (me_client_sessions m) (protocol_as_str p) 1"
      "me_per_client m \<Longrightarrow> me_client_sessions_per_user m' =
         inc_by (me_client_sessions_per_user m) (unwrap_or_default u, protocol_as_str p) 1"
  proof
    let ?e = "(case me_clients m c of Some e \<Rightarrow> e | None \<Rightarrow> \<lparr>ci_username = None, ci_ip = None, ci_sessions = 0\<rparr>)"
    let ?e' = "(case u of Some x \<Rightarrow> ?e\<lparr>ci_username := Some x\<rparr> | None \<Rightarrow> ?e)\<lparr>ci_sessions := 1\<rparr>"
    have old: "ci_username ?e = None" "ci_sessions ?e = 0"
      using assms(1,2) by (auto simp: balanced_def split: option.split)
    then show "ci_username ?e' = u" "ci_sessions ?e' = 1" by (auto split: option.split)
    show "me_clients m' = (me_clients m)(c \<mapsto> ?e')"
      using old unfolding m'
      by (cases "me_per_client m"; cases u; cases "me_clients m c") (simp_all add: client_sessions_counter_def Let_def)
  qed (simp_all add: m' client_sessions_counter_def Let_def)
  have "c \<notin> sessions_of live q" "c \<notin> sessions_of_user (me_clients m) live v q" for v q
    using assms(2) by (auto simp: sessions_of_def sessions_of_user_def)
  with assms(1,2) e m'_fields show ?thesis
    by (auto simp: balanced_def sessions_of_start sessions_of_user_start finite_sessions)
qed

lemma balanced_end:
  assumes "balanced m live" "live c = Some p"
  shows "balanced (drop_sessions_counter \<lparr>sn_protocol = p, sn_conn_id = c\<rparr> m) (live(c := None))"
proof -
  obtain e where e: "me_clients m c = Some e" using assms by (auto simp: balanced_def)
  have "c \<in> sessions_of live q \<longleftrightarrow> q = p"
      "c \<in> sessions_of_user (me_clients m) live v q \<longleftrightarrow> q = p \<and> v = unwrap_or_default (ci_username e)" for v q
    using assms(2) e by (auto simp: sessions_of_def sessions_of_user_def session_label_def)
  with assms e show ?thesis
    by (auto simp: balanced_def drop_sessions_counter_def Let_def sessions_of_end sessions_of_user_end
        finite_sessions int_card_remove simp del: card_Diff_singleton card_Diff_insert)
qed

lemma balanced_relabel:
  assumes "balanced m live" "live c = Some p \<or> me_clients m c = None"
  shows "balanced (transfer_session_username p c u m) live"
proof (cases "me_clients m c")
  case None
  with assms(1) show ?thesis by (simp add: transfer_session_username_def)
next
  case (Some e)
  then have live: "live c = Some p" using assms(2) by simp
  have mem: "c \<in> sessions_of_user (me_clients m) live v q \<longleftrightarrow> q = p \<and> v = unwrap_or_default (ci_username e)" for v q
    using live Some by (auto simp: sessions_of_user_def session_label_def)
  show ?thesis
    using assms(1) Some live mem
    by (auto simp: balanced_def transfer_session_username_def Let_def sessions_of_user_relabel
        finite_sessions int_card_remove simp del: card_Diff_singleton card_Diff_insert)
qed

lemma balanced_traffic:
  "balanced (add_inbound_bytes p u n m) live \<longleftrightarrow> balanced m live"
  "balanced (add_outbound_bytes p u n m) live \<longleftrightarrow> balanced m live"
  by (simp_all add: balanced_def add_inbound_bytes_def add_outbound_bytes_def Let_def split: option.split)

lemma balanced_step: "metrics_step s t \<Longrightarrow> balanced (fst s) (snd s) \<Longrightarrow> balanced (fst t) (snd t)"
  by (induction rule: metrics_step.induct)
    (auto intro: balanced_register balanced_unregister balanced_start balanced_end balanced_relabel
      simp: balanced_traffic)


lemma per_client_step: "metrics_step s t \<Longrightarrow> me_per_client (fst t) = me_per_client (fst s)"
  by (induction rule: metrics_step.induct)
    (auto simp: register_connection_def unregister_connection_def client_sessions_counter_def
      transfer_session_username_def drop_sessions_counter_def add_inbound_bytes_def add_outbound_bytes_def
      Let_def split: option.splits if_splits)

lemma balanced_run:
  assumes "metrics_step\<^sup>*\<^sup>* (metrics_new per_client, Map.empty) (m, live)"
  shows "balanced m live \<and> me_per_client m = per_client"
proof -
  have "balanced (fst t) (snd t) \<and> me_per_client (fst t) = per_client"
    if "metrics_step\<^sup>*\<^sup>* (metrics_new per_client, Map.empty) t" for t
    using that
  proof (induction rule: rtranclp_induct)
    case base
    show ?case using balanced_new by (simp add: metrics_new_def)
  next
    case (step s t)
    then show ?case using balanced_step per_client_step by blast
  qed
  from this [OF assms] show ?thesis by simp
qed

section \<open>Properties\<close>

text \<open>C8: The session gauges stay balanced: in every run, the sessions gauge of a protocol is the
  number of sessions alive on it, and the per-user gauge of a user and a protocol is the number of
  sessions alive that carry the user's label, however they were registered, relabelled and dropped.\<close>

theorem session_gauges_balanced:
  assumes "metrics_step\<^sup>*\<^sup>* (metrics_new per_client, Map.empty) (m, live)"
  shows "me_client_sessions m (protocol_as_str p) = int (card (sessions_of live p)) \<and>
    (per_client \<longrightarrow> me_client_sessions_per_user m (u, protocol_as_str p) =
       int (card (sessions_of_user (me_clients m) live u p))) \<and>
    (live = Map.empty \<and> per_client \<longrightarrow> me_client_sessions_per_user m (u, protocol_as_str p) = 0)"
  using balanced_run [OF assms]
  by (auto simp: balanced_def sessions_of_user_def)

theorem session_gauges_balanced_witness:
  "let m1 = register_connection ''T1'' None (metrics_new True);
       m2 = fst (client_sessions_counter Http2 ''T1'' None m1);
       m3 = transfer_session_username Http2 ''T1'' (Some ''bob'') m2
   in me_client_sessions_per_user m3 (''bob'', ''HTTP2'') = 1 \<and>
      me_client_sessions_per_user m3 ([], ''HTTP2'') = 0"
proof -
  let ?m1 = "register_connection ''T1'' None (metrics_new True)"
  let ?m2 = "fst (client_sessions_counter Http2 ''T1'' None ?m1)"
  let ?m3 = "transfer_session_username Http2 ''T1'' (Some ''bob'') ?m2"
  have s1: "metrics_step (metrics_new True, Map.empty) (?m1, Map.empty)"
    by (rule metrics_step.registered)
  have s2: "metrics_step (?m1, Map.empty) (?m2, Map.empty(''T1'' \<mapsto> Http2))"
    by (rule metrics_step.started [of _ _ _ _ _ _ "snd (client_sessions_counter Http2 ''T1'' None ?m1)"]) simp_all
  have s3: "metrics_step (?m2, Map.empty(''T1'' \<mapsto> Http2)) (?m3, Map.empty(''T1'' \<mapsto> Http2))"
    by (rule metrics_step.relabelled) simp
  have run: "metrics_step\<^sup>*\<^sup>* (metrics_new True, Map.empty) (?m3, Map.empty(''T1'' \<mapsto> Http2))"
    using s1 s2 s3 by (meson rtranclp.rtrancl_into_rtrancl rtranclp.rtrancl_refl)
  have label: "session_label (me_clients ?m3) ''T1'' = ''bob''"
    by (simp add: session_label_def transfer_session_username_def client_sessions_counter_def
        register_connection_def metrics_new_def unwrap_or_default_def Let_def)
  have "sessions_of_user (me_clients ?m3) (Map.empty(''T1'' \<mapsto> Http2)) ''bob'' Http2 = {''T1''}"
      "sessions_of_user (me_clients ?m3) (Map.empty(''T1'' \<mapsto> Http2)) [] Http2 = {}"
    using label by (auto simp: sessions_of_user_def split: if_splits)
  with session_gauges_balanced [OF run, of Http2 "''bob''"] session_gauges_balanced [OF run, of Http2 "[]"]
  show ?thesis by (simp add: Let_def)
qed

end
