(* ===== verification/Connection_Limiter.thy ===== *)
theory Connection_Limiter
  imports Protocols Authentication "HOL-Library.Multiset"
begin

text \<open>
  The per-client connection limits, \<^verbatim>\<open>lib/src/connection_limiter.rs\<close>. The mutex makes each operation
  one step; a guard that is dropped releases its slot. The guards alive are the abstract state:
  the counters of the code are the multiplicities of a multiset of guards.
\<close>

section \<open>The limiter\<close>

record client_entry =
  ce_max_http2 :: "u32 option"
  ce_max_http3 :: "u32 option"
  ce_http2_count :: u32
  ce_http3_count :: u32

record connection_limiter =
  li_clients :: "string \<rightharpoonup> client_entry"
  li_default_max_http2 :: "u32 option"
  li_default_max_http3 :: "u32 option"

record connection_guard =
  gd_creds :: string
  gd_protocol :: tls_protocol

definition limiter_new :: "(string \<Rightarrow> string) \<Rightarrow> client list \<Rightarrow> u32 option \<Rightarrow> u32 option \<Rightarrow> connection_limiter" where
  "limiter_new base64 clients default_max_http2 default_max_http3 =
    \<lparr>li_clients = collect_map (map (\<lambda>c. (credentials base64 c,
       \<lparr>ce_max_http2 = cl_max_http2_conns c, ce_max_http3 = cl_max_http3_conns c,
        ce_http2_count = 0, ce_http3_count = 0\<rparr>)) clients),
     li_default_max_http2 = default_max_http2, li_default_max_http3 = default_max_http3\<rparr>"

text \<open>\<open>Option::or\<close>.\<close>

fun opt_or :: "'a option \<Rightarrow> 'a option \<Rightarrow> 'a option" where
  "opt_or (Some x) _ = Some x"
| "opt_or None y = y"

definition exceeds :: "u32 \<Rightarrow> u32 option \<Rightarrow> bool" where
  "exceeds current limit = (case limit of Some m \<Rightarrow> current \<ge> m | None \<Rightarrow> False)"

definition try_acquire ::
  "connection_limiter \<Rightarrow> string \<Rightarrow> tls_protocol \<Rightarrow> connection_limiter \<times> connection_guard option" where
  "try_acquire self creds protocol =
    (case li_clients self creds of
       None \<Rightarrow> (self, None)
     | Some entry \<Rightarrow>
         (case protocol of
            Http3 \<Rightarrow>
              let limit = opt_or (ce_max_http3 entry) (li_default_max_http3 self) in
              if exceeds (ce_http3_count entry) limit then (self, None)
              else (self\<lparr>li_clients := (li_clients self)
                       (creds \<mapsto> entry\<lparr>ce_http3_count := ce_http3_count entry + 1\<rparr>)\<rparr>,
                    Some \<lparr>gd_creds = creds, gd_protocol = protocol\<rparr>)
          | _ \<Rightarrow>
              let limit = opt_or (ce_max_http2 entry) (li_default_max_http2 self) in
              if exceeds (ce_http2_count entry) limit then (self, None)
              else (self\<lparr>li_clients := (li_clients self)
                       (creds \<mapsto> entry\<lparr>ce_http2_count := ce_http2_count entry + 1\<rparr>)\<rparr>,
                    Some \<lparr>gd_creds = creds, gd_protocol = protocol\<rparr>)))"

definition saturating_dec :: "u32 \<Rightarrow> u32" where
  "saturating_dec n = (if n = 0 then 0 else n - 1)"

definition release :: "connection_limiter \<Rightarrow> string \<Rightarrow> tls_protocol \<Rightarrow> connection_limiter" where
  "release self creds protocol =
    (case li_clients self creds of
       None \<Rightarrow> self
     | Some entry \<Rightarrow>
         self\<lparr>li_clients := (li_clients self)(creds \<mapsto>
           (case protocol of
              Http3 \<Rightarrow> entry\<lparr>ce_http3_count := saturating_dec (ce_http3_count entry)\<rparr>
            | _ \<Rightarrow> entry\<lparr>ce_http2_count := saturating_dec (ce_http2_count entry)\<rparr>))\<rparr>)"

text \<open>\<open>Drop for ConnectionGuard\<close>.\<close>

definition drop_guard :: "connection_limiter \<Rightarrow> connection_guard \<Rightarrow> connection_limiter" where
  "drop_guard self g = release self (gd_creds g) (gd_protocol g)"

section \<open>Runs and the abstract limiter\<close>

text \<open>Slots are counted per credentials and per protocol class: HTTP/1 and HTTP/2 share one.\<close>

definition is_h3 :: "tls_protocol \<Rightarrow> bool" where
  "is_h3 p \<longleftrightarrow> p = Http3"

definition slots :: "connection_guard multiset \<Rightarrow> string \<Rightarrow> bool \<Rightarrow> nat" where
  "slots guards creds h3 = size {#g \<in># guards. gd_creds g = creds \<and> is_h3 (gd_protocol g) = h3#}"

definition slot_limit :: "connection_limiter \<Rightarrow> client_entry \<Rightarrow> bool \<Rightarrow> u32 option" where
  "slot_limit self entry h3 =
    (if h3 then opt_or (ce_max_http3 entry) (li_default_max_http3 self)
     else opt_or (ce_max_http2 entry) (li_default_max_http2 self))"

definition slot_count :: "client_entry \<Rightarrow> bool \<Rightarrow> u32" where
  "slot_count entry h3 = (if h3 then ce_http3_count entry else ce_http2_count entry)"

text \<open>One step of a run: some task asks for a slot, or one of the guards alive is dropped. A guard is
  an object of the process, so fewer than \<open>2 ^ 32\<close> of them are alive.\<close>

inductive limiter_step ::
  "connection_limiter \<times> connection_guard multiset \<Rightarrow> connection_limiter \<times> connection_guard multiset \<Rightarrow> bool" where
  acquired: "try_acquire l creds p = (l', Some g) \<Longrightarrow> size guards + 1 < 2 ^ 32
    \<Longrightarrow> limiter_step (l, guards) (l', add_mset g guards)"
| refused: "try_acquire l creds p = (l', None) \<Longrightarrow> limiter_step (l, guards) (l', guards)"
| dropped: "g \<in># guards \<Longrightarrow> limiter_step (l, guards) (drop_guard l g, guards - {#g#})"

inductive_cases limiter_stepE: "limiter_step (l, guards) (l', guards')"

definition limiter_run ::
  "connection_limiter \<Rightarrow> connection_limiter \<Rightarrow> connection_guard multiset \<Rightarrow> bool" where
  "limiter_run l0 l guards \<longleftrightarrow> limiter_step\<^sup>*\<^sup>* (l0, {#}) (l, guards)"

text \<open>The refinement: every counter is the number of guards alive, and within the limit.\<close>

definition within :: "nat \<Rightarrow> u32 option \<Rightarrow> bool" where
  "within n limit = (case limit of Some m \<Rightarrow> n \<le> unat m | None \<Rightarrow> True)"

definition counts :: "connection_limiter \<Rightarrow> connection_guard multiset \<Rightarrow> bool" where
  "counts l guards \<longleftrightarrow>
    size guards < 2 ^ 32 \<and>
    (\<forall>g \<in># guards. li_clients l (gd_creds g) \<noteq> None) \<and>
    (\<forall>creds entry h3. li_clients l creds = Some entry \<longrightarrow>
      unat (slot_count entry h3) = slots guards creds h3 \<and>
      within (slots guards creds h3) (slot_limit l entry h3))"

lemma within_mono: "within n limit \<Longrightarrow> k \<le> n \<Longrightarrow> within k limit"
  by (simp add: within_def split: option.splits)

lemma slots_le: "slots guards creds h3 \<le> size guards"
  unfolding slots_def by (rule size_mset_mono) simp

lemma slots_add [simp]:
  "slots (add_mset g guards) creds h3 =
    slots guards creds h3 + (if gd_creds g = creds \<and> is_h3 (gd_protocol g) = h3 then 1 else 0)"
  by (simp add: slots_def)

lemma slots_remove:
  "g \<in># guards \<Longrightarrow> slots (guards - {#g#}) creds h3 =
    slots guards creds h3 - (if gd_creds g = creds \<and> is_h3 (gd_protocol g) = h3 then 1 else 0)"
  by (simp add: slots_def size_Diff_singleton_if)

lemma slots_pos: "g \<in># guards \<Longrightarrow> 0 < slots guards (gd_creds g) (is_h3 (gd_protocol g))"
  by (auto simp: slots_def size_eq_0_iff_empty filter_mset_eq_conv nonempty_has_size [symmetric])


definition set_count :: "client_entry \<Rightarrow> bool \<Rightarrow> u32 \<Rightarrow> client_entry" where
  "set_count entry h3 n = (if h3 then entry\<lparr>ce_http3_count := n\<rparr> else entry\<lparr>ce_http2_count := n\<rparr>)"

lemma slot_count_set_count [simp]:
  "slot_count (set_count entry h n) h3 = (if h = h3 then n else slot_count entry h3)"
  by (simp add: slot_count_def set_count_def)

lemma slot_limit_set_count [simp]: "slot_limit l (set_count entry h n) h3 = slot_limit l entry h3"
  by (simp add: slot_limit_def set_count_def)

lemma slot_limit_clients [simp]: "slot_limit (l\<lparr>li_clients := m\<rparr>) entry h3 = slot_limit l entry h3"
  by (simp add: slot_limit_def)

text \<open>Both operations, with the protocol class as a parameter.\<close>

lemma try_acquire_eq:
  "try_acquire l creds p =
    (case li_clients l creds of
       None \<Rightarrow> (l, None)
     | Some entry \<Rightarrow>
         if exceeds (slot_count entry (is_h3 p)) (slot_limit l entry (is_h3 p)) then (l, None)
         else (l\<lparr>li_clients := (li_clients l)
                 (creds \<mapsto> set_count entry (is_h3 p) (slot_count entry (is_h3 p) + 1))\<rparr>,
               Some \<lparr>gd_creds = creds, gd_protocol = p\<rparr>))"
  by (cases p) (simp_all add: try_acquire_def is_h3_def slot_count_def slot_limit_def set_count_def
      Let_def split: option.split)

lemma drop_guard_eq:
  "drop_guard l g =
    (case li_clients l (gd_creds g) of
       None \<Rightarrow> l
     | Some entry \<Rightarrow> l\<lparr>li_clients := (li_clients l)(gd_creds g \<mapsto>
         set_count entry (is_h3 (gd_protocol g)) (saturating_dec (slot_count entry (is_h3 (gd_protocol g)))))\<rparr>)"
  by (cases "gd_protocol g") (simp_all add: drop_guard_def release_def is_h3_def slot_count_def
      set_count_def split: option.split)

lemma not_exceeds: "\<not> exceeds n limit \<longleftrightarrow> within (unat n + 1) limit"
  by (simp add: exceeds_def within_def word_le_nat_alt not_le Suc_le_eq split: option.split)

lemma counts_acquired:
  assumes "counts l guards" and "try_acquire l creds p = (l', Some g)" and "size guards + 1 < 2 ^ 32"
  shows "counts l' (add_mset g guards)"
proof -
  from assms(2) obtain entry where entry: "li_clients l creds = Some entry"
    and room: "\<not> exceeds (slot_count entry (is_h3 p)) (slot_limit l entry (is_h3 p))"
    and l': "l' = l\<lparr>li_clients := (li_clients l)
      (creds \<mapsto> set_count entry (is_h3 p) (slot_count entry (is_h3 p) + 1))\<rparr>"
    and g: "g = \<lparr>gd_creds = creds, gd_protocol = p\<rparr>"
    by (auto simp: try_acquire_eq split: option.splits if_splits)
  from assms(1) entry have now: "unat (slot_count entry h3) = slots guards creds h3"
    and lim: "within (slots guards creds h3) (slot_limit l entry h3)" for h3
    unfolding counts_def by blast+
  have "slots guards creds (is_h3 p) + 1 < 2 ^ 32"
    using slots_le [of guards creds "is_h3 p"] assms(3) by linarith
  then have "unat (slot_count entry (is_h3 p) + 1) = slots guards creds (is_h3 p) + 1"
    by (simp add: unat_word_ariths now)
  moreover have "within (slots guards creds (is_h3 p) + 1) (slot_limit l entry (is_h3 p))"
    using room now [of "is_h3 p"] by (simp add: not_exceeds)
  ultimately show ?thesis
    using assms(1,3) now lim unfolding counts_def l' g
    by (auto split: if_splits)
qed

lemma counts_dropped:
  assumes "counts l guards" and "g \<in># guards"
  shows "counts (drop_guard l g) (guards - {#g#})"
proof -
  from assms obtain entry where entry: "li_clients l (gd_creds g) = Some entry"
    unfolding counts_def by blast
  let ?h = "is_h3 (gd_protocol g)"
  from assms(1) entry have now: "unat (slot_count entry h3) = slots guards (gd_creds g) h3"
    and lim: "within (slots guards (gd_creds g) h3) (slot_limit l entry h3)" for h3
    unfolding counts_def by blast+
  have "unat (saturating_dec (slot_count entry ?h)) = slots guards (gd_creds g) ?h - 1"
    using slots_pos [OF assms(2)] now [of ?h]
    by (auto simp: saturating_dec_def unat_minus_one)
  with assms now entry within_mono [OF lim [of ?h], of "slots guards (gd_creds g) ?h - 1"] show ?thesis
    unfolding counts_def drop_guard_eq
    by (auto simp: slots_remove size_Diff_singleton dest: in_diffD split: if_splits)
qed

lemma counts_new: "counts (limiter_new base64 clients d2 d3) {#}"
proof -
  have "slot_count entry h3 = 0" if "li_clients (limiter_new base64 clients d2 d3) creds = Some entry" for creds entry h3
    using that by (auto simp: limiter_new_def slot_count_def dest!: collect_map_eq_Some)
  then show ?thesis by (auto simp: counts_def slots_def within_def split: option.splits)
qed

lemma limiter_run_counts:
  assumes "counts l0 {#}" and "limiter_run l0 l guards"
  shows "counts l guards"
proof -
  have "counts (fst t) (snd t)" if "limiter_step\<^sup>*\<^sup>* (l0, {#}) t" for t
    using that
  proof (induction rule: rtranclp_induct)
    case base
    then show ?case using assms(1) by simp
  next
    case (step s t)
    from step.hyps(2) step.IH show ?case
    proof (cases rule: limiter_step.cases)
      case (acquired l creds p l' g guards)
      with step.IH counts_acquired show ?thesis by simp
    next
      case (refused l creds p l' guards)
      then have "l' = l" by (auto simp: try_acquire_eq split: option.splits if_splits)
      with refused step.IH show ?thesis by simp
    next
      case (dropped g guards l)
      with step.IH counts_dropped show ?thesis by simp
    qed
  qed
  from this [of "(l, guards)"] assms(2) show ?thesis by (simp add: limiter_run_def)
qed

section \<open>Properties\<close>

text \<open>
  C3: the limiter refines a multiset of live guards. In every run from the start, a client's counters
  are the numbers of its live HTTP/1+2 and HTTP/3 guards, they never exceed the client's limit
  (its own, or the default), and the limiter grants a slot exactly to a known client that is below it.
\<close>

theorem connection_limits_hold:
  assumes "limiter_run (limiter_new base64 clients d2 d3) l guards" and "li_clients l creds = Some entry"
  shows "unat (slot_count entry h3) = slots guards creds h3 \<and>
    (\<forall>m. slot_limit l entry h3 = Some m \<longrightarrow> slots guards creds h3 \<le> unat m) \<and>
    (is_h3 p = h3 \<longrightarrow>
      (snd (try_acquire l creds p) \<noteq> None \<longleftrightarrow>
        (\<forall>m. slot_limit l entry h3 = Some m \<longrightarrow> slots guards creds h3 < unat m)))"
proof -
  have c: "counts l guards" using limiter_run_counts counts_new assms(1) by blast
  with assms(2) have now: "unat (slot_count entry h3) = slots guards creds h3"
    and lim: "within (slots guards creds h3) (slot_limit l entry h3)"
    unfolding counts_def by blast+
  have "exceeds (slot_count entry h3) (slot_limit l entry h3) \<longleftrightarrow>
      (\<exists>m. slot_limit l entry h3 = Some m \<and> unat m \<le> slots guards creds h3)"
    using now by (auto simp: exceeds_def word_le_nat_alt split: option.splits)
  then show ?thesis
    using now lim assms(2) by (auto simp: try_acquire_eq within_def not_le split: option.splits)
qed

theorem connection_limits_hold_witness:
  "let l0 = limiter_new id [\<lparr>cl_username = ''u'', cl_password = ''p'', cl_max_http2_conns = Some 1,
         cl_max_http3_conns = None\<rparr>] None None;
       l1 = fst (try_acquire l0 ''u:p'' Http1)
   in limiter_run l0 l1 {#\<lparr>gd_creds = ''u:p'', gd_protocol = Http1\<rparr>#} \<and>
      snd (try_acquire l1 ''u:p'' Http2) = None"
proof -
  let ?l0 = "limiter_new id [\<lparr>cl_username = ''u'', cl_password = ''p'', cl_max_http2_conns = Some 1,
         cl_max_http3_conns = None\<rparr>] None None"
  let ?l1 = "fst (try_acquire ?l0 ''u:p'' Http1)"
  let ?g = "\<lparr>gd_creds = ''u:p'', gd_protocol = Http1\<rparr>"
  let ?e = "\<lparr>ce_max_http2 = Some 1, ce_max_http3 = None, ce_http2_count = 1, ce_http3_count = 0\<rparr>"
  have acq: "try_acquire ?l0 ''u:p'' Http1 = (?l1, Some ?g)"
    by (simp add: limiter_new_def collect_map_def credentials_def try_acquire_def exceeds_def)
  then have run: "limiter_run ?l0 ?l1 {#?g#}"
    using limiter_step.acquired [OF acq, of "{#}"] by (auto simp: limiter_run_def)
  have e: "li_clients ?l1 ''u:p'' = Some ?e"
    by (simp add: limiter_new_def collect_map_def credentials_def try_acquire_def exceeds_def)
  have lim: "slot_limit ?l1 ?e False = Some 1" by (simp add: slot_limit_def)
  from connection_limits_hold [OF run e, of False Http2] lim
  have "snd (try_acquire ?l1 ''u:p'' Http2) = None" by (simp add: is_h3_def slots_def)
  with run show ?thesis by (simp add: Let_def)
qed

end
