(* ===== verification/Endpoint.thy ===== *)
theory Endpoint
  imports Metrics Connection_Limiter Log_Utils Pipe
begin

text \<open>
  The endpoint core, \<^verbatim>\<open>lib/src/core.rs\<close>, and the request loop of a tunnel, \<^verbatim>\<open>lib/src/tunnel.rs\<close>: how
  filtering rules, the TLS demultiplexer, authentication, the connection limiter and the metrics are
  composed when a connection arrives and when a request arrives on a tunnel. What the code takes from
  the outside (files, key parsing, hash map order, base64, certificate checks, TLS acceptance) is the
  record \<open>core_env\<close>.
\<close>

section \<open>Context\<close>

record fatal_io_error =
  fe_kind :: io_error_kind
  fe_raw_os_error :: "int option"
  fe_message :: string

definition EMFILE :: int where "EMFILE = 24"
definition ENFILE :: int where "ENFILE = 23"

definition from_io_error :: "os_error \<Rightarrow> fatal_io_error" where
  "from_io_error e = (case e of (IoError kind message, raw) \<Rightarrow>
     \<lparr>fe_kind = kind, fe_raw_os_error = raw, fe_message = message\<rparr>)"

definition show_int :: "int \<Rightarrow> string" where
  "show_int i = (if i < 0 then ''-'' @ show_nat (nat (- i)) else show_nat (nat i))"

definition into_io_error :: "fatal_io_error \<Rightarrow> io_error" where
  "into_io_error self = (case fe_raw_os_error self of
     Some code \<Rightarrow> IoError (fe_kind self) (fe_message self @ '' (os error '' @ show_int code @ '')'')
   | None \<Rightarrow> IoError (fe_kind self) (fe_message self))"

definition is_too_many_open_files_error :: "os_error \<Rightarrow> bool" where
  "is_too_many_open_files_error e \<longleftrightarrow> snd e = Some EMFILE \<or> snd e = Some ENFILE"

record ('c, 'k, 'b) endpoint_context =
  cx_settings :: settings
  cx_authenticator :: "registry option"
  cx_subscription :: "subscription_config option"
  cx_tls_demux :: "('c, 'k, 'b) tls_demux"
  cx_icmp_forwarder :: bool
  cx_fatal_error :: "fatal_io_error option"
  cx_metrics :: metrics
  cx_next_client_id :: u64
  cx_next_tunnel_id :: u64
  cx_connection_limiter :: "connection_limiter option"

datatype core_error =
    SettingsValidation validation_error
  | TlsDemultiplexerError string
  | MetricsError string

record ('c, 'k, 'b) core_env =
  ev_load_certs :: "string \<Rightarrow> (io_error, 'c) result"
  ev_load_private_key :: "string \<Rightarrow> (io_error, 'k) result"
  ev_boring_identity :: "'c \<Rightarrow> 'k \<Rightarrow> (io_error, 'b) result"
  ev_map_iter :: "(string \<rightharpoonup> ('c, 'k, 'b) host) \<Rightarrow> (string \<times> ('c, 'k, 'b) host) list"
  ev_hex_decode :: "string \<Rightarrow> bytes option"
  ev_verifier :: "(string \<Rightarrow> string \<Rightarrow> bool) option"
  ev_read_to_string :: "string \<Rightarrow> (string, string) result"
  ev_base64 :: "string \<Rightarrow> string"
  ev_base64_decode :: "string \<Rightarrow> bytes option"
  ev_rules :: rule_env
  ev_register_metrics :: "(io_error, unit) result"

definition report_fatal_io_error :: "os_error \<Rightarrow> ('c, 'k, 'b) endpoint_context \<Rightarrow> ('c, 'k, 'b) endpoint_context" where
  "report_fatal_io_error e self = self\<lparr>cx_fatal_error := Some (from_io_error e)\<rparr>"

definition env_entry :: "('c, 'k, 'b) core_env \<Rightarrow> tls_host_info \<Rightarrow> (io_error, string \<times> ('c, 'k, 'b) host) result" where
  "env_entry env = make_entry (ev_load_certs env) (ev_load_private_key env) (ev_boring_identity env)"

definition env_resolve ::
  "('c, 'k, 'b) core_env \<Rightarrow> subscription_settings \<Rightarrow> settings \<Rightarrow> tls_hosts_settings
   \<Rightarrow> (validation_error, subscription_config) result" where
  "env_resolve env = resolve (ev_hex_decode env) (ev_verifier env) (ev_read_to_string env)"

text \<open>The validation only looks at whether the files load.\<close>

definition check_load :: "('x \<Rightarrow> (io_error, 'y) result) \<Rightarrow> 'x \<Rightarrow> (string, unit) result" where
  "check_load load path = (case load path of Inl e \<Rightarrow> Err (io_error_display e) | Inr _ \<Rightarrow> Ok ())"

definition needs_limiter :: "settings \<Rightarrow> bool" where
  "needs_limiter settings \<longleftrightarrow>
    se_default_max_http2_conns_per_client settings \<noteq> None \<or>
    se_default_max_http3_conns_per_client settings \<noteq> None \<or>
    list_ex (\<lambda>c. cl_max_http2_conns c \<noteq> None \<or> cl_max_http3_conns c \<noteq> None) (se_clients settings)"

definition core_new ::
  "('c, 'k, 'b) core_env \<Rightarrow> settings \<Rightarrow> registry option \<Rightarrow> tls_hosts_settings
   \<Rightarrow> (core_error, ('c, 'k, 'b) endpoint_context) result" where
  "core_new env settings auth_registry tls_hosts_settings =
    rbind (if \<not> se_built settings then map_err SettingsValidation (settings_validate settings) else Ok ()) (\<lambda>_.
    rbind (if \<not> ts_built tls_hosts_settings
           then map_err SettingsValidation
             (tls_hosts_validate (check_load (ev_load_certs env)) (check_load (ev_load_private_key env)) tls_hosts_settings)
           else Ok ()) (\<lambda>_.
    let connection_limiter = (if needs_limiter settings
          then Some (limiter_new (ev_base64 env) (se_clients settings)
            (se_default_max_http2_conns_per_client settings) (se_default_max_http3_conns_per_client settings))
          else None)
    in
    rbind (case se_subscription settings of
             Some sub \<Rightarrow> map_err SettingsValidation
               (rbind (env_resolve env sub settings tls_hosts_settings) (\<lambda>c. Ok (Some c)))
           | None \<Rightarrow> Ok None) (\<lambda>subscription.
    let per_client_metrics = (case se_metrics settings of Some m \<Rightarrow> ms_per_client_metrics m | None \<Rightarrow> False)
    in
    rbind (map_err (\<lambda>e. TlsDemultiplexerError (io_error_display e))
             (tls_demux_new (ev_map_iter env) (env_entry env) settings tls_hosts_settings)) (\<lambda>tls_demux.
    rbind (map_err (\<lambda>e. MetricsError (io_error_display e)) (ev_register_metrics env)) (\<lambda>_.
    Ok \<lparr>cx_settings = settings, cx_authenticator = auth_registry, cx_subscription = subscription,
        cx_tls_demux = tls_demux, cx_icmp_forwarder = (se_icmp settings \<noteq> None), cx_fatal_error = None,
        cx_metrics = metrics_new per_client_metrics, cx_next_client_id = 0, cx_next_tunnel_id = 0,
        cx_connection_limiter = connection_limiter\<rparr>)))))"

definition reload_tls_hosts_settings ::
  "('c, 'k, 'b) core_env \<Rightarrow> tls_hosts_settings \<Rightarrow> ('c, 'k, 'b) endpoint_context
   \<Rightarrow> ('c, 'k, 'b) endpoint_context \<times> (io_error, unit) result" where
  "reload_tls_hosts_settings env settings self =
    (case rbind (if \<not> ts_built settings
                 then map_err (\<lambda>e. IoError Other (''Settings validation failure: '' @ validation_error_debug e))
                   (tls_hosts_validate (check_load (ev_load_certs env)) (check_load (ev_load_private_key env)) settings)
                 else Ok ())
            (\<lambda>_. tls_demux_new (ev_map_iter env) (env_entry env) (cx_settings self) settings) of
       Inl e \<Rightarrow> (self, Err e)
     | Inr demux \<Rightarrow> (self\<lparr>cx_tls_demux := demux\<rparr>, Ok ()))"

section \<open>Tunnels\<close>

datatype authentication_policy = PolicyDefault | PolicyAuthenticated auth_source

record tunnel =
  tu_policy :: authentication_policy
  tu_connection_guard :: "connection_guard option"
  tu_session :: sessions_counter
  tu_protocol :: tls_protocol
  tu_id :: id_chain

text \<open>\<open>decode_username\<close>: the text up to the first colon.\<close>

definition decode_username :: "(string \<Rightarrow> bytes option) \<Rightarrow> string \<Rightarrow> string option" where
  "decode_username base64_decode creds =
    (case base64_decode creds of
       None \<Rightarrow> None
     | Some v \<Rightarrow>
         (case from_utf8 v of
            Inl _ \<Rightarrow> None
          | Inr s \<Rightarrow> Some (case split_once (CHR '':'') s of Some (a, _) \<Rightarrow> a | None \<Rightarrow> s)))"

definition resolve_username ::
  "(string \<Rightarrow> bytes option) \<Rightarrow> registry option \<Rightarrow> authentication_policy \<Rightarrow> (io_error, auth_source option) result
   \<Rightarrow> string option" where
  "resolve_username base64_decode auth_registry policy info =
    (case policy of
       PolicyAuthenticated source \<Rightarrow>
         (case auth_registry of None \<Rightarrow> None | Some a \<Rightarrow> auth_username a source)
     | PolicyDefault \<Rightarrow>
         (case info of
            Inr (Some source) \<Rightarrow> decode_username base64_decode (source_creds source)
          | _ \<Rightarrow> None))"

text \<open>The closure \<open>update_metrics\<close> of the request loop.\<close>

definition update_metrics ::
  "tls_protocol \<Rightarrow> string option \<Rightarrow> simplex_direction \<Rightarrow> nat \<Rightarrow> metrics \<Rightarrow> metrics" where
  "update_metrics protocol username direction n m =
    (case direction of
       Incoming \<Rightarrow> add_inbound_bytes protocol username n m
     | Outgoing \<Rightarrow> add_outbound_bytes protocol username n m)"

text \<open>\<open>on_tunnel_request\<close> up to the start of the tunnel: the session counter is created first, so a
  refused connection drops it again.\<close>

definition acquire ::
  "connection_limiter option \<Rightarrow> string \<Rightarrow> tls_protocol \<Rightarrow> connection_limiter option \<times> connection_guard option" where
  "acquire limiter creds protocol =
    (case limiter of
       None \<Rightarrow> (None, None)
     | Some l \<Rightarrow> (case try_acquire l creds protocol of (l', g) \<Rightarrow> (Some l', g)))"

definition on_tunnel_request ::
  "tls_protocol \<Rightarrow> string option \<Rightarrow> id_chain \<Rightarrow> ('c, 'k, 'b) endpoint_context
   \<Rightarrow> ('c, 'k, 'b) endpoint_context \<times> tunnel option" where
  "on_tunnel_request protocol sni_auth_creds tunnel_id context =
    (let username_for_counter =
           (case (cx_authenticator context, sni_auth_creds) of
              (Some auth_registry, Some creds) \<Rightarrow> auth_username auth_registry (Sni creds)
            | _ \<Rightarrow> None);
         (metrics, session) = client_sessions_counter protocol (id_chain_display tunnel_id) username_for_counter
           (cx_metrics context);
         started = context\<lparr>cx_metrics := metrics\<rparr>;
         refused = started\<lparr>cx_metrics := drop_sessions_counter session metrics\<rparr>;
         new = (\<lambda>policy guard. \<lparr>tu_policy = policy, tu_connection_guard = guard, tu_session = session,
           tu_protocol = protocol, tu_id = tunnel_id\<rparr>)
     in case (cx_authenticator context, sni_auth_creds) of
          (Some auth_registry, Some creds) \<Rightarrow>
            (let auth = Sni creds
             in case authenticate auth_registry auth of
                  Pass \<Rightarrow>
                    (let (limiter, guard) = acquire (cx_connection_limiter context) (source_creds auth) protocol
                     in if cx_connection_limiter context \<noteq> None \<and> guard = None
                        then (refused\<lparr>cx_connection_limiter := limiter\<rparr>, None)
                        else (started\<lparr>cx_connection_limiter := limiter\<rparr>,
                              Some (new (PolicyAuthenticated auth) guard)))
                | Reject \<Rightarrow> (refused, None))
        | _ \<Rightarrow> (started, Some (new PolicyDefault None)))"

section \<open>Requests on a tunnel\<close>

text \<open>The authentication of one request in its task: the source that is passed on to the forwarder, or
  the error the request fails with.\<close>

definition forwarder_auth ::
  "registry option \<Rightarrow> authentication_policy \<Rightarrow> (io_error, auth_source option) result
   \<Rightarrow> (connection_error, auth_source option) result" where
  "forwarder_auth auth_registry policy info =
    (case info of
       Inl (IoError kind message) \<Rightarrow> Err (CeIo (IoError kind message))
     | Inr (Some source) \<Rightarrow>
         (case auth_registry of
            Some a \<Rightarrow>
              (case authenticate a source of
                 Pass \<Rightarrow> Ok (Some source)
               | Reject \<Rightarrow> Err (CeAuthentication ''Authentication failed''))
          | None \<Rightarrow> Ok (Some source))
     | Inr None \<Rightarrow>
         (case (policy, auth_registry) of
            (PolicyAuthenticated x, _) \<Rightarrow> Ok (Some x)
          | (PolicyDefault, None) \<Rightarrow> Ok None
          | (PolicyDefault, Some _) \<Rightarrow>
              Err (CeAuthentication ''Got request without authentication info on non-authenticated connection'')))"

text \<open>The lazy acquisition of a connection slot, before the request's task is spawned. An error closes
  the tunnel.\<close>

definition acquire_slot ::
  "(io_error, auth_source option) result \<Rightarrow> ('c, 'k, 'b) endpoint_context \<Rightarrow> tunnel
   \<Rightarrow> ('c, 'k, 'b) endpoint_context \<times> (connection_error \<times> io_error, tunnel) result" where
  "acquire_slot info context self =
    (case (tu_connection_guard self, cx_connection_limiter context, info) of
       (None, Some limiter, Inr (Some source)) \<Rightarrow>
         (let authenticated = (case cx_authenticator context of
                Some a \<Rightarrow> authenticate a source = Pass | None \<Rightarrow> False)
          in if authenticated
             then (case try_acquire limiter (source_creds source) (tu_protocol self) of
                     (limiter', Some guard) \<Rightarrow>
                       (context\<lparr>cx_connection_limiter := Some limiter'\<rparr>, Ok (self\<lparr>tu_connection_guard := Some guard\<rparr>))
                   | (limiter', None) \<Rightarrow>
                       (context\<lparr>cx_connection_limiter := Some limiter'\<rparr>,
                        Err (CeAuthentication ''Connection limit exceeded'',
                             IoError PermissionDenied ''Connection limit exceeded'')))
             else (context, Ok self))
     | _ \<Rightarrow> (context, Ok self))"

text \<open>The task of a request up to its promotion: a failed request and its response, or the promoted
  request with the source for the forwarder; an accepted request relabels the session.\<close>

datatype request_task =
    TaskFailed response_headers
  | TaskPromoted promoted "auth_source option"

definition request_task ::
  "(string \<Rightarrow> bytes option) \<Rightarrow> (io_error, auth_source option) result \<Rightarrow> pending_request \<Rightarrow> tunnel
   \<Rightarrow> ('c, 'k, 'b) endpoint_context \<Rightarrow> ('c, 'k, 'b) endpoint_context \<times> request_task" where
  "request_task base64_decode info request self context =
    (case forwarder_auth (cx_authenticator context) (tu_policy self) info of
       Inl e \<Rightarrow> (context, TaskFailed (fail_request_with_error request e))
     | Inr auth \<Rightarrow>
         (let context = (case info of
                Inr (Some source) \<Rightarrow>
                  (case decode_username base64_decode (source_creds source) of
                     Some u \<Rightarrow> context\<lparr>cx_metrics := transfer_session_username (tu_protocol self)
                       (id_chain_display (tu_id self)) (Some u) (cx_metrics context)\<rparr>
                   | None \<Rightarrow> context)
              | _ \<Rightarrow> context)
          in (context, TaskPromoted (promote_request request) auth)))"

text \<open>\<open>listen_inner\<close> over the events of the downstream (a timeout is \<open>None\<close>): the tasks of the requests
  in order, and the result; an exhausted list of events is a wait.\<close>

fun tunnel_listen ::
  "(string \<Rightarrow> bytes option) \<Rightarrow> (request_headers \<Rightarrow> string) \<Rightarrow> (io_error, pending_request option) result option list
   \<Rightarrow> ('c, 'k, 'b) endpoint_context \<Rightarrow> tunnel
   \<Rightarrow> ('c, 'k, 'b) endpoint_context \<times> tunnel \<times> (pending_request \<times> request_task) list \<times> (io_error, unit) result poll" where
  "tunnel_listen dec scrub [] context self = (context, self, [], Pending)"
| "tunnel_listen dec scrub (None # events) context self =
    (context, self, [], Ready (Err (IoError TimedOut [])))"
| "tunnel_listen dec scrub (Some (Inr None) # events) context self = (context, self, [], Ready (Ok ()))"
| "tunnel_listen dec scrub (Some (Inl (IoError kind message)) # events) context self =
    (context, self, [], Ready (if kind = UnexpectedEof then Ok () else Err (IoError kind message)))"
| "tunnel_listen dec scrub (Some (Inr (Some request)) # events) context self =
    (let info = auth_info scrub (pr_request request)
     in case acquire_slot info context self of
          (context, Inl (e, io)) \<Rightarrow> (context, self, [(request, TaskFailed (fail_request_with_error request e))], Ready (Err io))
        | (context, Inr self) \<Rightarrow>
            (let (context, task) = request_task dec info request self context;
                 (context, self, tasks, r) = tunnel_listen dec scrub events context self
             in (context, self, (request, task) # tasks, r)))"

text \<open>The end of a tunnel: its guards are dropped.\<close>

definition drop_tunnel :: "tunnel \<Rightarrow> ('c, 'k, 'b) endpoint_context \<Rightarrow> ('c, 'k, 'b) endpoint_context" where
  "drop_tunnel self context =
    context\<lparr>cx_metrics := drop_sessions_counter (tu_session self) (cx_metrics context),
      cx_connection_limiter := (case (cx_connection_limiter context, tu_connection_guard self) of
        (Some l, Some g) \<Rightarrow> Some (drop_guard l g) | (l, _) \<Rightarrow> l)\<rparr>"


section \<open>New connections\<close>

text \<open>What the core does with an accepted connection.\<close>

datatype ('c, 'k, 'b) dispatched =
    DispatchTunnel "tunnel option"
  | DispatchPing tls_protocol
  | DispatchSpeedtest tls_protocol
  | DispatchReverseProxy tls_protocol string

text \<open>\<open>make_tcp_http_codec\<close>: HTTP/3 is unreachable; the HTTP/2 codec can fail.\<close>

definition make_tcp_http_codec :: "(io_error, unit) result \<Rightarrow> tls_protocol \<Rightarrow> (io_error, unit) result outcome" where
  "make_tcp_http_codec http2_new protocol =
    (case protocol of Http1 \<Rightarrow> Ret (Ok ()) | Http2 \<Rightarrow> Ret http2_new | Http3 \<Rightarrow> Panic)"

definition codec_failure :: "io_error \<Rightarrow> string" where
  "codec_failure e = ''Failed to create HTTP codec: '' @ io_error_display e"

definition dispatch_tls ::
  "(io_error, unit) result \<Rightarrow> ip_addr \<Rightarrow> id_chain \<Rightarrow> ('c, 'k, 'b) connection_meta
   \<Rightarrow> ('c, 'k, 'b) endpoint_context
   \<Rightarrow> (('c, 'k, 'b) endpoint_context \<times> (string, ('c, 'k, 'b) dispatched) result) outcome" where
  "dispatch_tls http2_new client_ip client_id meta context =
    (case cm_channel meta of
       Tunnel \<Rightarrow>
         (let tunnel_id = extended client_id (TUNNEL_ID_FMT, cx_next_tunnel_id context);
              conn_key = id_chain_display tunnel_id;
              context = context\<lparr>cx_next_tunnel_id := cx_next_tunnel_id context + 1,
                cx_metrics := register_connection conn_key (Some client_ip) (cx_metrics context)\<rparr>
          in obind (make_tcp_http_codec http2_new (cm_protocol meta)) (\<lambda>codec.
             case codec of
               Inl e \<Rightarrow> Ret (context\<lparr>cx_metrics := unregister_connection conn_key (cx_metrics context)\<rparr>, Err (codec_failure e))
             | Inr _ \<Rightarrow>
                 (case on_tunnel_request (cm_protocol meta) (cm_sni_auth_creds meta) tunnel_id context of
                    (context, t) \<Rightarrow> Ret (context, Ok (DispatchTunnel t)))))
     | Subscription \<Rightarrow> Panic
     | channel \<Rightarrow>
         obind (make_tcp_http_codec http2_new (cm_protocol meta)) (\<lambda>codec.
         Ret (context, (case codec of
           Inl e \<Rightarrow> Err (codec_failure e)
         | Inr _ \<Rightarrow> Ok (case channel of
             Ping \<Rightarrow> DispatchPing (cm_protocol meta)
           | Speedtest \<Rightarrow> DispatchSpeedtest (cm_protocol meta)
           | _ \<Rightarrow> DispatchReverseProxy (cm_protocol meta) (cm_sni meta))))))"

text \<open>\<open>on_new_tls_connection\<close>; the client hello is the server name, the protocols and the client random,
  and \<open>accept\<close> is the outcome of the handshake (\<open>None\<close> for a timeout).\<close>

definition on_new_tls_connection ::
  "('c, 'k, 'b) core_env \<Rightarrow> (io_error, unit) result option \<Rightarrow> (io_error, unit) result \<Rightarrow> string option \<Rightarrow> bytes list
   \<Rightarrow> bytes option \<Rightarrow> ip_addr \<Rightarrow> id_chain \<Rightarrow> ('c, 'k, 'b) endpoint_context
   \<Rightarrow> (('c, 'k, 'b) endpoint_context \<times> (string, ('c, 'k, 'b) dispatched) result) outcome" where
  "on_new_tls_connection env accept http2_new sni alpn client_random client_ip client_id context =
    (case sni of
       None \<Rightarrow> Ret (context, Err ''Drop TLS connection due to absence of SNI'')
     | Some sni \<Rightarrow>
         (case evaluate_connection_rules (ev_rules env) (se_rules_engine (cx_settings context))
                 (Some client_ip) client_random (Some sni) of
            Inl deny_reason \<Rightarrow> Ret (context, Err deny_reason)
          | Inr _ \<Rightarrow>
              obind (tls_select (cx_tls_demux context) alpn sni) (\<lambda>selected.
              case selected of
                Inl e \<Rightarrow> Ret (context, Err (''Dropping connection due to error: '' @ e))
              | Inr meta \<Rightarrow>
                  if cm_protocol meta = Http3
                  then Ret (context, Err (''Dropping connection due to unexpected protocol: '' @ connection_meta_debug meta))
                  else
                    (case accept of
                       None \<Rightarrow> Ret (context, Err ''TLS connection failed: handshake timed out'')
                     | Some (Inl e) \<Rightarrow> Ret (context, Err (''TLS connection failed: '' @ io_error_display e))
                     | Some (Inr _) \<Rightarrow> dispatch_tls http2_new client_ip client_id meta context))))"

text \<open>\<open>on_new_quic_connection\<close>: the metadata was selected by the QUIC multiplexer.\<close>

definition on_new_quic_connection ::
  "('c, 'k, 'b) core_env \<Rightarrow> ip_addr option \<Rightarrow> bytes \<Rightarrow> ('c, 'k, 'b) connection_meta \<Rightarrow> id_chain
   \<Rightarrow> ('c, 'k, 'b) endpoint_context
   \<Rightarrow> (('c, 'k, 'b) endpoint_context \<times> (string, ('c, 'k, 'b) dispatched) result) outcome" where
  "on_new_quic_connection env peer_ip client_random meta client_id context =
    (let client_ip = map_option unmap_ipv6 peer_ip
     in case evaluate_connection_rules (ev_rules env) (se_rules_engine (cx_settings context))
               client_ip (Some client_random) (Some (cm_sni meta)) of
          Inl deny_reason \<Rightarrow> Ret (context, Err deny_reason)
        | Inr _ \<Rightarrow>
            (case cm_channel meta of
               Tunnel \<Rightarrow>
                 (let tunnel_id = extended client_id (TUNNEL_ID_FMT, cx_next_tunnel_id context);
                      context = context\<lparr>cx_next_tunnel_id := cx_next_tunnel_id context + 1,
                        cx_metrics := register_connection (id_chain_display tunnel_id) client_ip (cx_metrics context)\<rparr>
                  in case on_tunnel_request (cm_protocol meta) (cm_sni_auth_creds meta) tunnel_id context of
                       (context, t) \<Rightarrow> Ret (context, Ok (DispatchTunnel t)))
             | Ping \<Rightarrow> Ret (context, Ok (DispatchPing (cm_protocol meta)))
             | Speedtest \<Rightarrow> Ret (context, Ok (DispatchSpeedtest (cm_protocol meta)))
             | ReverseProxy \<Rightarrow> Ret (context, Ok (DispatchReverseProxy (cm_protocol meta) (cm_sni meta)))
             | Subscription \<Rightarrow> Panic))"


section \<open>Lemmas\<close>

definition policy_ok :: "registry \<Rightarrow> authentication_policy \<Rightarrow> bool" where
  "policy_ok reg policy = (case policy of PolicyAuthenticated x \<Rightarrow> authenticate reg x = Pass | PolicyDefault \<Rightarrow> True)"

lemma forwarder_auth_sound:
  assumes "forwarder_auth (Some reg) policy info = Inr auth" "policy_ok reg policy"
  shows "\<exists>src. auth = Some src \<and> authenticate reg src = Pass"
  using assms
  by (auto simp: forwarder_auth_def policy_ok_def split: sum.splits option.splits auth_status.splits
      authentication_policy.splits io_error.splits)

lemma acquire_slot_keeps:
  assumes "acquire_slot info cx t = (cx', r)"
  shows "cx_authenticator cx' = cx_authenticator cx \<and> cx_settings cx' = cx_settings cx \<and>
    cx_metrics cx' = cx_metrics cx \<and> (cx_connection_limiter cx' = None \<longleftrightarrow> cx_connection_limiter cx = None) \<and>
    (\<forall>t'. r = Inr t' \<longrightarrow> tu_policy t' = tu_policy t \<and> tu_protocol t' = tu_protocol t \<and> tu_id t' = tu_id t
      \<and> tu_session t' = tu_session t \<and> (tu_connection_guard t \<noteq> None \<longrightarrow> t' = t))"
  using assms
  by (auto simp: acquire_slot_def Let_def split: option.splits sum.splits if_splits prod.splits)

lemma request_task_keeps:
  "request_task dec info request t cx = (cx', task) \<Longrightarrow>
    cx_authenticator cx' = cx_authenticator cx \<and> cx_settings cx' = cx_settings cx \<and>
    cx_connection_limiter cx' = cx_connection_limiter cx"
  by (auto simp: request_task_def Let_def split: option.splits sum.splits)

lemma request_task_promoted:
  "request_task dec info request t cx = (cx', TaskPromoted k auth) \<Longrightarrow>
    forwarder_auth (cx_authenticator cx) (tu_policy t) info = Inr auth"
  by (auto simp: request_task_def Let_def split: option.splits sum.splits)

text \<open>A property of the tasks of a tunnel: it holds of every task if it holds of one under an
  invariant of the context and the tunnel.\<close>

lemma tunnel_listen_request:
  assumes "acquire_slot (auth_info scrub (pr_request req)) cx t = (cx1, Inr t1)"
    and "request_task dec (auth_info scrub (pr_request req)) req t1 cx1 = (cx2, tk)"
    and "tunnel_listen dec scrub events cx2 t1 = (cx3, t3, tks, r)"
  shows "tunnel_listen dec scrub (Some (Inr (Some req)) # events) cx t = (cx3, t3, (req, tk) # tks, r)"
  using assms by (simp add: Let_def)

lemma tunnel_listen_refused:
  assumes "acquire_slot (auth_info scrub (pr_request req)) cx t = (cx1, Inl (e, io))"
  shows "tunnel_listen dec scrub (Some (Inr (Some req)) # events) cx t =
    (cx1, t, [(req, TaskFailed (fail_request_with_error req e))], Ready (Inl io))"
  using assms by (simp add: Let_def)

lemma tunnel_listen_stop:
  assumes "\<And>req. ev \<noteq> Some (Inr (Some req))"
  shows "\<exists>r. tunnel_listen dec scrub (ev # events) cx t = (cx, t, [], r)"
proof (cases ev)
  case (Some x)
  then show ?thesis
  proof (cases x)
    case (Inl e)
    with Some show ?thesis by (cases e) simp
  next
    case (Inr o')
    with Some assms show ?thesis by (cases o') auto
  qed
qed simp

lemma tunnel_listen_invariant:
  assumes "tunnel_listen dec scrub events cx t = (cx', t', tasks, r)" "I cx t"
    and slot: "\<And>cx t info cx' t'. I cx t \<Longrightarrow> acquire_slot info cx t = (cx', Inr t') \<Longrightarrow> I cx' t'"
    and task: "\<And>cx t info request cx' task. I cx t \<Longrightarrow> request_task dec info request t cx = (cx', task) \<Longrightarrow> I cx' t"
    and ok: "\<And>cx t info request cx' k auth. I cx t
      \<Longrightarrow> request_task dec info request t cx = (cx', TaskPromoted k auth) \<Longrightarrow> P auth"
    and "(request, TaskPromoted k auth) \<in> set tasks"
  shows "P auth"
  using assms(1,2,6)
proof (induction events arbitrary: cx t cx' t' tasks r)
  case (Cons ev events)
  show ?case
  proof (cases "\<exists>req. ev = Some (Inr (Some req))")
    case False
    then have "tasks = []" using tunnel_listen_stop [of ev dec scrub events cx t] Cons.prems(1) by auto
    then show ?thesis using Cons.prems(3) by simp
  next
    case True
    then obtain req where ev: "ev = Some (Inr (Some req))" by blast
    obtain cx1 res where res: "acquire_slot (auth_info scrub (pr_request req)) cx t = (cx1, res)" by fastforce
    show ?thesis
    proof (cases res)
      case (Inl e)
      then have "tasks = [(req, TaskFailed (fail_request_with_error req (fst e)))]"
        using Cons.prems(1) tunnel_listen_refused [of scrub req cx t cx1 "fst e" "snd e"] res ev by simp
      then show ?thesis using Cons.prems(3) by simp
    next
      case (Inr t1)
      obtain cx2 tk where tk: "request_task dec (auth_info scrub (pr_request req)) req t1 cx1 = (cx2, tk)"
        by fastforce
      obtain cx3 t3 tks r3 where rest: "tunnel_listen dec scrub events cx2 t1 = (cx3, t3, tks, r3)"
        by (metis prod.exhaust)
      have inv1: "I cx1 t1" using slot Cons.prems(2) res Inr by blast
      have "tasks = (req, tk) # tks"
        using Cons.prems(1) tunnel_listen_request [OF res [unfolded Inr] tk rest] ev by simp
      then consider "tk = TaskPromoted k auth" | "(request, TaskPromoted k auth) \<in> set tks"
        using Cons.prems(3) by auto
      then show ?thesis
      proof cases
        case 1
        then show ?thesis using ok inv1 tk by blast
      next
        case 2
        then show ?thesis using Cons.IH [OF rest] task [OF inv1 tk] by blast
      qed
    qed
  qed
qed simp


lemma on_tunnel_request_started:
  assumes "on_tunnel_request p creds tid cx = (cx', Some t)" "cx_authenticator cx = Some reg"
  shows "cx_authenticator cx' = Some reg \<and> policy_ok reg (tu_policy t) \<and> tu_protocol t = p \<and>
    (cx_connection_limiter cx' \<noteq> None \<and> tu_policy t \<noteq> PolicyDefault \<longrightarrow> tu_connection_guard t \<noteq> None) \<and>
    (cx_connection_limiter cx' = None \<longleftrightarrow> cx_connection_limiter cx = None)"
proof -
  obtain m s where ms: "client_sessions_counter p (id_chain_display tid)
      (case (cx_authenticator cx, creds) of
         (Some r, Some c) \<Rightarrow> auth_username r (Sni c) | _ \<Rightarrow> None) (cx_metrics cx) = (m, s)"
    by fastforce
  show ?thesis
    using assms ms
    by (cases creds)
      (auto simp: on_tunnel_request_def Let_def policy_ok_def acquire_def
        split: auth_status.splits if_splits option.splits prod.splits)
qed

lemma acquire_slot_policy:
  "acquire_slot info cx t = (cx', Inr t') \<Longrightarrow> tu_policy t' = tu_policy t \<and> cx_authenticator cx' = cx_authenticator cx"
  using acquire_slot_keeps by blast

section \<open>A sample endpoint\<close>

definition sample_env :: "(unit, unit, unit) core_env" where
  "sample_env = \<lparr>ev_load_certs = (\<lambda>_. Ok ()), ev_load_private_key = (\<lambda>_. Ok ()), ev_boring_identity = (\<lambda>_ _. Ok ()),
     ev_map_iter = main_iter, ev_hex_decode = (\<lambda>_. None), ev_verifier = None, ev_read_to_string = (\<lambda>_. Err []),
     ev_base64 = id, ev_base64_decode = (\<lambda>s. Some (as_bytes s)),
     ev_rules = \<lparr>re_parse_cidr = (\<lambda>_. None), re_hex_decode = (\<lambda>_. None), re_hkdf = (\<lambda>_ _. None),
       re_sha256 = id, re_aes_ecb = (\<lambda>_ _. None)\<rparr>,
     ev_register_metrics = Ok ()\<rparr>"

definition limited_settings :: settings where
  "limited_settings = set_default_max_http2_conns_per_client (Some 1) (set_clients [sample_client] sample_settings)"

definition new_hosts :: tls_hosts_settings where
  "new_hosts = sample_hosts\<lparr>ts_built := False\<rparr>"

definition sample_context :: "(unit, unit, unit) endpoint_context" where
  "sample_context = \<lparr>cx_settings = limited_settings, cx_authenticator = Some (registry_new id [sample_client]),
     cx_subscription = None, cx_tls_demux = sample_demux, cx_icmp_forwarder = False, cx_fatal_error = None,
     cx_metrics = metrics_new False, cx_next_client_id = 0, cx_next_tunnel_id = 0,
     cx_connection_limiter = Some (limiter_new id [sample_client] (Some 1) None)\<rparr>"

lemmas limited_settings_defs = limited_settings_def sample_settings_def set_clients_def
  set_default_max_http2_conns_per_client_def set_listen_protocols_def settings_builder_new_def

lemma sample_needs_limiter: "needs_limiter limited_settings"
  by (simp add: needs_limiter_def limited_settings_defs)

lemma new_hosts_valid:
  "tls_hosts_validate (check_load (\<lambda>_. Inr ())) (check_load (\<lambda>_. Inr ())) new_hosts = Inr ()"
  by (simp add: tls_hosts_validate_ok new_hosts_def sample_hosts_def sample_host_def is_ok_def check_load_def)

lemma sample_demux_limited:
  "tls_demux_new main_iter (make_entry (\<lambda>_. Inr ()) (\<lambda>_. Inr ()) (\<lambda>_ _. Inr ())) limited_settings new_hosts = Inr sample_demux"
  using sample_demux_new
  by (simp add: tls_demux_new_def tunnel_protocols_def limited_settings_defs new_hosts_def)

lemma sample_core_new:
  "core_new sample_env limited_settings (Some (registry_new id [sample_client])) new_hosts = Inr sample_context"
proof -
  have "se_built limited_settings" "se_subscription limited_settings = None" "se_metrics limited_settings = None"
      "se_icmp limited_settings = None" "se_clients limited_settings = [sample_client]"
      "se_default_max_http2_conns_per_client limited_settings = Some 1"
      "se_default_max_http3_conns_per_client limited_settings = None"
    by (simp_all add: limited_settings_defs)
  then show ?thesis
    using new_hosts_valid sample_demux_limited sample_needs_limiter
    by (simp add: core_new_def env_entry_def sample_env_def rbind_def map_err_def sample_context_def)
qed

definition sample_connect :: pending_request where
  "sample_connect = \<lparr>pr_request = (sample_request CONNECT [] ''example.org:443'')
       \<lparr>rq_proxy_authorization := Some (Some ''Basic bob:pw'')\<rparr>, pr_auth_failure_status_code = 407\<rparr>"

definition sample_tunnel :: tunnel where
  "sample_tunnel = \<lparr>tu_policy = PolicyDefault, tu_connection_guard = None,
     tu_session = \<lparr>sn_protocol = Http2, sn_conn_id = id_chain_display [(TUNNEL_ID_FMT, 0)]\<rparr>, tu_protocol = Http2, tu_id = [(TUNNEL_ID_FMT, 0)]\<rparr>"

lemma sample_tunnel_starts:
  "\<exists>cx1. on_tunnel_request Http2 None [(TUNNEL_ID_FMT, 0)] sample_context = (cx1, Some sample_tunnel) \<and>
     cx_authenticator cx1 = cx_authenticator sample_context \<and>
     cx_connection_limiter cx1 = cx_connection_limiter sample_context"
  by (simp add: on_tunnel_request_def sample_context_def client_sessions_counter_def Let_def sample_tunnel_def)

lemma sample_auth_info: "auth_info scrub (pr_request sample_connect) = Inr (Some (ProxyBasic ''bob:pw''))"
  by (simp add: auth_info_def sample_connect_def sample_request_def strip_prefix_def starts_with_def)

lemma sample_authenticates: "authenticate (registry_new id [sample_client]) (ProxyBasic ''bob:pw'') = Pass"
  by (simp add: authenticate_iff credentials_def sample_client_def)

lemma sample_acquires:
  assumes "cx_authenticator cx = cx_authenticator sample_context"
    and "cx_connection_limiter cx = cx_connection_limiter sample_context"
  shows "\<exists>cx1 t1. acquire_slot (Inr (Some (ProxyBasic ''bob:pw''))) cx sample_tunnel = (cx1, Inr t1) \<and>
    cx_authenticator cx1 = cx_authenticator sample_context \<and> tu_policy t1 = PolicyDefault \<and>
    tu_connection_guard t1 = Some \<lparr>gd_creds = ''bob:pw'', gd_protocol = Http2\<rparr>"
proof -
  have "\<exists>l'. try_acquire (limiter_new id [sample_client] (Some 1) None) ''bob:pw'' Http2 =
      (l', Some \<lparr>gd_creds = ''bob:pw'', gd_protocol = Http2\<rparr>)"
    by (simp add: try_acquire_def limiter_new_def collect_map_def credentials_def sample_client_def exceeds_def)
  then show ?thesis
    using assms sample_authenticates
    by (auto simp: acquire_slot_def sample_context_def sample_tunnel_def)
qed

lemma sample_promotes:
  assumes "cx_authenticator cx = cx_authenticator sample_context" "tu_policy t = PolicyDefault"
  shows "\<exists>cx2 k. request_task dec (Inr (Some (ProxyBasic ''bob:pw''))) sample_connect t cx =
    (cx2, TaskPromoted k (Some (ProxyBasic ''bob:pw'')))"
  using assms sample_authenticates
  by (auto simp: request_task_def forwarder_auth_def sample_context_def Let_def)

section \<open>Properties of tunnels\<close>

text \<open>C1: with an authenticator, nothing is forwarded without valid credentials. On a tunnel that the
  core has started, every request that is promoted carries to the forwarder a source whose credentials
  are those of a configured client, whether they came with the request or with the server name, and
  whatever the sequence of requests.\<close>

theorem only_authenticated_requests_forwarded:
  assumes "cx_authenticator cx = Some (registry_new base64 clients)"
    and start: "on_tunnel_request p creds tid cx = (cx1, Some t)"
    and run: "tunnel_listen dec scrub events cx1 t = (cx2, t2, tasks, r)"
    and promoted: "(request, TaskPromoted k auth) \<in> set tasks"
  shows "\<exists>src. auth = Some src \<and> (\<exists>c \<in> set clients. source_creds src = credentials base64 c)"
proof -
  let ?reg = "registry_new base64 clients"
  let ?I = "\<lambda>cx t. cx_authenticator cx = Some ?reg \<and> policy_ok ?reg (tu_policy t)"
  have "\<exists>src. auth = Some src \<and> authenticate ?reg src = Pass"
  proof (rule tunnel_listen_invariant [where I = ?I, OF run _ _ _ _ promoted])
    show "?I cx1 t" using on_tunnel_request_started [OF start assms(1)] by blast
    show "?I cx' t'" if "?I cx t" "acquire_slot info cx t = (cx', Inr t')" for cx t info cx' t'
      using that acquire_slot_policy by metis
    show "?I cx' t" if "?I cx t" "request_task dec info request t cx = (cx', task)" for cx t info request cx' task
      using that request_task_keeps by metis
    show "\<exists>src. auth = Some src \<and> authenticate ?reg src = Pass"
      if "?I cx t" "request_task dec info request t cx = (cx', TaskPromoted k auth)" for cx t info request cx' k auth
      using that request_task_promoted [OF that(2)] forwarder_auth_sound by simp
  qed
  then show ?thesis by (auto simp: authenticate_iff)
qed

theorem only_authenticated_requests_forwarded_witness:
  "\<exists>cx1 cx2 t2 k auth r. on_tunnel_request Http2 None [(TUNNEL_ID_FMT, 0)] sample_context = (cx1, Some sample_tunnel) \<and>
     tunnel_listen (\<lambda>_. None) (\<lambda>_. []) [Some (Inr (Some sample_connect))] cx1 sample_tunnel =
       (cx2, t2, [(sample_connect, TaskPromoted k auth)], r) \<and>
     (\<exists>src. auth = Some src \<and> source_creds src = ''bob:pw'')"
proof -
  obtain cx1 where start: "on_tunnel_request Http2 None [(TUNNEL_ID_FMT, 0)] sample_context = (cx1, Some sample_tunnel)"
    and keep: "cx_authenticator cx1 = cx_authenticator sample_context"
      "cx_connection_limiter cx1 = cx_connection_limiter sample_context"
    using sample_tunnel_starts by blast
  obtain cx2 t2 where slot: "acquire_slot (Inr (Some (ProxyBasic ''bob:pw''))) cx1 sample_tunnel = (cx2, Inr t2)"
    and auth2: "cx_authenticator cx2 = cx_authenticator sample_context" "tu_policy t2 = PolicyDefault"
    using sample_acquires [OF keep] by blast
  obtain cx3 k where task: "request_task (\<lambda>_. None) (Inr (Some (ProxyBasic ''bob:pw''))) sample_connect t2 cx2 =
      (cx3, TaskPromoted k (Some (ProxyBasic ''bob:pw'')))"
    using sample_promotes [OF auth2] by blast
  have rest: "tunnel_listen (\<lambda>_. None) (\<lambda>_. []) [] cx3 t2 = (cx3, t2, [], Pending)" by simp
  have run: "tunnel_listen (\<lambda>_. None) (\<lambda>_. []) [Some (Inr (Some sample_connect))] cx1 sample_tunnel =
      (cx3, t2, [(sample_connect, TaskPromoted k (Some (ProxyBasic ''bob:pw'')))], Pending)"
    by (rule tunnel_listen_request [OF _ _ rest]) (use slot task in \<open>simp_all add: sample_auth_info\<close>)
  have reg: "cx_authenticator sample_context = Some (registry_new id [sample_client])"
    by (simp add: sample_context_def)
  from only_authenticated_requests_forwarded [OF reg start run] have
    "\<exists>src. Some (ProxyBasic ''bob:pw'') = Some src \<and> (\<exists>c \<in> set [sample_client]. source_creds src = credentials id c)"
    by auto
  then show ?thesis using start run by (auto simp: credentials_def sample_client_def)
qed


section \<open>Runs of the endpoint\<close>

text \<open>The tunnels alive, each with whether a request of it has been promoted to the forwarder. Their
  steps interleave freely.\<close>

fun is_promoted :: "request_task \<Rightarrow> bool" where
  "is_promoted (TaskPromoted _ _) \<longleftrightarrow> True"
| "is_promoted (TaskFailed _) \<longleftrightarrow> False"

inductive endpoint_step ::
  "(string \<Rightarrow> bytes option) \<Rightarrow> ('c, 'k, 'b) endpoint_context \<times> (tunnel \<times> bool) multiset
   \<Rightarrow> ('c, 'k, 'b) endpoint_context \<times> (tunnel \<times> bool) multiset \<Rightarrow> bool" for dec where
  tunnel_started: "on_tunnel_request p creds tid cx = (cx', Some t) \<Longrightarrow> size ts + 1 < 2 ^ 32
    \<Longrightarrow> endpoint_step dec (cx, ts) (cx', add_mset (t, False) ts)"
| tunnel_refused: "on_tunnel_request p creds tid cx = (cx', None) \<Longrightarrow> endpoint_step dec (cx, ts) (cx', ts)"
| request_spawned: "acquire_slot info cx t = (cx1, Inr t1) \<Longrightarrow> request_task dec info request t1 cx1 = (cx2, task)
    \<Longrightarrow> endpoint_step dec (cx, add_mset (t, f) ts) (cx2, add_mset (t1, f \<or> is_promoted task) ts)"
| limit_exceeded: "acquire_slot info cx t = (cx1, Inl e)
    \<Longrightarrow> endpoint_step dec (cx, add_mset (t, f) ts) (drop_tunnel t cx1, ts)"
| tunnel_closed: "endpoint_step dec (cx, add_mset (t, f) ts) (drop_tunnel t cx, ts)"

definition slot_of :: "tunnel \<Rightarrow> connection_guard multiset" where
  "slot_of t = (case tu_connection_guard t of None \<Rightarrow> {#} | Some g \<Rightarrow> {#g#})"

definition guards_of :: "(tunnel \<times> bool) multiset \<Rightarrow> connection_guard multiset" where
  "guards_of ts = \<Sum>\<^sub># (image_mset (slot_of \<circ> fst) ts)"

text \<open>The tunnels that forward traffic on a slot of given credentials and protocol class.\<close>

definition forwarding :: "(tunnel \<times> bool) multiset \<Rightarrow> string \<Rightarrow> bool \<Rightarrow> nat" where
  "forwarding ts creds h3 =
    size {#x \<in># ts. snd x \<and> (\<exists>g. tu_connection_guard (fst x) = Some g \<and> gd_creds g = creds \<and> is_h3 (gd_protocol g) = h3)#}"

definition limited :: "registry \<Rightarrow> ('c, 'k, 'b) endpoint_context \<times> (tunnel \<times> bool) multiset \<Rightarrow> bool" where
  "limited reg s \<longleftrightarrow>
    cx_authenticator (fst s) = Some reg \<and>
    (\<exists>l. cx_connection_limiter (fst s) = Some l \<and> counts l (guards_of (snd s))) \<and> size (snd s) < 2 ^ 32 \<and>
    (\<forall>(t, f) \<in># snd s. tu_policy t \<noteq> PolicyDefault \<or> f \<longrightarrow> tu_connection_guard t \<noteq> None)"

lemma guards_of_add [simp]: "guards_of (add_mset (t, f) ts) = slot_of t + guards_of ts"
  by (simp add: guards_of_def)

lemma guards_of_empty [simp]: "guards_of {#} = {#}"
  by (simp add: guards_of_def)

lemma size_guards_of: "size (guards_of ts) \<le> size ts"
proof (induction ts)
  case (add x ts)
  then show ?case by (cases x) (simp add: slot_of_def split: option.split)
qed simp

lemma try_acquire_refused: "try_acquire l creds p = (l', None) \<Longrightarrow> l' = l"
  by (auto simp: try_acquire_eq split: option.splits if_splits)

lemma limited_started:
  assumes "limited reg (cx, ts)" "on_tunnel_request p creds tid cx = (cx', Some t)" "size ts + 1 < 2 ^ 32"
  shows "limited reg (cx', add_mset (t, False) ts)"
proof -
  obtain l where l: "cx_connection_limiter cx = Some l" "counts l (guards_of ts)" and reg: "cx_authenticator cx = Some reg"
    using assms(1) by (auto simp: limited_def)
  have "\<exists>l'. cx_connection_limiter cx' = Some l' \<and> counts l' (slot_of t + guards_of ts)"
  proof (cases "tu_policy t")
    case PolicyDefault
    then have "cx_connection_limiter cx' = Some l \<and> tu_connection_guard t = None"
      using assms(2) l(1) reg
      by (auto simp: on_tunnel_request_def Let_def split: option.splits auth_status.splits if_splits prod.splits)
    with l show ?thesis by (simp add: slot_of_def)
  next
    case (PolicyAuthenticated src)
    then obtain c l' g where "try_acquire l c p = (l', Some g)" "cx_connection_limiter cx' = Some l'"
        "tu_connection_guard t = Some g"
      using assms(2) l(1) reg
      by (auto simp: on_tunnel_request_def Let_def acquire_def split: option.splits auth_status.splits if_splits prod.splits)
    moreover have "size (guards_of ts) + 1 < 2 ^ 32" using size_guards_of [of ts] assms(3) by linarith
    ultimately show ?thesis using counts_acquired l(2) by (auto simp: slot_of_def)
  qed
  with assms(1,3) on_tunnel_request_started [OF assms(2) reg] show ?thesis
    by (auto simp: limited_def)
qed

lemma limited_refused:
  assumes "limited reg (cx, ts)" "on_tunnel_request p creds tid cx = (cx', None)"
  shows "limited reg (cx', ts)"
proof -
  obtain l where l: "cx_connection_limiter cx = Some l" and reg: "cx_authenticator cx = Some reg"
    using assms(1) by (auto simp: limited_def)
  have "cx_connection_limiter cx' = Some l \<and> cx_authenticator cx' = Some reg"
    using assms(2) l reg try_acquire_refused
    by (auto simp: on_tunnel_request_def Let_def acquire_def split: option.splits auth_status.splits if_splits prod.splits)
  with assms(1) l show ?thesis by (simp add: limited_def)
qed

lemma acquire_slot_cases:
  assumes "acquire_slot info cx t = (cx1, Inr t1)" "cx_connection_limiter cx = Some l"
  obtains "cx1 = cx" "t1 = t"
  | l' g c where "tu_connection_guard t = None" "try_acquire l c (tu_protocol t) = (l', Some g)"
      "cx1 = cx\<lparr>cx_connection_limiter := Some l'\<rparr>" "t1 = t\<lparr>tu_connection_guard := Some g\<rparr>"
proof (cases "(tu_connection_guard t, info)")
  case (Pair g i)
  show ?thesis
  proof (cases "\<exists>src reg. g = None \<and> i = Inr (Some src) \<and> cx_authenticator cx = Some reg \<and> authenticate reg src = Pass")
    case True
    then obtain src where acq: "acquire_slot info cx t =
        (case try_acquire l (source_creds src) (tu_protocol t) of
           (l', Some g) \<Rightarrow> (cx\<lparr>cx_connection_limiter := Some l'\<rparr>, Inr (t\<lparr>tu_connection_guard := Some g\<rparr>))
         | (l', None) \<Rightarrow> (cx\<lparr>cx_connection_limiter := Some l'\<rparr>,
             Inl (CeAuthentication ''Connection limit exceeded'', IoError PermissionDenied ''Connection limit exceeded'')))"
      using assms(2) Pair by (auto simp: acquire_slot_def)
    obtain l' r where tried: "try_acquire l (source_creds src) (tu_protocol t) = (l', r)" by fastforce
    show ?thesis
    proof (cases r)
      case (Some g')
      show ?thesis by (rule that(2) [of "source_creds src" l' g']) (use True Pair assms(1) acq tried Some in auto)
    qed (use assms(1) acq tried in auto)
  next
    case False
    then have "acquire_slot info cx t = (cx, Inr t)"
      using assms(2) Pair by (auto simp: acquire_slot_def split: option.split sum.split)
    then show ?thesis using assms(1) that(1) by simp
  qed
qed

lemma promoted_needs_slot:
  assumes "acquire_slot info cx t = (cx1, Inr t1)" "request_task dec info request t1 cx1 = (cx2, TaskPromoted k a)"
    and "cx_connection_limiter cx \<noteq> None" "cx_authenticator cx = Some reg" "tu_policy t = PolicyDefault"
  shows "tu_connection_guard t1 \<noteq> None"
proof
  assume none: "tu_connection_guard t1 = None"
  have "forwarder_auth (Some reg) PolicyDefault info = Inr a"
    using request_task_promoted [OF assms(2)] acquire_slot_keeps [OF assms(1)] assms(4,5) by simp
  then obtain src where "info = Inr (Some src)" "authenticate reg src = Pass"
    by (auto simp: forwarder_auth_def split: sum.splits option.splits auth_status.splits io_error.splits)
  with assms none show False
    by (auto simp: acquire_slot_def split: option.splits prod.splits)
qed

lemma limited_request:
  assumes "limited reg (cx, add_mset (t, f) ts)" "acquire_slot info cx t = (cx1, Inr t1)"
    and "request_task dec info request t1 cx1 = (cx2, task)"
  shows "limited reg (cx2, add_mset (t1, f \<or> is_promoted task) ts)"
proof -
  obtain l where l: "cx_connection_limiter cx = Some l" "counts l (slot_of t + guards_of ts)"
    and reg: "cx_authenticator cx = Some reg" and size: "size ts + 1 < 2 ^ 32"
    and flag: "tu_policy t \<noteq> PolicyDefault \<or> f \<Longrightarrow> tu_connection_guard t \<noteq> None"
    and rest: "\<forall>(t, f) \<in># ts. tu_policy t \<noteq> PolicyDefault \<or> f \<longrightarrow> tu_connection_guard t \<noteq> None"
    using assms(1) by (auto simp: limited_def)
  have keep: "cx_connection_limiter cx2 = cx_connection_limiter cx1" "cx_authenticator cx2 = Some reg"
      "tu_policy t1 = tu_policy t" "tu_connection_guard t \<noteq> None \<Longrightarrow> t1 = t"
    using request_task_keeps [OF assms(3)] acquire_slot_keeps [OF assms(2)] reg by auto
  have "\<exists>l'. cx_connection_limiter cx2 = Some l' \<and> counts l' (slot_of t1 + guards_of ts)"
    using assms(2) l(1)
  proof (cases rule: acquire_slot_cases)
    case 1
    then show ?thesis using l keep(1) by simp
  next
    case (2 l' g c)
    have "size (guards_of ts) + 1 < 2 ^ 32" using size_guards_of [of ts] size by linarith
    with counts_acquired [of l "guards_of ts"] 2 l(2) show ?thesis
      using keep(1) by (auto simp: slot_of_def)
  qed
  moreover have "tu_connection_guard t1 \<noteq> None" if some: "tu_policy t1 \<noteq> PolicyDefault \<or> f \<or> is_promoted task"
  proof (cases "tu_policy t \<noteq> PolicyDefault \<or> f")
    case True
    with flag keep(4) show ?thesis by simp
  next
    case False
    then obtain k a where "task = TaskPromoted k a" using some keep(3) by (cases task) auto
    with promoted_needs_slot [OF assms(2)] assms(3) l(1) reg False show ?thesis by auto
  qed
  ultimately show ?thesis using keep(2) size rest by (auto simp: limited_def)
qed

lemma limited_dropped:
  assumes "limited reg (cx, add_mset (t, f) ts)"
  shows "limited reg (drop_tunnel t cx, ts)"
proof -
  obtain l where l: "cx_connection_limiter cx = Some l" "counts l (slot_of t + guards_of ts)"
    using assms by (auto simp: limited_def)
  have "\<exists>l'. cx_connection_limiter (drop_tunnel t cx) = Some l' \<and> counts l' (guards_of ts)"
  proof (cases "tu_connection_guard t")
    case None
    with l show ?thesis by (simp add: drop_tunnel_def slot_of_def)
  next
    case (Some g)
    with l counts_dropped [of l "slot_of t + guards_of ts" g] show ?thesis
      by (simp add: drop_tunnel_def slot_of_def)
  qed
  with assms show ?thesis by (auto simp: limited_def drop_tunnel_def)
qed

lemma limited_exceeded:
  assumes "limited reg (cx, add_mset (t, f) ts)" "acquire_slot info cx t = (cx1, Inl e)"
  shows "limited reg (drop_tunnel t cx1, ts)"
proof -
  have "cx_connection_limiter cx1 = cx_connection_limiter cx \<and> cx_authenticator cx1 = cx_authenticator cx"
    using assms(2) try_acquire_refused
    by (auto simp: acquire_slot_def Let_def split: option.splits sum.splits if_splits prod.splits)
  then have "limited reg (cx1, add_mset (t, f) ts)" using assms(1) by (simp add: limited_def)
  then show ?thesis by (rule limited_dropped)
qed

lemma limited_step: "endpoint_step dec s s' \<Longrightarrow> limited reg s \<Longrightarrow> limited reg s'"
  by (induction rule: endpoint_step.induct)
    (blast intro: limited_started limited_refused limited_request limited_exceeded limited_dropped)+

lemma limited_run:
  assumes "(endpoint_step dec)\<^sup>*\<^sup>* s s'" "limited reg s"
  shows "limited reg s'"
  using assms by (induction rule: rtranclp_induct) (auto intro: limited_step)

lemma forwarding_le_slots: "forwarding ts creds h3 \<le> slots (guards_of ts) creds h3"
proof (induction ts)
  case (add x ts)
  then show ?case
    by (cases x) (auto simp: forwarding_def slot_of_def slots_def split: option.split)
qed (simp add: forwarding_def)


lemma core_new_Inr:
  assumes "core_new env s a t = Inr cx"
  shows "cx_settings cx = s" "cx_authenticator cx = a"
    "tls_demux_new (ev_map_iter env) (env_entry env) s t = Inr (cx_tls_demux cx)"
    "cx_connection_limiter cx = (if needs_limiter s then Some (limiter_new (ev_base64 env) (se_clients s)
       (se_default_max_http2_conns_per_client s) (se_default_max_http3_conns_per_client s)) else None)"
    "\<not> ts_built t \<Longrightarrow> tls_hosts_validate (check_load (ev_load_certs env)) (check_load (ev_load_private_key env)) t = Inr ()"
    "\<not> se_built s \<Longrightarrow> settings_validate s = Inr ()"
  using assms
  by (auto simp: core_new_def rbind_eq_Inr_iff Let_def split: if_splits option.splits)

lemma slot_limit_new:
  "li_default_max_http2 l = li_default_max_http2 l' \<Longrightarrow> li_default_max_http3 l = li_default_max_http3 l'
    \<Longrightarrow> slot_limit l e h = slot_limit l' e h"
  by (simp add: slot_limit_def)

section \<open>Properties of the endpoint\<close>

text \<open>C2: the connection limits hold for the endpoint as a whole. From a newly created core with limits
  and an authenticator, however tunnels start, make requests and close, every tunnel that has forwarded a
  request holds a connection slot, and the number of tunnels that forward on slots of a client is at most
  the client's limit, for HTTP/1 and HTTP/2 together and for HTTP/3.\<close>

theorem endpoint_connection_limits:
  assumes new: "core_new env s (Some reg) t = Inr cx0" and "needs_limiter s"
    and run: "(endpoint_step dec)\<^sup>*\<^sup>* (cx0, {#}) (cx, ts)"
  shows "(\<forall>(u, f) \<in># ts. f \<longrightarrow> tu_connection_guard u \<noteq> None) \<and>
    (\<exists>l. cx_connection_limiter cx = Some l \<and>
      (\<forall>creds entry m. li_clients l creds = Some entry \<and> slot_limit l entry h3 = Some m \<longrightarrow>
         forwarding ts creds h3 \<le> unat m))"
proof -
  have "limited reg (cx0, {#})"
    using core_new_Inr(2,4) [OF new] assms(2) counts_new by (simp add: limited_def)
  from limited_run [OF run this] have lim: "limited reg (cx, ts)" .
  then obtain l where l: "cx_connection_limiter cx = Some l" "counts l (guards_of ts)"
    by (auto simp: limited_def)
  have held: "\<forall>(u, f) \<in># ts. f \<longrightarrow> tu_connection_guard u \<noteq> None"
    using lim unfolding limited_def by fastforce
  have "forwarding ts creds h3 \<le> unat m" if "li_clients l creds = Some entry" "slot_limit l entry h3 = Some m" for creds entry m
  proof -
    have "within (slots (guards_of ts) creds h3) (slot_limit l entry h3)"
      using l(2) that(1) unfolding counts_def by blast
    then show ?thesis using that(2) forwarding_le_slots [of ts creds h3] by (simp add: within_def)
  qed
  with l(1) held show ?thesis by blast
qed

theorem endpoint_connection_limits_witness:
  "\<exists>cx ts. (endpoint_step (\<lambda>_. None))\<^sup>*\<^sup>* (sample_context, {#}) (cx, ts) \<and>
     (\<exists>(u, f) \<in># ts. f \<and> tu_connection_guard u \<noteq> None)"
proof -
  obtain cx1 where start: "on_tunnel_request Http2 None [(TUNNEL_ID_FMT, 0)] sample_context = (cx1, Some sample_tunnel)"
    and keep: "cx_authenticator cx1 = cx_authenticator sample_context"
      "cx_connection_limiter cx1 = cx_connection_limiter sample_context"
    using sample_tunnel_starts by blast
  obtain cx2 t2 where slot: "acquire_slot (Inr (Some (ProxyBasic ''bob:pw''))) cx1 sample_tunnel = (cx2, Inr t2)"
    and auth2: "cx_authenticator cx2 = cx_authenticator sample_context" "tu_policy t2 = PolicyDefault"
    using sample_acquires [OF keep] by blast
  obtain cx3 k a where task: "request_task (\<lambda>_. None) (Inr (Some (ProxyBasic ''bob:pw''))) sample_connect t2 cx2 =
      (cx3, TaskPromoted k a)"
    using sample_promotes [OF auth2] by blast
  have "endpoint_step (\<lambda>_. None) (sample_context, {#}) (cx1, {#(sample_tunnel, False)#})"
    using endpoint_step.tunnel_started [OF start, of "{#}"] by simp
  moreover have "endpoint_step (\<lambda>_. None) (cx1, {#(sample_tunnel, False)#}) (cx3, {#(t2, True)#})"
    using endpoint_step.request_spawned [OF slot task, of False "{#}"] by simp
  ultimately have run: "(endpoint_step (\<lambda>_. None))\<^sup>*\<^sup>* (sample_context, {#}) (cx3, {#(t2, True)#})"
    by (meson rtranclp.rtrancl_into_rtrancl rtranclp.rtrancl_refl)
  from endpoint_connection_limits [OF sample_core_new sample_needs_limiter run] have "tu_connection_guard t2 \<noteq> None"
    by auto
  with run show ?thesis by fastforce
qed

text \<open>C7: what an accepted TLS connection has passed. The handler does not panic on a core made from
  unbuilt (and so validated) TLS hosts settings; a connection that becomes a tunnel had a server name,
  was allowed by the filtering rules, completed the handshake, and speaks an enabled protocol other
  than HTTP/3.\<close>

theorem tls_connection_admission:
  assumes new: "core_new env s a t = Inr cx" and "\<not> ts_built t"
    and iteration: "set (ev_map_iter env (td_main_hosts (cx_tls_demux cx))) = Map.graph (td_main_hosts (cx_tls_demux cx))"
  shows "on_new_tls_connection env accept http2_new sni alpn cr ip cid cx \<noteq> Panic \<and>
    (\<forall>cx' u. on_new_tls_connection env accept http2_new sni alpn cr ip cid cx = Ret (cx', Inr (DispatchTunnel u)) \<longrightarrow>
      (\<exists>name m. sni = Some name \<and> accept = Some (Inr ()) \<and>
        evaluate_connection_rules (ev_rules env) (se_rules_engine s) (Some ip) cr (Some name) = Inr () \<and>
        tls_select (cx_tls_demux cx) alpn name = Ret (Inr m) \<and> cm_channel m = Tunnel \<and>
        cm_protocol m \<in> set (tunnel_protocols s) - {Http3}))"
proof -
  let ?d = "cx_tls_demux cx"
  note core = core_new_Inr [OF new]
  have demux: "tls_demux_new (ev_map_iter env) (make_entry (ev_load_certs env) (ev_load_private_key env) (ev_boring_identity env)) s t = Inr ?d"
    using core(3) by (simp add: env_entry_def)
  have select: "\<exists>r. tls_select ?d alpn name = Ret r" for name
    using tls_select_no_panic [OF tls_demux_new_alternatives [OF demux iteration]] .
  have channel: "cm_channel m \<noteq> Subscription" if "tls_select ?d alpn name = Ret (Inr m)" for name m
    using that by (auto elim!: tls_select_Inr dest: select_host_channel)
  have protocol: "cm_protocol m \<in> set (tunnel_protocols s)"
    if m: "tls_select ?d alpn name = Ret (Inr m)" "cm_channel m = Tunnel" for name m
  proof -
    obtain h where "select_host ?d (parse_alpn alpn) alpn name =
        Ret (Inr (cm_protocol m, Tunnel, h, cm_sni_auth_creds m))"
      using tls_select_Inr [OF m(1)] m(2) by metis
    from tunnel_protocol_selected [OF select_host_tunnel [OF this]] show ?thesis
      using tls_demux_new_hosts [OF demux] by simp
  qed
  have dispatch: "dispatch_tls http2_new ip cid m cx \<noteq> Panic" if "cm_protocol m \<noteq> Http3" "cm_channel m \<noteq> Subscription" for m
    using that by (cases "cm_protocol m")
      (auto simp: dispatch_tls_def make_tcp_http_codec_def Let_def obind_def split: channel.splits sum.splits prod.splits)
  have tunnel: "cm_channel m = Tunnel" if "dispatch_tls http2_new ip cid m cx = Ret (cx', Inr (DispatchTunnel u))" for m cx' u
    using that
    by (cases "cm_channel m"; cases "make_tcp_http_codec http2_new (cm_protocol m)")
      (auto simp: dispatch_tls_def Let_def obind_def split: sum.splits)
  show ?thesis
  proof (cases sni)
    case None
    then show ?thesis by (simp add: on_new_tls_connection_def)
  next
    case (Some name)
    obtain r where r: "tls_select ?d alpn name = Ret r" using select by blast
    show ?thesis
      using Some r core(1) channel [of name] protocol [of name] dispatch tunnel
      by (auto simp: on_new_tls_connection_def obind_def split: option.splits sum.splits if_splits)
  qed
qed

theorem tls_connection_admission_witness:
  "on_new_tls_connection sample_env (Some (Inr ())) (Inr ()) (Some ''vpn.org'') [as_bytes ''h2''] None (V4 1) []
     sample_context \<noteq> Panic \<and>
   set (main_iter (td_main_hosts sample_demux)) = Map.graph (td_main_hosts sample_demux)"
proof -
  have demux: "cx_tls_demux sample_context = sample_demux" and it: "ev_map_iter sample_env = main_iter"
    by (simp_all add: sample_context_def sample_env_def)
  have built: "\<not> ts_built new_hosts" by (simp add: new_hosts_def)
  show ?thesis
    using tls_connection_admission [OF sample_core_new built] sample_demux_iteration unfolding demux it by blast
qed

text \<open>reloading is all or nothing. A reload of the TLS hosts that fails leaves the endpoint as it was,
  and one that succeeds changes only the demultiplexer, which then serves exactly the names of the new
  settings; a reload of the subscription settings that fails keeps the old configuration.\<close>

theorem reload_all_or_nothing:
  "(case reload_tls_hosts_settings env hosts cx of
      (cx', Inl e) \<Rightarrow> cx' = cx
    | (cx', Inr _) \<Rightarrow> cx' = cx\<lparr>cx_tls_demux := cx_tls_demux cx'\<rparr> \<and>
        dom (td_main_hosts (cx_tls_demux cx')) = hostnames (ts_main_hosts hosts)) \<and>
   (case reload_subscription_settings (ev_hex_decode env) (ev_verifier env) (ev_read_to_string env)
        (cx_settings cx) sub hosts (cx_subscription cx) of
      (store, Inl e) \<Rightarrow> store = cx_subscription cx
    | (store, Inr _) \<Rightarrow> (store = None \<longleftrightarrow> sub = None))"
proof -
  have "dom (td_main_hosts d) = hostnames (ts_main_hosts hosts)"
    if "tls_demux_new (ev_map_iter env) (env_entry env) (cx_settings cx) hosts = Inr d" for d
    using tls_demux_new_hosts that unfolding env_entry_def by blast
  then show ?thesis
    by (auto simp: reload_tls_hosts_settings_def reload_subscription_settings_def rbind_eq_Inr_iff
        split: sum.splits option.splits)
qed

text \<open>the traffic counters. The bytes counted as inbound are those that go from the peer to the
  client, and as outbound those from the client to the peer; the help texts of the metrics, which call
  the inbound bytes uploaded by clients, have it the other way round.\<close>

theorem traffic_directions:
  "me_inbound_traffic (update_metrics p u Incoming n m) (protocol_as_str p) =
     me_inbound_traffic m (protocol_as_str p) + of_nat n \<and>
   me_outbound_traffic (update_metrics p u Incoming n m) = me_outbound_traffic m \<and>
   me_outbound_traffic (update_metrics p u Outgoing n m) (protocol_as_str p) =
     me_outbound_traffic m (protocol_as_str p) + of_nat n \<and>
   me_inbound_traffic (update_metrics p u Outgoing n m) = me_inbound_traffic m"
  by (simp add: update_metrics_def add_inbound_bytes_def add_outbound_bytes_def Let_def split: option.split)

end
