(* ===== verification/Socks5_Client.thy ===== *)
theory Socks5_Client
  imports Net_Utils
begin

text \<open>
  The SOCKS5 client, \<^verbatim>\<open>lib/src/socks5_client.rs\<close>: the messages of RFC 1928 and RFC 1929 with the
  extended authentication of this project, the handshake \<open>connect\<close>, and the datagrams of a UDP
  association. The connection to the server is the record \<open>socks_io\<close>: the bytes that the server
  sends until it closes, the bytes written so far, and the results of the next writes. A step of the
  handshake is a function from this record to the record after it and a result.
\<close>

section \<open>The connection to the server\<close>

datatype socks_error = SeIo io_error | SeProtocol string | SeAuthentication string

record socks_io =
  io_input :: bytes
  io_output :: bytes
  io_writes :: "(io_error, unit) result list"

type_synonym 'a sio = "socks_io \<Rightarrow> socks_io \<times> (socks_error, 'a) result"

definition sreturn :: "'a \<Rightarrow> 'a sio" where
  "sreturn x = (\<lambda>io. (io, Ok x))"

definition sfail :: "socks_error \<Rightarrow> 'a sio" where
  "sfail e = (\<lambda>io. (io, Err e))"

definition sbind :: "'a sio \<Rightarrow> ('a \<Rightarrow> 'b sio) \<Rightarrow> 'b sio" where
  "sbind m f = (\<lambda>io. case m io of (io', Inl e) \<Rightarrow> (io', Err e) | (io', Inr x) \<Rightarrow> f x io')"

definition write_bytes :: "bytes \<Rightarrow> unit sio" where
  "write_bytes buf io =
    (case io_writes io of
       Inl e # rest \<Rightarrow> (io\<lparr>io_writes := rest\<rparr>, Err (SeIo e))
     | Inr _ # rest \<Rightarrow> (io\<lparr>io_writes := rest, io_output := io_output io @ buf\<rparr>, Ok ())
     | [] \<Rightarrow> (io\<lparr>io_output := io_output io @ buf\<rparr>, Ok ()))"

definition read_exact :: "nat \<Rightarrow> bytes sio" where
  "read_exact n io =
    (if n \<le> length (io_input io)
     then (io\<lparr>io_input := drop n (io_input io)\<rparr>, Ok (take n (io_input io)))
     else (io\<lparr>io_input := []\<rparr>, Err (SeIo (IoError UnexpectedEof ''early eof''))))"

definition read_u8 :: "u8 sio" where
  "read_u8 = sbind (read_exact 1) (\<lambda>b. sreturn (hd b))"

definition read_u16 :: "u16 sio" where
  "read_u16 = sbind (read_exact 2) (\<lambda>b. sreturn (word_of_nat (of_be b)))"

section \<open>Protocol data\<close>

definition PROTOCOL_VERSION :: u8 where "PROTOCOL_VERSION = 0x05"
definition RESERVED :: u8 where "RESERVED = 0x00"
definition MAX_AUTH_METHODS_NUM :: nat where "MAX_AUTH_METHODS_NUM = 255"
definition MAX_DOMAIN_NAME_LENGTH :: nat where "MAX_DOMAIN_NAME_LENGTH = 255"
definition ADDRESS_TYPE_IP_V4 :: u8 where "ADDRESS_TYPE_IP_V4 = 0x01"
definition ADDRESS_TYPE_DOMAIN_NAME :: u8 where "ADDRESS_TYPE_DOMAIN_NAME = 0x03"
definition ADDRESS_TYPE_IP_V6 :: u8 where "ADDRESS_TYPE_IP_V6 = 0x04"
definition UDP_HEADER_FRAG :: u8 where "UDP_HEADER_FRAG = 0x00"
definition AUTHENTICATION_STATUS_SUCCESS :: u8 where "AUTHENTICATION_STATUS_SUCCESS = 0x00"
definition USERNAME_PASSWORD_AUTHENTICATION_VER :: u8 where "USERNAME_PASSWORD_AUTHENTICATION_VER = 0x01"
definition EXTENDED_AUTHENTICATION_TERM_TYPE_CODE :: u8 where "EXTENDED_AUTHENTICATION_TERM_TYPE_CODE = 0x00"

lemmas socks_consts = PROTOCOL_VERSION_def RESERVED_def MAX_AUTH_METHODS_NUM_def MAX_DOMAIN_NAME_LENGTH_def
  ADDRESS_TYPE_IP_V4_def ADDRESS_TYPE_DOMAIN_NAME_def ADDRESS_TYPE_IP_V6_def UDP_HEADER_FRAG_def
  AUTHENTICATION_STATUS_SUCCESS_def USERNAME_PASSWORD_AUTHENTICATION_VER_def
  EXTENDED_AUTHENTICATION_TERM_TYPE_CODE_def

datatype authentication_method = NoAuth | MethodUsernamePassword | ExtendedAuth | NoAcceptable

fun method_to_u8 :: "authentication_method \<Rightarrow> u8" where
  "method_to_u8 NoAuth = 0x00"
| "method_to_u8 MethodUsernamePassword = 0x02"
| "method_to_u8 ExtendedAuth = 0x80"
| "method_to_u8 NoAcceptable = 0xff"

definition method_from_u8 :: "u8 \<Rightarrow> authentication_method option" where
  "method_from_u8 x =
    (if x = 0x00 then Some NoAuth else if x = 0x02 then Some MethodUsernamePassword
     else if x = 0x80 then Some ExtendedAuth else if x = 0xff then Some NoAcceptable else None)"

datatype extended_authentication_value =
    Domain string | ClientAddress ip_addr | UserAgent string | BasicProxyAuth string | SniAuth

fun type_code :: "extended_authentication_value \<Rightarrow> u8" where
  "type_code (Domain _) = 0x01"
| "type_code (ClientAddress _) = 0x02"
| "type_code (UserAgent _) = 0x03"
| "type_code (BasicProxyAuth _) = 0x04"
| "type_code SniAuth = 0x05"

datatype socks_authentication = UsernamePassword string string | Extended "extended_authentication_value list"

fun to_method :: "socks_authentication \<Rightarrow> authentication_method" where
  "to_method (UsernamePassword _ _) = MethodUsernamePassword"
| "to_method (Extended _) = ExtendedAuth"

datatype socks_address = IpAddress ip_addr | DomainName string

fun address_type :: "socks_address \<Rightarrow> u8" where
  "address_type (IpAddress (V4 _)) = ADDRESS_TYPE_IP_V4"
| "address_type (IpAddress (V6 _)) = ADDRESS_TYPE_IP_V6"
| "address_type (DomainName _) = ADDRESS_TYPE_DOMAIN_NAME"

datatype socks_request = Connect socks_address u16 | UdpAssociate

fun command_code :: "socks_request \<Rightarrow> u8" where
  "command_code (Connect _ _) = 0x01"
| "command_code UdpAssociate = 0x03"

datatype reply_code = Succeeded | GeneralFailure | NotAllowed | RcNetworkUnreachable | RcHostUnreachable
  | RcConnectionRefused | TtlExpired | CommandNotSupported | AddressTypeNotSupported

definition reply_from_u8 :: "u8 \<Rightarrow> reply_code option" where
  "reply_from_u8 x =
    (if x = 0x00 then Some Succeeded else if x = 0x01 then Some GeneralFailure else if x = 0x02 then Some NotAllowed
     else if x = 0x03 then Some RcNetworkUnreachable else if x = 0x04 then Some RcHostUnreachable
     else if x = 0x05 then Some RcConnectionRefused else if x = 0x06 then Some TtlExpired
     else if x = 0x07 then Some CommandNotSupported else if x = 0x08 then Some AddressTypeNotSupported else None)"

record socks_reply =
  re_code :: reply_code
  re_bound_address :: socks_address
  re_bound_port :: u16

section \<open>Writing\<close>

definition put_u16 :: "nat \<Rightarrow> bytes" where
  "put_u16 x = to_be 2 x"

fun ip_octets :: "ip_addr \<Rightarrow> bytes" where
  "ip_octets (V4 x) = ipv4_octets x"
| "ip_octets (V6 x) = ipv6_octets x"

definition write_selection_message :: "authentication_method list \<Rightarrow> unit sio" where
  "write_selection_message methods =
    (if length methods > MAX_AUTH_METHODS_NUM then sfail (SeProtocol ''Too many methods'')
     else write_bytes (PROTOCOL_VERSION # word_of_nat (length methods) # map method_to_u8 methods))"

text \<open>The value of an extension with its two-byte length; a text longer than that is refused with
  the given message.\<close>

definition put_text :: "string \<Rightarrow> string \<Rightarrow> (socks_error, bytes) result" where
  "put_text message x =
    (if length (as_bytes x) > 65535 then Err (SeProtocol message) else Ok (put_u16 (length (as_bytes x)) @ as_bytes x))"

fun write_extended_authentication_value :: "extended_authentication_value \<Rightarrow> (socks_error, bytes) result" where
  "write_extended_authentication_value (Domain x) =
    rbind (put_text ''Too long domain name'' x) (\<lambda>b. Ok (type_code (Domain x) # b))"
| "write_extended_authentication_value (ClientAddress x) =
    Ok (type_code (ClientAddress x) # put_u16 (length (ip_octets x)) @ ip_octets x)"
| "write_extended_authentication_value (UserAgent x) =
    rbind (put_text ''Too long User-Agent'' x) (\<lambda>b. Ok (type_code (UserAgent x) # b))"
| "write_extended_authentication_value (BasicProxyAuth x) =
    rbind (put_text ''Too long Proxy-Authorization'' x) (\<lambda>b. Ok (type_code (BasicProxyAuth x) # b))"
| "write_extended_authentication_value SniAuth = Ok (type_code SniAuth # put_u16 0)"

definition write_extended_authentication_term_value :: bytes where
  "write_extended_authentication_term_value = EXTENDED_AUTHENTICATION_TERM_TYPE_CODE # put_u16 0"

fun write_extended_values :: "extended_authentication_value list \<Rightarrow> (socks_error, bytes) result" where
  "write_extended_values [] = Ok write_extended_authentication_term_value"
| "write_extended_values (v # vs) =
    rbind (write_extended_authentication_value v) (\<lambda>b. rbind (write_extended_values vs) (\<lambda>rest. Ok (b @ rest)))"

text \<open>The lengths of the user name and of the password are truncated to a byte.\<close>

fun authentication_message :: "socks_authentication \<Rightarrow> (socks_error, bytes) result" where
  "authentication_message (UsernamePassword username password) =
    Ok (USERNAME_PASSWORD_AUTHENTICATION_VER # word_of_nat (length (as_bytes username)) # as_bytes username
        @ word_of_nat (length (as_bytes password)) # as_bytes password)"
| "authentication_message (Extended values) =
    rbind (write_extended_values values) (\<lambda>b. Ok (USERNAME_PASSWORD_AUTHENTICATION_VER # b))"

definition write_authentication_message :: "socks_authentication \<Rightarrow> unit sio" where
  "write_authentication_message auth =
    (case authentication_message auth of Inl e \<Rightarrow> sfail e | Inr buf \<Rightarrow> write_bytes buf)"

fun address_bytes :: "socks_address \<Rightarrow> (socks_error, bytes) result" where
  "address_bytes (IpAddress x) = Ok (ip_octets x)"
| "address_bytes (DomainName x) =
    (if length (as_bytes x) \<le> MAX_DOMAIN_NAME_LENGTH then Ok (word_of_nat (length (as_bytes x)) # as_bytes x)
     else Err (SeProtocol ''Too long domain name''))"

definition request_message :: "u8 \<Rightarrow> socks_address \<Rightarrow> u16 \<Rightarrow> (socks_error, bytes) result" where
  "request_message command destination port =
    rbind (address_bytes destination) (\<lambda>a.
    Ok ([PROTOCOL_VERSION, command, RESERVED, address_type destination] @ a @ put_u16 (unat port)))"

definition write_request :: "u8 \<Rightarrow> socks_address \<Rightarrow> u16 \<Rightarrow> unit sio" where
  "write_request command destination port =
    (case request_message command destination port of Inl e \<Rightarrow> sfail e | Inr buf \<Rightarrow> write_bytes buf)"

section \<open>Reading\<close>

definition read_version :: "unit sio" where
  "read_version = sbind read_u8 (\<lambda>version.
    if version \<noteq> PROTOCOL_VERSION
    then sfail (SeProtocol (''Unexpected protocol version: '' @ show_nat (unat version))) else sreturn ())"

definition read_selection_response :: "authentication_method sio" where
  "read_selection_response = sbind read_version (\<lambda>_. sbind read_u8 (\<lambda>method.
    case method_from_u8 method of
      Some m \<Rightarrow> sreturn m
    | None \<Rightarrow> sfail (SeProtocol (''Unexpected authentication method: '' @ show_nat (unat method)))))"

definition read_authentication_response :: "unit sio" where
  "read_authentication_response = sbind read_u8 (\<lambda>version.
    if version \<noteq> USERNAME_PASSWORD_AUTHENTICATION_VER
    then sfail (SeProtocol (''Unexpected authentication version: '' @ show_nat (unat version)))
    else sbind read_u8 (\<lambda>status.
      if status \<noteq> AUTHENTICATION_STATUS_SUCCESS
      then sfail (SeAuthentication (''Status='' @ show_nat (unat status))) else sreturn ()))"

definition read_address :: "u8 \<Rightarrow> socks_address sio" where
  "read_address t =
    (if t = ADDRESS_TYPE_IP_V4
     then sbind (read_exact IPV4_WIRE_LENGTH) (\<lambda>b. sreturn (IpAddress (V4 (ipv4_from_octets b))))
     else if t = ADDRESS_TYPE_IP_V6
     then sbind (read_exact IPV6_WIRE_LENGTH) (\<lambda>b. sreturn (IpAddress (V6 (ipv6_from_octets b))))
     else if t = ADDRESS_TYPE_DOMAIN_NAME
     then sbind read_u8 (\<lambda>length. sbind (read_exact (unat length)) (\<lambda>buf.
       case from_utf8 buf of
         Inr name \<Rightarrow> sreturn (DomainName name)
       | Inl _ \<Rightarrow> sfail (SeProtocol ''Domain name parse failure'')))
     else sfail (SeProtocol (''Unexpected address type: '' @ show_nat (unat t))))"

definition read_reply :: "socks_reply sio" where
  "read_reply = sbind read_version (\<lambda>_. sbind read_u8 (\<lambda>code.
    case reply_from_u8 code of
      None \<Rightarrow> sfail (SeProtocol (''Unexpected reply code: '' @ show_nat (unat code)))
    | Some reply_code \<Rightarrow>
        sbind read_u8 (\<lambda>reserved.
        if reserved \<noteq> RESERVED
        then sfail (SeProtocol (''Unexpected reserved field value: '' @ show_nat (unat reserved)))
        else sbind read_u8 (\<lambda>t. sbind (read_address t) (\<lambda>address. sbind read_u16 (\<lambda>port.
          sreturn \<lparr>re_code = reply_code, re_bound_address = address, re_bound_port = port\<rparr>))))))"

section \<open>The handshake\<close>

datatype 'u connect_result = TcpConnection | UdpAssociation 'u | Failure reply_code

definition authenticate_with :: "socks_authentication option \<Rightarrow> authentication_method \<Rightarrow> unit sio" where
  "authenticate_with auth method =
    (case (method, auth) of
       (NoAuth, _) \<Rightarrow> sreturn ()
     | (NoAcceptable, _) \<Rightarrow> sfail (SeAuthentication ''Server rejected offered authentication methods'')
     | (m, Some a) \<Rightarrow>
         if m = to_method a
         then sbind (write_authentication_message a) (\<lambda>_. read_authentication_response)
         else sfail (SeAuthentication ''Server selected non-offered authentication method'')
     | _ \<Rightarrow> sfail (SeAuthentication ''Server selected non-offered authentication method''))"

text \<open>\<open>bind\<close> is the result of binding the UDP socket, with its local address; \<open>connect_udp\<close> of
  connecting it.\<close>

definition connect_inner ::
  "(io_error, 'u \<times> socket_addr) result \<Rightarrow> ('u \<Rightarrow> socket_addr \<Rightarrow> (io_error, unit) result)
   \<Rightarrow> socks_authentication option \<Rightarrow> socks_request \<Rightarrow> 'u connect_result sio" where
  "connect_inner udp_bind connect_udp auth request =
    sbind (write_selection_message [case auth of Some a \<Rightarrow> to_method a | None \<Rightarrow> NoAuth, NoAuth]) (\<lambda>_.
    sbind read_selection_response (\<lambda>method.
    sbind (authenticate_with auth method) (\<lambda>_.
    sbind (case request of
             Connect d p \<Rightarrow> sreturn (d, p, None)
           | UdpAssociate \<Rightarrow>
               (case udp_bind of
                  Inl e \<Rightarrow> sfail (SeIo e)
                | Inr (socket, a) \<Rightarrow> sreturn (IpAddress (sa_ip a), sa_port a, Some socket))) (\<lambda>(destination, port, udp_socket).
    sbind (write_request (command_code request) destination port) (\<lambda>_.
    sbind read_reply (\<lambda>reply.
    if re_code reply \<noteq> Succeeded then sreturn (Failure (re_code reply))
    else (case (request, udp_socket) of
            (UdpAssociate, Some socket) \<Rightarrow>
              (case re_bound_address reply of
                 DomainName x \<Rightarrow> sfail (SeProtocol (''Unexpected bound address: '' @ x))
               | IpAddress x \<Rightarrow>
                   (case connect_udp socket \<lparr>sa_ip = x, sa_port = re_bound_port reply\<rparr> of
                      Inl e \<Rightarrow> sfail (SeIo e)
                    | Inr _ \<Rightarrow> sreturn (UdpAssociation socket)))
          | _ \<Rightarrow> sreturn TcpConnection)))))))"

section \<open>Datagrams of an association\<close>

definition udp_buffer_size :: "nat \<Rightarrow> nat \<Rightarrow> nat" where
  "udp_buffer_size address_size data_cap = 2 + 1 + 1 + address_size + 2 + data_cap"

text \<open>The datagram that \<open>send_to\<close> sends.\<close>

definition send_to_packet :: "bytes \<Rightarrow> socket_addr \<Rightarrow> bytes" where
  "send_to_packet data destination =
    [RESERVED, RESERVED, UDP_HEADER_FRAG]
    @ (case sa_ip destination of
         V4 x \<Rightarrow> ADDRESS_TYPE_IP_V4 # ipv4_octets x
       | V6 x \<Rightarrow> ADDRESS_TYPE_IP_V6 # ipv6_octets x)
    @ to_be 2 (unat (sa_port destination)) @ data"

text \<open>\<open>recv_from\<close> of a received datagram into a buffer of \<open>cap\<close> bytes: the number of bytes of the
  payload, what the buffer holds of it, and the source. The receive buffer cuts longer datagrams.\<close>

definition recv_from :: "nat \<Rightarrow> bytes \<Rightarrow> (socks_error, nat \<times> bytes \<times> socket_addr) result outcome" where
  "recv_from cap packet =
    (let buf = take (udp_buffer_size IPV6_WIRE_LENGTH cap) packet
     in if length buf < udp_buffer_size IPV4_WIRE_LENGTH 0 then Ret (Err (SeProtocol ''Too short packet''))
     else
       obind (buf_get_u8 buf) (\<lambda>(r1, buf).
       obind (buf_get_u8 buf) (\<lambda>(r2, buf).
       if RESERVED \<noteq> r1 \<or> RESERVED \<noteq> r2 then Ret (Err (SeProtocol ''Unexpected reserved bytes''))
       else
         obind (buf_get_u8 buf) (\<lambda>(frag, buf).
         if UDP_HEADER_FRAG \<noteq> frag then Ret (Err (SeProtocol ''Unexpected fragmentation byte''))
         else
           obind (buf_get_u8 buf) (\<lambda>(t, buf).
           obind
             (if t = ADDRESS_TYPE_IP_V4
              then obind (buf_split_to IPV4_WIRE_LENGTH buf) (\<lambda>(a, buf). Ret (Ok (V4 (ipv4_from_octets a), buf)))
              else if t = ADDRESS_TYPE_IP_V6
              then if length buf < IPV6_WIRE_LENGTH
                   then Ret (Err (SeProtocol ''Packet length doesn't conform to announced address type''))
                   else obind (buf_split_to IPV6_WIRE_LENGTH buf) (\<lambda>(a, buf). Ret (Ok (V6 (ipv6_from_octets a), buf)))
              else Ret (Err (SeProtocol (''Unexpected address type: '' @ show_nat (unat t))))) (\<lambda>source.
           case source of
             Inl e \<Rightarrow> Ret (Err e)
           | Inr (ip, buf) \<Rightarrow>
               if length buf < 2 then Ret (Err (SeProtocol ''Too short packet''))
               else
                 obind (buf_get_be 2 buf) (\<lambda>(port, buf).
                 Ret (Ok (length buf, take cap buf, \<lparr>sa_ip = ip, sa_port = word_of_nat port\<rparr>)))))))))"


section \<open>Lemmas on the steps\<close>

lemma sbind_eq_Inr:
  "sbind m f io = (io', Inr y) \<longleftrightarrow> (\<exists>io1 x. m io = (io1, Inr x) \<and> f x io1 = (io', Inr y))"
  by (auto simp: sbind_def split: prod.splits sum.splits)

lemma sreturn_eq [simp]: "sreturn x io = (io', r) \<longleftrightarrow> io' = io \<and> r = Inr x"
  by (auto simp: sreturn_def)

lemma sfail_eq [simp]: "sfail e io = (io', r) \<longleftrightarrow> io' = io \<and> r = Inl e"
  by (auto simp: sfail_def)

lemma unat_word_of_of_be:
  fixes w :: "'w :: len word"
  assumes "w = word_of_nat (of_be b)" "LENGTH('w) = 8 * length b"
  shows "unat w = of_be b"
proof -
  have "of_be b < 2 ^ LENGTH('w)"
    using of_be_less [of b] assms(2) by (simp add: power_mult)
  then show ?thesis
    by (simp add: assms(1) unsigned_of_nat take_bit_nat_eq_self)
qed

lemma octets_of_from:
  "length b = 4 \<Longrightarrow> ipv4_octets (ipv4_from_octets b) = b"
  "length b = 16 \<Longrightarrow> ipv6_octets (ipv6_from_octets b) = b"
  by (simp_all add: ipv4_octets_def ipv4_from_octets_def ipv6_octets_def ipv6_from_octets_def
      unat_word_of_of_be [OF refl])

text \<open>\<open>moves io io' got sent\<close>: between the two states the server's bytes \<open>got\<close> were consumed and the
  bytes \<open>sent\<close> were written.\<close>

definition moves :: "socks_io \<Rightarrow> socks_io \<Rightarrow> bytes \<Rightarrow> bytes \<Rightarrow> bool" where
  "moves io io' got sent \<longleftrightarrow> io_input io = got @ io_input io' \<and> io_output io' = io_output io @ sent"

lemma moves_refl [simp]: "moves io io [] []"
  by (simp add: moves_def)

lemma moves_trans: "moves io io1 r1 w1 \<Longrightarrow> moves io1 io2 r2 w2 \<Longrightarrow> moves io io2 (r1 @ r2) (w1 @ w2)"
  by (simp add: moves_def)

lemma write_bytes_moves: "write_bytes buf io = (io', Inr u) \<Longrightarrow> moves io io' [] buf"
  by (auto simp: write_bytes_def moves_def split: list.splits sum.splits)

lemma read_exact_moves: "read_exact n io = (io', Inr b) \<Longrightarrow> moves io io' b [] \<and> length b = n"
  by (auto simp: read_exact_def moves_def split: if_splits)

lemma read_u8_moves: "read_u8 io = (io', Inr b) \<Longrightarrow> moves io io' [b] []"
  by (auto simp: read_u8_def sbind_eq_Inr dest!: read_exact_moves) (auto simp: moves_def length_Suc_conv)

lemma read_u16_moves: "read_u16 io = (io', Inr p) \<Longrightarrow> moves io io' (to_be 2 (unat p)) []"
proof -
  assume "read_u16 io = (io', Inr p)"
  then obtain b where b: "read_exact 2 io = (io', Inr b)" "p = word_of_nat (of_be b)"
    by (auto simp: read_u16_def sbind_eq_Inr)
  then have "length b = 2" "moves io io' b []"
    by (auto dest: read_exact_moves)
  moreover have "unat p = of_be b"
    using b(2) \<open>length b = 2\<close> by (intro unat_word_of_of_be) simp_all
  ultimately show ?thesis
    by simp
qed

lemma read_version_moves: "read_version io = (io', Inr u) \<Longrightarrow> moves io io' [PROTOCOL_VERSION] []"
  by (auto simp: read_version_def sbind_eq_Inr split: if_splits dest!: read_u8_moves)

lemma method_from_u8_Some: "method_from_u8 x = Some m \<Longrightarrow> x = method_to_u8 m"
  by (auto simp: method_from_u8_def split: if_splits)

lemma method_roundtrip [simp]: "method_from_u8 (method_to_u8 m) = Some m"
  by (cases m) (simp_all add: method_from_u8_def)

lemma read_selection_response_moves:
  "read_selection_response io = (io', Inr m) \<Longrightarrow> moves io io' [PROTOCOL_VERSION, method_to_u8 m] []"
  by (auto simp: read_selection_response_def sbind_eq_Inr split: option.splits
      dest!: read_version_moves read_u8_moves method_from_u8_Some dest: moves_trans)

lemma read_authentication_response_moves:
  "read_authentication_response io = (io', Inr u) \<Longrightarrow>
    moves io io' [USERNAME_PASSWORD_AUTHENTICATION_VER, AUTHENTICATION_STATUS_SUCCESS] []"
  by (auto simp: read_authentication_response_def sbind_eq_Inr split: if_splits dest!: read_u8_moves dest: moves_trans)

lemma reply_Succeeded [simp]: "reply_from_u8 x = Some Succeeded \<longleftrightarrow> x = 0"
  by (simp add: reply_from_u8_def)

text \<open>The bytes of an address as both sides write it.\<close>

lemma read_address_moves:
  assumes "read_address t io = (io', Inr a)"
  shows "t = address_type a \<and> (\<exists>b. address_bytes a = Inr b \<and> moves io io' b [])"
proof -
  consider "t = ADDRESS_TYPE_IP_V4" | "t = ADDRESS_TYPE_IP_V6" | "t = ADDRESS_TYPE_DOMAIN_NAME"
    using assms by (auto simp: read_address_def split: if_splits)
  then show ?thesis
  proof cases
    case 1
    then obtain b where "read_exact 4 io = (io', Inr b)" "a = IpAddress (V4 (ipv4_from_octets b))"
      using assms by (auto simp: read_address_def sbind_eq_Inr wire_lengths)
    then show ?thesis
      using 1 read_exact_moves [of 4 io io' b] by (simp add: octets_of_from)
  next
    case 2
    then obtain b where "read_exact 16 io = (io', Inr b)" "a = IpAddress (V6 (ipv6_from_octets b))"
      using assms by (auto simp: read_address_def sbind_eq_Inr wire_lengths socks_consts)
    then show ?thesis
      using 2 read_exact_moves [of 16 io io' b] by (simp add: octets_of_from)
  next
    case 3
    then obtain n io1 b io2 where steps: "read_u8 io = (io1, Inr n)" "read_exact (unat n) io1 = (io2, Inr b)"
        "(case from_utf8 b of Inr name \<Rightarrow> sreturn (DomainName name)
          | Inl _ \<Rightarrow> sfail (SeProtocol ''Domain name parse failure'')) io2 = (io', Inr a)"
      using assms by (auto simp: read_address_def sbind_eq_Inr socks_consts)
    then obtain name where "from_utf8 b = Inr name" "a = DomainName name" "io2 = io'"
      by (cases "from_utf8 b") simp_all
    then show ?thesis
      using 3 steps read_u8_moves [of io io1 n] read_exact_moves [of "unat n" io1 io' b] unat_byte_less [of n]
      by (auto simp: from_utf8_eq_Inr MAX_DOMAIN_NAME_LENGTH_def dest: moves_trans)
  qed
qed


lemma read_reply_moves:
  assumes "read_reply io = (io', Inr reply)"
  shows "\<exists>code b. reply_from_u8 code = Some (re_code reply) \<and> address_bytes (re_bound_address reply) = Inr b \<and>
    moves io io' ([PROTOCOL_VERSION, code, RESERVED, address_type (re_bound_address reply)] @ b
      @ to_be 2 (unat (re_bound_port reply))) []"
proof -
  obtain io1 io2 code where s1: "read_version io = (io1, Inr ())" "read_u8 io1 = (io2, Inr code)"
    and rest: "(case reply_from_u8 code of
        None \<Rightarrow> sfail (SeProtocol (''Unexpected reply code: '' @ show_nat (unat code)))
      | Some reply_code \<Rightarrow> sbind read_u8 (\<lambda>reserved.
          if reserved \<noteq> RESERVED
          then sfail (SeProtocol (''Unexpected reserved field value: '' @ show_nat (unat reserved)))
          else sbind read_u8 (\<lambda>t. sbind (read_address t) (\<lambda>address. sbind read_u16 (\<lambda>port.
            sreturn \<lparr>re_code = reply_code, re_bound_address = address, re_bound_port = port\<rparr>))))) io2 = (io', Inr reply)"
    using assms by (auto simp: read_reply_def sbind_eq_Inr)
  obtain rc where rc: "reply_from_u8 code = Some rc"
    using rest by (cases "reply_from_u8 code") simp_all
  obtain io3 io4 io5 t a p where s2: "read_u8 io2 = (io3, Inr RESERVED)" "read_u8 io3 = (io4, Inr t)"
      "read_address t io4 = (io5, Inr a)" "read_u16 io5 = (io', Inr p)"
      "reply = \<lparr>re_code = rc, re_bound_address = a, re_bound_port = p\<rparr>"
    using rest by (auto simp: rc sbind_eq_Inr split: if_splits)
  obtain b where b: "t = address_type a" "address_bytes a = Inr b" "moves io4 io5 b []"
    using read_address_moves [OF s2(3)] by blast
  note moves_trans [OF read_version_moves [OF s1(1)] moves_trans [OF read_u8_moves [OF s1(2)] moves_trans [OF
    read_u8_moves [OF s2(1)] moves_trans [OF read_u8_moves [OF s2(2)] moves_trans [OF b(3) read_u16_moves [OF s2(4)]]]]]]
  then show ?thesis
    using rc b s2(5) by (intro exI [of _ code] exI [of _ b]) simp
qed

section \<open>Properties\<close>

text \<open>The part of the handshake that authenticates: nothing for a server that asks for nothing, else
  the message of the method that was offered and that the server chose, accepted by the server.\<close>

definition authenticated ::
  "socks_authentication option \<Rightarrow> authentication_method \<Rightarrow> bytes \<Rightarrow> bytes \<Rightarrow> bool" where
  "authenticated auth chosen got sent \<longleftrightarrow>
    (chosen = NoAuth \<and> got = [] \<and> sent = []) \<or>
    (\<exists>a. auth = Some a \<and> chosen = to_method a \<and> authentication_message a = Ok sent \<and>
      got = [USERNAME_PASSWORD_AUTHENTICATION_VER, AUTHENTICATION_STATUS_SUCCESS])"

lemma write_authentication_message_moves:
  "write_authentication_message a io = (io', Inr u) \<Longrightarrow>
    \<exists>buf. authentication_message a = Inr buf \<and> moves io io' [] buf"
  by (cases "authentication_message a") (auto simp: write_authentication_message_def dest: write_bytes_moves)

lemma write_request_moves:
  "write_request c d p io = (io', Inr u) \<Longrightarrow> \<exists>buf. request_message c d p = Inr buf \<and> moves io io' [] buf"
  by (cases "request_message c d p") (auto simp: write_request_def dest: write_bytes_moves)

lemma authenticate_with_moves:
  assumes "authenticate_with auth chosen io = (io', Inr u)"
  shows "\<exists>got sent. authenticated auth chosen got sent \<and> moves io io' got sent"
proof (cases "chosen = NoAuth")
  case True
  then show ?thesis
    using assms by (intro exI [of _ "[]"]) (simp add: authenticate_with_def authenticated_def)
next
  case False
  then obtain a io1 where "auth = Some a" "chosen = to_method a"
      and s: "write_authentication_message a io = (io1, Inr ())" "read_authentication_response io1 = (io', Inr u)"
    using assms
    by (cases auth; cases chosen) (auto simp: authenticate_with_def sbind_eq_Inr split: if_splits)
  then show ?thesis
    using write_authentication_message_moves [OF s(1)] read_authentication_response_moves [OF s(2)]
    by (force simp: authenticated_def dest: moves_trans)
qed

lemma write_selection_message_moves:
  "write_selection_message [m, NoAuth] io = (io', Inr u) \<Longrightarrow>
    moves io io' [] [PROTOCOL_VERSION, 2, method_to_u8 m, 0]"
  by (auto simp: write_selection_message_def MAX_AUTH_METHODS_NUM_def dest!: write_bytes_moves)

lemma connect_transcript:
  assumes "connect_inner udp_bind connect_udp auth (Connect destination port) io = (io', Ok TcpConnection)"
  shows "\<exists>chosen got sent req bound b bound_port.
    authenticated auth chosen got sent \<and>
    request_message 0x01 destination port = Ok req \<and>
    address_bytes bound = Ok b \<and>
    io_output io' = io_output io
      @ [PROTOCOL_VERSION, 2, method_to_u8 (case auth of Some a \<Rightarrow> to_method a | None \<Rightarrow> NoAuth), 0] @ sent @ req \<and>
    io_input io = [PROTOCOL_VERSION, method_to_u8 chosen] @ got
      @ [PROTOCOL_VERSION, 0, RESERVED, address_type bound] @ b @ to_be 2 (unat (bound_port :: u16)) @ io_input io'"
proof -
  obtain io1 io2 io3 io4 chosen reply where
      s: "write_selection_message [case auth of Some a \<Rightarrow> to_method a | None \<Rightarrow> NoAuth, NoAuth] io = (io1, Inr ())"
        "read_selection_response io1 = (io2, Inr chosen)" "authenticate_with auth chosen io2 = (io3, Inr ())"
        "write_request 0x01 destination port io3 = (io4, Inr ())" "read_reply io4 = (io', Inr reply)"
    and code: "re_code reply = Succeeded"
    using assms by (auto simp: connect_inner_def sbind_eq_Inr split: if_splits)
  obtain got sent where a: "authenticated auth chosen got sent" "moves io2 io3 got sent"
    using authenticate_with_moves [OF s(3)] by blast
  obtain req where r: "request_message 0x01 destination port = Inr req" "moves io3 io4 [] req"
    using write_request_moves [OF s(4)] by blast
  obtain b where b: "address_bytes (re_bound_address reply) = Inr b"
      "moves io4 io' ([PROTOCOL_VERSION, 0, RESERVED, address_type (re_bound_address reply)] @ b
        @ to_be 2 (unat (re_bound_port reply))) []"
    using read_reply_moves [OF s(5)] code by auto
  have "moves io io' ([PROTOCOL_VERSION, method_to_u8 chosen] @ got
      @ [PROTOCOL_VERSION, 0, RESERVED, address_type (re_bound_address reply)] @ b @ to_be 2 (unat (re_bound_port reply)))
      ([PROTOCOL_VERSION, 2, method_to_u8 (case auth of Some a \<Rightarrow> to_method a | None \<Rightarrow> NoAuth), 0] @ sent @ req)"
    using moves_trans [OF write_selection_message_moves [OF s(1)] moves_trans [OF read_selection_response_moves [OF s(2)]
        moves_trans [OF a(2) moves_trans [OF r(2) b(2)]]]] by simp
  then show ?thesis
    using a(1) r(1) b(1) unfolding moves_def by (metis append_assoc)
qed

lemma connect_moves:
  assumes "connect_inner udp_bind connect_udp auth (Connect destination port) io = (io', Inr TcpConnection)"
  shows "\<exists>req sent reply. request_message 0x01 destination port = Inr req \<and>
    io_output io' = io_output io @ sent @ req \<and> io_input io = reply @ io_input io'"
  using connect_transcript [OF assms] by (metis append_assoc)

text \<open>C17: The handshake for a TCP connection follows RFC 1928 and stops where the tunnel begins. When it
  succeeds, the client has sent its offer, the authentication and the request for exactly the wanted
  destination, and nothing else; it has consumed exactly the server's choice, the answer to the
  authentication and a reply of success, so that the next byte it reads is the first one of the
  tunnelled stream. The credentials are sent only to a server that chose the method that was
  offered for them.\<close>

theorem socks_connect_transcript:
  assumes "connect_inner udp_bind connect_udp auth (Connect destination port) io = (io', Ok TcpConnection)"
  shows "\<exists>chosen got sent req bound b bound_port.
    authenticated auth chosen got sent \<and>
    request_message 0x01 destination port = Ok req \<and>
    address_bytes bound = Ok b \<and>
    io_output io' = io_output io
      @ [PROTOCOL_VERSION, 2, method_to_u8 (case auth of Some a \<Rightarrow> to_method a | None \<Rightarrow> NoAuth), 0] @ sent @ req \<and>
    io_input io = [PROTOCOL_VERSION, method_to_u8 chosen] @ got
      @ [PROTOCOL_VERSION, 0, RESERVED, address_type bound] @ b @ to_be 2 (unat (bound_port :: u16)) @ io_input io'"
  using assms by (rule connect_transcript)

definition sample_server :: socks_io where
  "sample_server = \<lparr>io_input = [5, 2, 1, 0, 5, 0, 0, 1, 10, 0, 0, 1, 0, 80, 42], io_output = [], io_writes = []\<rparr>"

lemmas socks_eval = connect_inner_def sbind_def sreturn_def sfail_def write_selection_message_def write_bytes_def
  read_selection_response_def read_version_def read_u8_def read_exact_def method_from_u8_def authenticate_with_def
  write_authentication_message_def read_authentication_response_def write_request_def request_message_def
  read_reply_def reply_from_u8_def read_address_def read_u16_def socks_consts wire_lengths

theorem socks_connect_transcript_witness:
  "\<exists>io'. connect_inner (Err (IoError Other [])) (\<lambda>(_ :: unit) _. Ok ()) (Some (UsernamePassword ''a'' ''b''))
      (Connect (DomainName ''x'') 80) sample_server = (io', Ok TcpConnection) \<and>
    io_input io' = [42] \<and>
    io_output io' = [5, 2, 2, 0] @ [1, 1, 97, 1, 98] @ [5, 1, 0, 3, 1, 120, 0, 80]"
proof -
  obtain io' where io': "connect_inner (Err (IoError Other [])) (\<lambda>(_ :: unit) _. Ok ())
      (Some (UsernamePassword ''a'' ''b'')) (Connect (DomainName ''x'') 80) sample_server = (io', Ok TcpConnection)"
      "io_input io' = [42]"
    by (simp add: socks_eval sample_server_def)
  from socks_connect_transcript [OF this(1)] show ?thesis
    using io' by (auto simp: authenticated_def sample_server_def socks_consts request_message_def put_u16_def to_be_eval as_bytes_def)
qed


lemma length_send_to_packet:
  "length (send_to_packet data destination) =
    udp_buffer_size (case sa_ip destination of V4 _ \<Rightarrow> 4 | V6 _ \<Rightarrow> 16) (length data)"
  by (simp add: send_to_packet_def udp_buffer_size_def split: ip_addr.split)

lemma recv_from_send_to:
  assumes "length data \<le> cap"
  shows "recv_from cap (send_to_packet data destination) = Ret (Ok (length data, data, destination))"
proof -
  let ?n = "udp_buffer_size IPV6_WIRE_LENGTH cap"
  have len: "length (send_to_packet data destination) \<le> ?n"
      "\<not> length (send_to_packet data destination) < udp_buffer_size IPV4_WIRE_LENGTH 0"
    using assms
    by (auto simp: length_send_to_packet udp_buffer_size_def wire_lengths split: ip_addr.split)
  have "unat (sa_port destination) < 2 ^ LENGTH(16)"
    by (rule unsigned_less)
  then have "of_be (to_be 2 (unat (sa_port destination))) = unat (sa_port destination)"
    by simp
  then have port: "word_of_nat (of_be (to_be 2 (unat (sa_port destination)))) = sa_port destination"
    by simp
  have len2: "length (to_be 2 n) = 2" for n
    by simp
  show ?thesis
    unfolding recv_from_def Let_def take_all [OF len(1)] if_not_P [OF len(2)]
    using assms
    by (cases "sa_ip destination")
      (simp_all add: send_to_packet_def socks_consts wire_lengths buf_split_to_def buf_get_be_def port len2
        del: to_be.simps)
qed

lemma recv_from_no_panic: "recv_from cap packet \<noteq> Panic"
proof -
  let ?buf = "take (udp_buffer_size IPV6_WIRE_LENGTH cap) packet"
  show ?thesis
  proof (cases "length ?buf < udp_buffer_size IPV4_WIRE_LENGTH 0")
    case True
    then show ?thesis
      by (simp only: recv_from_def Let_def if_True) simp
  next
    case False
    then obtain a b c d rest where "?buf = a # b # c # d # rest" "6 \<le> length rest"
      by (cases ?buf; cases "tl ?buf"; cases "tl (tl ?buf)"; cases "tl (tl (tl ?buf))")
        (auto simp: udp_buffer_size_def wire_lengths)
    then show ?thesis
      unfolding recv_from_def Let_def if_not_P [OF False]
      by (auto simp: obind_eq_Panic wire_lengths buf_split_to_def buf_get_be_def split: if_splits sum.splits)
  qed
qed

text \<open>C20: A datagram that the client relays through an association comes back unchanged: what
  \<open>recv_from\<close> reads from the packet of \<open>send_to\<close> is the address and the payload, when the payload fits
  in the buffer; and no packet whatsoever makes \<open>recv_from\<close> panic.\<close>

theorem socks_udp_roundtrip:
  "(length data \<le> cap \<longrightarrow> recv_from cap (send_to_packet data destination) = Ret (Ok (length data, data, destination)))
   \<and> recv_from cap packet \<noteq> Panic"
  by (simp add: recv_from_send_to recv_from_no_panic)

theorem socks_udp_roundtrip_witness:
  "recv_from 4 (send_to_packet [1, 2] \<lparr>sa_ip = V4 0x0A000001, sa_port = 53\<rparr>) =
    Ret (Ok (2, [1, 2], \<lparr>sa_ip = V4 0x0A000001, sa_port = 53\<rparr>))"
  using socks_udp_roundtrip [of "[1, 2]" 4 "\<lparr>sa_ip = V4 0x0A000001, sa_port = 53\<rparr>"] by simp

text \<open>A server's reading of the messages: RFC 1929, and the extended authentication as the comment
  of \<open>Authentication::Extended\<close> describes it.\<close>

definition take_field :: "nat \<Rightarrow> bytes \<Rightarrow> (bytes \<times> bytes) option" where
  "take_field n b = (if n \<le> length b then Some (take n b, drop n b) else None)"

fun parse_username_password :: "bytes \<Rightarrow> (string \<times> string) option" where
  "parse_username_password (ver # ulen # rest) =
    (if ver \<noteq> 1 then None
     else case take_field (unat ulen) rest of
            Some (u, plen # rest') \<Rightarrow>
              (case take_field (unat plen) rest' of
                 Some (p, []) \<Rightarrow> Some (chars_of u, chars_of p) | _ \<Rightarrow> None)
          | _ \<Rightarrow> None)"
| "parse_username_password _ = None"

lemma take_field_append: "length a = n \<Longrightarrow> take_field n (a @ b) = Some (a, b)"
  by (auto simp: take_field_def)

lemma unat_byte_length: "n \<le> 255 \<Longrightarrow> unat (word_of_nat n :: u8) = n"
  by (simp add: unat_of_nat_byte)

text \<open>C24: Credentials longer than 255 bytes are sent broken. The message of the user name and password
  method is read back by a server as the same credentials exactly when both fit in the one-byte
  lengths of RFC 1929; longer ones are not refused, their lengths are truncated.\<close>

theorem socks_credentials_readable:
  assumes "authentication_message (UsernamePassword username password) = Ok message"
  shows "parse_username_password message = Some (username, password) \<longleftrightarrow>
    length username \<le> 255 \<and> length password \<le> 255"
proof
  assume l: "length username \<le> 255 \<and> length password \<le> 255"
  then show "parse_username_password message = Some (username, password)"
    using assms take_field_append [OF refl, of "as_bytes password" "[]"]
    by (auto simp: unat_byte_length USERNAME_PASSWORD_AUTHENTICATION_VER_def take_field_append)
next
  assume p: "parse_username_password message = Some (username, password)"
  let ?u = "word_of_nat (length username) :: u8" and ?p = "word_of_nat (length password) :: u8"
  have m: "message = 1 # ?u # as_bytes username @ ?p # as_bytes password"
    using assms by (simp add: USERNAME_PASSWORD_AUTHENTICATION_VER_def)
  obtain u plen rest' v where f: "take_field (unat ?u) (as_bytes username @ ?p # as_bytes password) = Some (u, plen # rest')"
      "take_field (unat plen) rest' = Some (v, [])" "chars_of u = username" "chars_of v = password"
    using p unfolding m
    by (auto split: option.splits list.splits)
  then have "length username = length u" "length password = length v"
    by (metis as_bytes_chars_of length_as_bytes)+
  moreover have "length u = unat ?u" "length v = unat plen"
    using f(1,2) by (auto simp: take_field_def split: if_splits)
  ultimately show "length username \<le> 255 \<and> length password \<le> 255"
    using unat_byte_less [of ?u] unat_byte_less [of plen] by linarith
qed

theorem socks_credentials_readable_witness:
  "parse_username_password [1, 1, 97, 1, 98] = Some (''a'', ''b'')"
proof -
  have "authentication_message (UsernamePassword ''a'' ''b'') = Ok [1, 1, 97, 1, 98]"
    by (simp add: USERNAME_PASSWORD_AUTHENTICATION_VER_def as_bytes_def)
  from socks_credentials_readable [OF this] show ?thesis
    by simp
qed


definition decode_extension :: "u8 \<Rightarrow> bytes \<Rightarrow> extended_authentication_value option" where
  "decode_extension t v =
    (if t = 1 then Some (Domain (chars_of v))
     else if t = 2 then (if length v = 4 then Some (ClientAddress (V4 (ipv4_from_octets v)))
                         else if length v = 16 then Some (ClientAddress (V6 (ipv6_from_octets v))) else None)
     else if t = 3 then Some (UserAgent (chars_of v))
     else if t = 4 then Some (BasicProxyAuth (chars_of v))
     else if t = 5 \<and> v = [] then Some SniAuth else None)"

function parse_extensions :: "bytes \<Rightarrow> extended_authentication_value list option" where
  "parse_extensions b =
    (case take_field 3 b of
       None \<Rightarrow> None
     | Some (hdr, rest) \<Rightarrow>
         let n = of_be (tl hdr)
         in if hd hdr = 0 then (if n = 0 \<and> rest = [] then Some [] else None)
            else case take_field n rest of
                   None \<Rightarrow> None
                 | Some (v, rest') \<Rightarrow>
                     (case (decode_extension (hd hdr) v, parse_extensions rest') of
                        (Some x, Some xs) \<Rightarrow> Some (x # xs) | _ \<Rightarrow> None))"
  by pat_completeness auto
termination
  by (relation "measure length") (auto simp: take_field_def split: if_splits)

declare parse_extensions.simps [simp del]

text \<open>One extension: a non-zero type, a length, the value.\<close>

lemma write_extended_authentication_value_shape:
  assumes "write_extended_authentication_value x = Inr b"
  shows "\<exists>t v. b = t # to_be 2 (length v) @ v \<and> t \<noteq> 0 \<and> length v < 65536 \<and> decode_extension t v = Some x"
proof -
  note defs = put_text_def put_u16_def decode_extension_def rbind_eq_Inr_iff
  show ?thesis
  proof (cases x)
    case (ClientAddress a)
    then show ?thesis
      using assms by (intro exI [of _ 2] exI [of _ "ip_octets a"], cases a) (auto simp: defs)
  next
    case (Domain d)
    then show ?thesis
      using assms by (intro exI [of _ 1] exI [of _ "as_bytes d"]) (auto simp: defs split: if_splits)
  next
    case (UserAgent d)
    then show ?thesis
      using assms by (intro exI [of _ 3] exI [of _ "as_bytes d"]) (auto simp: defs split: if_splits)
  next
    case (BasicProxyAuth d)
    then show ?thesis
      using assms by (intro exI [of _ 4] exI [of _ "as_bytes d"]) (auto simp: defs split: if_splits)
  next
    case SniAuth
    then show ?thesis
      using assms by (intro exI [of _ 5] exI [of _ "[]"]) (auto simp: defs)
  qed
qed

text \<open>C19: The extended authentication is unambiguous. A server that reads the message as the
  documentation of \<open>Authentication::Extended\<close> prescribes it, extension by extension up to the terminator,
  gets exactly the values that the endpoint put in, whatever they contain.\<close>

theorem socks_extended_roundtrip:
  assumes "authentication_message (Extended values) = Ok message"
  shows "\<exists>b. message = 0x01 # b \<and> parse_extensions b = Some values"
proof -
  have "write_extended_values values = Inr b \<Longrightarrow> parse_extensions b = Some values" for b
  proof (induction "values" arbitrary: b)
    case Nil
    then have "b = [0] @ to_be 2 0"
      by (simp add: write_extended_authentication_term_value_def EXTENDED_AUTHENTICATION_TERM_TYPE_CODE_def put_u16_def)
    then show ?case
      by (subst parse_extensions.simps) (simp add: take_field_def)
  next
    case (Cons x xs)
    then obtain c rest where c: "write_extended_authentication_value x = Inr c" "write_extended_values xs = Inr rest"
        "b = c @ rest"
      by (auto simp: rbind_eq_Inr_iff)
    from write_extended_authentication_value_shape [OF c(1)] obtain t v where v: "c = t # to_be 2 (length v) @ v"
        "t \<noteq> 0" "length v < 65536" "decode_extension t v = Some x"
      by blast
    have hdr: "take_field 3 b = Some (t # to_be 2 (length v), v @ rest)"
      using take_field_append [of "t # to_be 2 (length v)" 3 "v @ rest"] by (simp add: c(3) v(1))
    have n: "of_be (to_be 2 (length v)) = length v"
      using v(3) by simp
    show ?case
      unfolding parse_extensions.simps [of b] hdr
      using v Cons.IH [OF c(2)] by (simp add: n take_field_append del: to_be.simps)
  qed
  then show ?thesis
    using assms by (auto simp: rbind_eq_Inr_iff USERNAME_PASSWORD_AUTHENTICATION_VER_def)
qed

theorem socks_extended_roundtrip_witness:
  "\<exists>message b. authentication_message (Extended [Domain ''d'', SniAuth]) = Ok message \<and> message = 0x01 # b \<and>
    parse_extensions b = Some [Domain ''d'', SniAuth]"
proof -
  obtain message where "authentication_message (Extended [Domain ''d'', SniAuth]) = Ok message"
    by (simp add: put_text_def)
  with socks_extended_roundtrip [OF this] show ?thesis
    by blast
qed

end
