(* ===== verification/Tcp_Forwarder.thy ===== *)
theory Tcp_Forwarder
  imports Metrics Pipe
begin

text \<open>
  Outbound TCP connections, \<^verbatim>\<open>lib/src/tcp_forwarder.rs\<close>: which address of a destination the endpoint
  connects to, and the two halves of a connected stream as the source and the sink of a pipe. The
  operating system is a parameter: name resolution and connecting are functions, a socket is the list
  of the results that its calls will give. The interpretations \<open>stream_rx\<close> and \<open>stream_tx\<close> discharge
  the contracts of \<^verbatim>\<open>Pipe.thy\<close>.
\<close>

section \<open>Choosing the address\<close>

record tcp_connection_meta =
  tm_client_address :: ip_addr
  tm_destination :: tcp_destination
  tm_auth :: "auth_source option"
  tm_tls_domain :: string
  tm_user_agent :: "string option"

text \<open>A connection error with the operating system code of the I/O error in it.\<close>

type_synonym os_connection_error = "connection_error \<times> int option"

datatype selection_status = StLoopback | StNonRoutable | StSuitable socket_addr

definition ENETUNREACH :: int where "ENETUNREACH = 101"
definition EHOSTUNREACH :: int where "EHOSTUNREACH = 113"

fun io_to_connection_error :: "os_error \<Rightarrow> os_connection_error" where
  "io_to_connection_error (IoError kind message, raw) =
    (if raw = Some ENETUNREACH \<or> raw = Some EHOSTUNREACH then (CeHostUnreachable, None)
     else if kind = TimedOut then (CeTimeout, None)
     else (CeIo (IoError kind message), raw))"

fun is_ipv6 :: "ip_addr \<Rightarrow> bool" where
  "is_ipv6 (V6 _) = True"
| "is_ipv6 (V4 _) = False"

fun select_address ::
  "bool \<Rightarrow> bool \<Rightarrow> socket_addr list \<Rightarrow> selection_status option \<Rightarrow> selection_status option" where
  "select_address ipv6_available allow_private_network [] status = status"
| "select_address ipv6_available allow_private_network (a # resolved) status =
    (let ip = sa_ip a
     in if is_ipv6 ip \<and> \<not> ipv6_available
        then select_address ipv6_available allow_private_network resolved status
        else if is_global_ip ip \<or> allow_private_network then Some (StSuitable a)
        else if status = None \<and> ip_is_loopback ip
        then select_address ipv6_available allow_private_network resolved (Some StLoopback)
        else select_address ipv6_available allow_private_network resolved (Some StNonRoutable))"

definition select_peer ::
  "(string \<Rightarrow> (os_error, socket_addr list) result) \<Rightarrow> bool \<Rightarrow> settings \<Rightarrow> tcp_destination
   \<Rightarrow> (os_connection_error, socket_addr) result" where
  "select_peer lookup_host allow_private settings dest =
    (let allow_private_network = (allow_private \<or> se_allow_private_network_connections settings)
     in case dest of
          Address peer \<Rightarrow>
            if \<not> allow_private_network \<and> \<not> is_global_ip (sa_ip peer)
            then Err (if ip_is_loopback (sa_ip peer) then CeDnsLoopback else CeDnsNonroutable, None)
            else Ok peer
        | HostName host port \<Rightarrow>
            rbind (map_err io_to_connection_error (lookup_host (host @ '':'' @ show_nat (unat port)))) (\<lambda>resolved.
            case select_address (se_ipv6_available settings) allow_private_network resolved None of
              None \<Rightarrow> Err (io_to_connection_error (IoError Other ''Resolved to empty list'', None))
            | Some StLoopback \<Rightarrow> Err (CeDnsLoopback, None)
            | Some StNonRoutable \<Rightarrow> Err (CeDnsNonroutable, None)
            | Some (StSuitable x) \<Rightarrow> Ok x))"

text \<open>\<open>TcpForwarder\<close> is its flag \<open>allow_private_network\<close>; \<open>connect\<close> counts the socket while it lives.\<close>

record tcp_forwarder =
  tf_allow_private_network :: bool

definition tcp_forwarder_new :: tcp_forwarder where
  "tcp_forwarder_new = \<lparr>tf_allow_private_network = False\<rparr>"

definition new_for_configured_destination :: tcp_forwarder where
  "new_for_configured_destination = \<lparr>tf_allow_private_network = True\<rparr>"

definition tcp_connect ::
  "(string \<Rightarrow> (os_error, socket_addr list) result) \<Rightarrow> (socket_addr \<Rightarrow> (os_error, 's) result) \<Rightarrow> settings
   \<Rightarrow> tcp_forwarder \<Rightarrow> tcp_connection_meta \<Rightarrow> metrics \<Rightarrow> metrics \<times> (os_connection_error, 's) result" where
  "tcp_connect lookup_host connect settings self meta m =
    (case select_peer lookup_host (tf_allow_private_network self) settings (tm_destination meta) of
       Inl e \<Rightarrow> (m, Err e)
     | Inr peer \<Rightarrow>
         (let m = outbound_tcp_socket_counter m
          in case connect peer of
               Inl e \<Rightarrow> (drop_tcp_socket_counter m, Err (io_to_connection_error e))
             | Inr stream \<Rightarrow> (m, Ok stream)))"

section \<open>The halves of a stream\<close>

text \<open>The read half is the list of the results of its next reads; a read of no bytes is the end of
  the stream, an exhausted list a read in progress. The bytes read and the acknowledged number are
  history: \<open>consume\<close> does nothing.\<close>

record stream_rx =
  rx_events :: "(io_error, bytes) result list"
  rx_delivered :: bytes
  rx_acked :: nat

fun read_buf ::
  "(io_error, bytes) result list \<Rightarrow> (io_error, bytes) result list \<times> (io_error, bytes) result poll" where
  "read_buf [] = ([], Pending)"
| "read_buf (Inl (IoError kind message) # events) =
    (if kind = WouldBlock then read_buf events else (events, Ready (Err (IoError kind message))))"
| "read_buf (Inr b # events) = (events, Ready (Ok b))"

definition stream_rx_read :: "stream_rx \<Rightarrow> stream_rx \<times> (io_error, pipe_data) result poll" where
  "stream_rx_read self =
    (case read_buf (rx_events self) of
       (events, Pending) \<Rightarrow> (self\<lparr>rx_events := events\<rparr>, Pending)
     | (events, Ready (Inl e)) \<Rightarrow> (self\<lparr>rx_events := events\<rparr>, Ready (Err e))
     | (events, Ready (Inr b)) \<Rightarrow>
         (self\<lparr>rx_events := events, rx_delivered := rx_delivered self @ b\<rparr>,
          Ready (Ok (if b = [] then Eof else Chunk b))))"

definition stream_rx_consume :: "stream_rx \<Rightarrow> nat \<Rightarrow> stream_rx \<times> (io_error, unit) result" where
  "stream_rx_consume self n = (self\<lparr>rx_acked := rx_acked self + n\<rparr>, Ok ())"

definition stream_source :: "stream_rx pipe_source" where
  "stream_source = \<lparr>src_read = stream_rx_read, src_consume = stream_rx_consume\<rparr>"

text \<open>The write half: the results of the next \<open>try_write\<close> calls (a call past them would block), of
  the next waits for writability, and of the shutdown; \<open>tx_sent\<close> is history.\<close>

record stream_tx =
  tx_writes :: "(io_error, nat) result list"
  tx_writable :: "(io_error, unit) result list"
  tx_shutdown :: "(io_error, unit) result"
  tx_sent :: bytes
  tx_eof_pending :: bool

fun try_writes ::
  "(io_error, nat) result list \<Rightarrow> bytes \<Rightarrow> bytes
   \<Rightarrow> (io_error, nat) result list \<times> bytes \<times> (io_error, bytes) result" where
  "try_writes [] sent data = ([], sent, Ok data)"
| "try_writes (Inr n # writes) sent data =
    (if data = [] then (Inr n # writes, sent, Ok data)
     else try_writes writes (sent @ take n data) (drop n data))"
| "try_writes (Inl (IoError kind message) # writes) sent data =
    (if data = [] then (Inl (IoError kind message) # writes, sent, Ok data)
     else if kind = WouldBlock then (writes, sent, Ok data)
     else (writes, sent, Err (IoError kind message)))"

definition already_shut_down :: io_error where
  "already_shut_down = IoError Other ''Already shut down''"

definition stream_tx_write :: "stream_tx \<Rightarrow> bytes \<Rightarrow> stream_tx \<times> (io_error, bytes) result" where
  "stream_tx_write self data =
    (if tx_eof_pending self then (self, Err already_shut_down)
     else (case try_writes (tx_writes self) (tx_sent self) data of
             (writes, sent, r) \<Rightarrow> (self\<lparr>tx_writes := writes, tx_sent := sent\<rparr>, r)))"

definition stream_tx_eof :: "stream_tx \<Rightarrow> stream_tx \<times> (io_error, unit) result" where
  "stream_tx_eof self = (self\<lparr>tx_eof_pending := True\<rparr>, Ok ())"

definition stream_tx_wait_writable :: "stream_tx \<Rightarrow> stream_tx \<times> (io_error, unit) result poll" where
  "stream_tx_wait_writable self =
    (if tx_eof_pending self then (self, Ready (Err already_shut_down))
     else (case tx_writable self of
             [] \<Rightarrow> (self, Pending)
           | r # rest \<Rightarrow> (self\<lparr>tx_writable := rest\<rparr>, Ready r)))"

text \<open>Flushing a TCP stream does nothing; a pending end of stream shuts the half down.\<close>

definition stream_tx_flush :: "stream_tx \<Rightarrow> stream_tx \<times> (io_error, unit) result poll" where
  "stream_tx_flush self =
    (if tx_eof_pending self then (self, Ready (tx_shutdown self)) else (self, Ready (Ok ())))"

definition stream_sink :: "stream_tx pipe_sink" where
  "stream_sink = \<lparr>snk_write = stream_tx_write, snk_eof = stream_tx_eof,
     snk_wait_writable = stream_tx_wait_writable, snk_flush = stream_tx_flush\<rparr>"

section \<open>The contracts hold\<close>

lemma try_writes_split:
  "try_writes writes sent data = (writes', sent', r) \<Longrightarrow>
    \<exists>now rest. data = now @ rest \<and> sent' = sent @ now \<and> (\<forall>u. r = Inr u \<longrightarrow> u = rest)"
proof (induction writes sent data rule: try_writes.induct)
  case (2 n writes sent data)
  show ?case
  proof (cases "data = []")
    case False
    with 2 obtain now rest where *: "drop n data = now @ rest" "sent' = (sent @ take n data) @ now"
        "\<forall>u. r = Inr u \<longrightarrow> u = rest"
      by auto
    have "data = (take n data @ now) @ rest"
      using *(1) append_take_drop_id [of n data] by simp
    moreover have "sent' = sent @ (take n data @ now)"
      using *(2) by simp
    ultimately show ?thesis
      using *(3) by blast
  qed (use 2 in auto)
qed (auto split: if_splits)

interpretation stream_rx: lawful_source stream_source rx_delivered rx_acked
proof
  fix i i' r
  assume read: "src_read stream_source i = (i', r)" and other: "\<And>b. r \<noteq> Ready (Inr (Chunk b))"
  show "rx_delivered i' = rx_delivered i"
    using read other [of "drop (length (rx_delivered i)) (rx_delivered i')"]
    by (auto simp: stream_source_def stream_rx_read_def split: prod.splits poll.splits sum.splits if_splits)
qed (auto simp: stream_source_def stream_rx_read_def stream_rx_consume_def
    split: prod.splits poll.splits sum.splits if_splits)

interpretation stream_tx: lawful_sink stream_sink tx_sent tx_eof_pending
proof
  fix x x' data rest
  assume "snk_write stream_sink x data = (x', Inr rest)"
  then show "\<exists>sent. data = sent @ rest \<and> tx_sent x' = tx_sent x @ sent"
    by (auto simp: stream_sink_def stream_tx_write_def split: if_splits prod.splits dest!: try_writes_split)
next
  fix x x' data e
  assume "snk_write stream_sink x data = (x', Inl e)"
  then show "\<exists>sent rest. data = sent @ rest \<and> tx_sent x' = tx_sent x @ sent"
    by (auto simp: stream_sink_def stream_tx_write_def split: if_splits prod.splits dest!: try_writes_split)
qed (auto simp: stream_sink_def stream_tx_eof_def stream_tx_wait_writable_def stream_tx_flush_def
    split: if_splits list.splits)

interpretation stream_ends: pipe_ends stream_source rx_delivered rx_acked stream_sink tx_sent tx_eof_pending ..


section \<open>Properties\<close>

text \<open>C11: A pipe loses, duplicates and reorders nothing. For any two sources and sinks that keep the
  contracts of the traits, in every state that the pipe reaches from its creation, what a sink has
  taken is a prefix of what the source of its direction has handed out. As long as the pipe has not
  failed, the bytes taken are also exactly those acknowledged to the source and those counted in
  the metrics. When the exchange ends without an error, both sinks have taken all the bytes that were
  read, and both were told the end of the stream.\<close>

theorem pipe_conserves_streams:
  assumes "lawful_source si1 delivered1 acked1" "lawful_sink so1 accepted1 closed1"
    and "lawful_source si2 delivered2 acked2" "lawful_sink so2 accepted2 closed2"
    and "delivered1 i1 = [] \<and> acked1 i1 = 0 \<and> accepted1 o1 = []"
    and "delivered2 i2 = [] \<and> acked2 i2 = 0 \<and> accepted2 o2 = []"
    and "(duplex_step si1 so1 si2 so2 timeout)\<^sup>*\<^sup>* (duplex_new now (dir1, i1, o1) (dir2, i2, o2)) self"
  shows "(\<exists>rest. delivered1 (sp_source (dp_left self)) = accepted1 (sp_sink (dp_left self)) @ rest)
    \<and> (\<exists>rest. delivered2 (sp_source (dp_right self)) = accepted2 (sp_sink (dp_right self)) @ rest)
    \<and> ((\<nexists>e. dp_phase self = Ended (Err e)) \<longrightarrow>
        accounted acked1 accepted1 (dp_left self) \<and> accounted acked2 accepted2 (dp_right self))
    \<and> (dp_phase self = Ended (Ok ()) \<longrightarrow>
        accepted1 (sp_sink (dp_left self)) = delivered1 (sp_source (dp_left self)) \<and> closed1 (sp_sink (dp_left self)) \<and>
        accepted2 (sp_sink (dp_right self)) = delivered2 (sp_source (dp_right self)) \<and> closed2 (sp_sink (dp_right self)))"
proof -
  have "duplex_inv (delivered1, acked1, accepted1, closed1) (delivered2, acked2, accepted2, closed2) self"
    using assms(5,6)
    by (intro duplex_inv_reachable [OF pipe_ends.intro [OF assms(1,2)] pipe_ends.intro [OF assms(3,4)] assms(7)]
        duplex_inv_new) simp_all
  note inv = duplex_inv_ordered [OF this] duplex_inv_running [OF this] duplex_inv_finished [OF this]
  show ?thesis
    using inv unfolding running.simps ordered.simps conserved_def all_sent_def in_order_def by blast
qed

definition sample_rx :: "bytes list \<Rightarrow> stream_rx" where
  "sample_rx bs = \<lparr>rx_events = map Inr bs @ [Inr []], rx_delivered = [], rx_acked = 0\<rparr>"

definition sample_tx :: "nat list \<Rightarrow> stream_tx" where
  "sample_tx counts = \<lparr>tx_writes = map Inr counts, tx_writable = [Inr ()], tx_shutdown = Inr (),
     tx_sent = [], tx_eof_pending = False\<rparr>"

definition sample_pipe :: "(stream_rx, stream_tx, stream_rx, stream_tx) duplex_pipe" where
  "sample_pipe = duplex_new 0 (Outgoing, sample_rx [[1, 2, 3]], sample_tx [2, 5]) (Incoming, sample_rx [], sample_tx [])"

theorem pipe_conserves_streams_witness:
  "let step = right_turn stream_source stream_sink 10 0 0 \<circ> left_turn stream_source stream_sink 10 0 0
         \<circ> left_turn stream_source stream_sink 10 0 0;
       self = step sample_pipe
   in dp_phase self = Ended (Ok ()) \<and> tx_sent (sp_sink (dp_left self)) = rx_delivered (sp_source (dp_left self))
    \<and> rx_delivered (sp_source (dp_left self)) = [1, 2, 3]"
proof -
  let ?l = "left_turn stream_source stream_sink 10 0 0" and ?r = "right_turn stream_source stream_sink 10 0 0"
  let ?step = "duplex_step stream_source stream_sink stream_source stream_sink 10"
  let ?p1 = "?l sample_pipe" and ?p2 = "?l (?l sample_pipe)" and ?p3 = "?r (?l (?l sample_pipe))"
  note eval = sample_pipe_def sample_rx_def sample_tx_def duplex_new_def simplex_new_def left_turn_def right_turn_def
    simplex_turn_def next_data_def forward_chunk_def forward_eof_def finish_eof_def stream_source_def
    stream_sink_def stream_rx_read_def stream_rx_consume_def stream_tx_write_def stream_tx_eof_def
    stream_tx_wait_writable_def stream_tx_flush_def end_defs
  have "dp_phase sample_pipe \<in> {Both, OnlyLeft}" "dp_phase ?p1 \<in> {Both, OnlyLeft}" "dp_phase ?p2 \<in> {Both, OnlyRight}"
    by (simp_all add: eval)
  note ph = this
  have steps: "?step sample_pipe ?p1" "?step ?p1 ?p2" "?step ?p2 ?p3"
    by (rule duplex_step.left [OF ph(1)], rule duplex_step.left [OF ph(2)], rule duplex_step.right [OF ph(3)])
  have reach: "?step\<^sup>*\<^sup>* sample_pipe ?p3"
    by (rule rtranclp.rtrancl_into_rtrancl [where r = ?step, OF rtranclp.rtrancl_into_rtrancl [where r = ?step,
          OF r_into_rtranclp [where r = ?step, OF steps(1)] steps(2)] steps(3)])
  have fin: "dp_phase ?p3 = Ended (Ok ())" "rx_delivered (sp_source (dp_left ?p3)) = [1, 2, 3]"
    by (simp_all add: eval)
  have "rx_delivered (sample_rx [[1, 2, 3]]) = [] \<and> rx_acked (sample_rx [[1, 2, 3]]) = 0 \<and> tx_sent (sample_tx [2, 5]) = []"
      "rx_delivered (sample_rx []) = [] \<and> rx_acked (sample_rx []) = 0 \<and> tx_sent (sample_tx []) = []"
    by (simp_all add: sample_rx_def sample_tx_def)
  from pipe_conserves_streams [OF stream_rx.lawful_source_axioms stream_tx.lawful_sink_axioms
      stream_rx.lawful_source_axioms stream_tx.lawful_sink_axioms this reach [unfolded sample_pipe_def]]
  show ?thesis
    using fin by (simp add: Let_def sample_pipe_def)
qed

text \<open>Every turn of the loop uses up an event of one of the two sockets.\<close>

definition turn_measure :: "(stream_rx, stream_tx) simplex_pipe \<Rightarrow> nat" where
  "turn_measure self = length (rx_events (sp_source self)) + length (tx_writable (sp_sink self))"

lemma read_buf_shorter: "read_buf events = (events', Ready r) \<Longrightarrow> length events' < length events"
  by (induction events rule: read_buf.induct) (auto split: if_splits)

lemma try_writes_writable:
  "stream_tx_write x data = (x', r) \<Longrightarrow> tx_writable x' = tx_writable x"
  by (auto simp: stream_tx_write_def split: if_splits prod.splits)

lemma next_data_measure:
  "next_data stream_source stream_sink self = (self', Ready (Inr d)) \<Longrightarrow> turn_measure self' < turn_measure self"
  by (auto simp: next_data_def turn_measure_def stream_source_def stream_sink_def stream_rx_read_def
      stream_tx_wait_writable_def stream_tx_flush_def dest!: read_buf_shorter
      split: prod.splits sum.splits poll.splits if_splits option.splits list.splits)

lemma forward_chunk_measure:
  "forward_chunk stream_source stream_sink b self = (self', r) \<Longrightarrow> r \<noteq> Waiting \<and> turn_measure self' = turn_measure self"
  by (auto simp: forward_chunk_def Let_def turn_measure_def stream_source_def stream_sink_def
      stream_rx_consume_def dest!: try_writes_writable split: prod.splits sum.splits)

lemma forward_eof_breaks: "\<exists>self' r. forward_eof stream_sink self = (self', Break r)"
  by (auto simp: forward_eof_def finish_eof_def stream_sink_def stream_tx_eof_def stream_tx_flush_def
      split: sum.splits)

lemma simplex_turn_measure:
  assumes "simplex_turn stream_source stream_sink now self = (self', r)"
  shows "r \<noteq> Waiting \<and> (r = Continue \<longrightarrow> turn_measure self' < turn_measure self)"
proof -
  let ?self = "self\<lparr>sp_last_activity := now\<rparr>"
  obtain self1 p where n: "next_data stream_source stream_sink ?self = (self1, p)"
    by fastforce
  have "turn_measure ?self = turn_measure self"
    by (simp add: turn_measure_def)
  then have "turn_measure self1 < turn_measure self" if "p = Ready (Inr d)" for d
    using next_data_measure [of ?self self1 d] n that by simp
  then show ?thesis
    using assms n forward_eof_breaks [of self1]
    by (auto simp: simplex_turn_def split: poll.splits sum.splits pipe_data.splits dest!: forward_chunk_measure)
qed

text \<open>C16: The relay loop between TCP sockets cannot spin. For every finite history of the two
  sockets, whatever they answer, \<open>exchange\<close> returns; when it returns without an error and without a
  timeout, everything that was read has been written and the write half was shut down.\<close>

theorem tcp_relay_returns:
  "\<exists>self' r. simplex_exchange stream_source stream_sink now self = Some (self', r) \<and>
    (conserved rx_delivered rx_acked tx_sent self \<and> r = Ok ExFinished \<longrightarrow>
       tx_sent (sp_sink self') = rx_delivered (sp_source self') \<and> tx_eof_pending (sp_sink self'))"
proof (induction self rule: measure_induct_rule [of turn_measure])
  case (less self)
  let ?now = "now (sp_source self) (sp_sink self)"
  obtain self1 t where turn: "simplex_turn stream_source stream_sink ?now self = (self1, t)"
    by fastforce
  have post: "conserved rx_delivered rx_acked tx_sent self
      \<Longrightarrow> turn_post rx_delivered rx_acked tx_sent tx_eof_pending (self1, t)"
    using stream_ends.simplex_turn_post [of self ?now] turn by simp
  note unfold = simplex_exchange.simps [of stream_source stream_sink now self] turn
  show ?case
  proof (cases t)
    case Continue
    then have "turn_measure self1 < turn_measure self"
      using simplex_turn_measure [OF turn] by simp
    from less.IH [OF this] show ?thesis
      using unfold post Continue by auto
  next
    case (Break r)
    then show ?thesis
      using unfold post by (auto simp: all_sent_def)
  next
    case Waiting
    then show ?thesis
      using simplex_turn_measure [OF turn] by simp
  qed
qed

theorem tcp_relay_returns_witness:
  "\<exists>self'. simplex_exchange stream_source stream_sink (\<lambda>_ _. 0)
      (simplex_new 0 (sample_rx [[1, 2, 3]]) (sample_tx [2, 5]) Outgoing) = Some (self', Ok ExFinished) \<and>
    tx_sent (sp_sink self') = rx_delivered (sp_source self') \<and> tx_eof_pending (sp_sink self')"
proof -
  let ?self = "simplex_new 0 (sample_rx [[1, 2, 3]]) (sample_tx [2, 5]) Outgoing"
  note eval = sample_rx_def sample_tx_def simplex_new_def
    simplex_turn_def next_data_def forward_chunk_def forward_eof_def finish_eof_def stream_source_def
    stream_sink_def stream_rx_read_def stream_rx_consume_def stream_tx_write_def stream_tx_eof_def
    stream_tx_wait_writable_def stream_tx_flush_def end_defs
  have c: "conserved rx_delivered rx_acked tx_sent ?self"
    by (simp add: conserved_def accounted_def pending_bytes_def simplex_new_def sample_rx_def sample_tx_def)
  let ?t = "simplex_turn stream_source stream_sink 0"
  have "snd (?t ?self) = Continue" "snd (?t (fst (?t ?self))) = Break (Ok ExFinished)"
    by (simp_all add: eval)
  then obtain self1 self2 where "?t ?self = (self1, Continue)" "?t self1 = (self2, Break (Ok ExFinished))"
    by (metis fst_conv prod.collapse)
  then have r: "simplex_exchange stream_source stream_sink (\<lambda>_ _. 0) ?self = Some (self2, Ok ExFinished)"
    by (simp add: simplex_exchange.simps [of _ _ _ ?self] simplex_exchange.simps [of _ _ _ self1])
  with tcp_relay_returns [of "\<lambda>_ _. 0" ?self] c show ?thesis
    by auto
qed


subsection \<open>The chosen address\<close>

text \<open>The reference: drop the addresses of an unavailable family, take the first acceptable one;
  without one, the host counts as loopback only when it has a single address, a loopback one.\<close>

definition usable :: "settings \<Rightarrow> socket_addr \<Rightarrow> bool" where
  "usable settings a \<longleftrightarrow> is_ipv6 (sa_ip a) \<longrightarrow> se_ipv6_available settings"

definition acceptable :: "bool \<Rightarrow> settings \<Rightarrow> socket_addr \<Rightarrow> bool" where
  "acceptable allow_private settings a \<longleftrightarrow>
    is_global_ip (sa_ip a) \<or> allow_private \<or> se_allow_private_network_connections settings"

lemma select_address_NonRoutable:
  "select_address v6 allow resolved (Some StNonRoutable) =
    (case find (\<lambda>a. is_global_ip (sa_ip a) \<or> allow) (filter (\<lambda>a. is_ipv6 (sa_ip a) \<longrightarrow> v6) resolved) of
       Some a \<Rightarrow> Some (StSuitable a) | None \<Rightarrow> Some StNonRoutable)"
  by (induction resolved) (auto simp: Let_def)

lemma select_address_Loopback:
  "select_address v6 allow resolved (Some StLoopback) =
    (case find (\<lambda>a. is_global_ip (sa_ip a) \<or> allow) (filter (\<lambda>a. is_ipv6 (sa_ip a) \<longrightarrow> v6) resolved) of
       Some a \<Rightarrow> Some (StSuitable a)
     | None \<Rightarrow> Some (if filter (\<lambda>a. is_ipv6 (sa_ip a) \<longrightarrow> v6) resolved = [] then StLoopback else StNonRoutable))"
  by (induction resolved) (auto simp: Let_def select_address_NonRoutable)

lemma select_address_None:
  "select_address v6 allow resolved None =
    (let candidates = filter (\<lambda>a. is_ipv6 (sa_ip a) \<longrightarrow> v6) resolved
     in case find (\<lambda>a. is_global_ip (sa_ip a) \<or> allow) candidates of
          Some a \<Rightarrow> Some (StSuitable a)
        | None \<Rightarrow> if candidates = [] then None
                  else if tl candidates = [] \<and> ip_is_loopback (sa_ip (hd candidates)) then Some StLoopback
                  else Some StNonRoutable)"
  by (induction resolved) (auto simp: Let_def select_address_NonRoutable select_address_Loopback)

lemma find_find: "find P xs = Some x \<Longrightarrow> P x \<and> x \<in> set xs"
  by (auto simp: find_Some_iff)

text \<open>C23: The address of a host name. With the resolver's answer, the endpoint connects to the first
  address of an available family that is global (or any, when private networks are allowed); when
  there is none, the client is told that the host is in a loopback or in a non-routable network, and
  the first of these only when the host has a single usable address.\<close>

theorem host_name_selection:
  "lookup_host (host @ '':'' @ show_nat (unat port)) = Ok resolved \<Longrightarrow>
   select_peer lookup_host allow_private settings (HostName host port) =
    (let candidates = filter (usable settings) resolved
     in case find (acceptable allow_private settings) candidates of
          Some a \<Rightarrow> Ok a
        | None \<Rightarrow>
            if candidates = [] then Err (CeIo (IoError Other ''Resolved to empty list''), None)
            else if tl candidates = [] \<and> ip_is_loopback (sa_ip (hd candidates)) then Err (CeDnsLoopback, None)
            else Err (CeDnsNonroutable, None))"
  by (simp add: select_peer_def select_address_None Let_def usable_def [abs_def] acceptable_def [abs_def]
      split: option.split)

definition localhost_lookup :: "string \<Rightarrow> (os_error, socket_addr list) result" where
  "localhost_lookup h =
    (if h = ''localhost:80'' then Ok [\<lparr>sa_ip = V4 0x7F000001, sa_port = 80\<rparr>, \<lparr>sa_ip = V6 1, sa_port = 80\<rparr>] else Ok [])"

theorem host_name_selection_witness:
  "localhost_lookup (''localhost'' @ '':'' @ show_nat (unat (80 :: u16))) =
      Ok [\<lparr>sa_ip = V4 0x7F000001, sa_port = 80\<rparr>, \<lparr>sa_ip = V6 1, sa_port = 80\<rparr>] \<and>
   select_peer localhost_lookup True settings_builder_new (HostName ''localhost'' 80) =
      Ok \<lparr>sa_ip = V4 0x7F000001, sa_port = 80\<rparr>"
proof -
  have 1: "localhost_lookup (''localhost'' @ '':'' @ show_nat (unat (80 :: u16))) =
      Ok [\<lparr>sa_ip = V4 0x7F000001, sa_port = 80\<rparr>, \<lparr>sa_ip = V6 1, sa_port = 80\<rparr>]"
    by code_simp
  show ?thesis
    using 1 host_name_selection [of localhost_lookup "''localhost''" 80 _ True settings_builder_new, OF 1]
    by (simp add: usable_def acceptable_def Let_def)
qed

lemma select_peer_global:
  assumes "select_peer lookup_host allow_private settings dest = Ok peer"
  shows "is_global_ip (sa_ip peer) \<or> allow_private \<or> se_allow_private_network_connections settings"
  using assms find_find [of _ _ peer]
  by (auto simp: select_peer_def select_address_None Let_def rbind_eq_Inr_iff
      split: tcp_destination.splits if_splits option.splits selection_status.splits dest!: find_find)

text \<open>C15: An outbound TCP connection goes to a public address. Whatever the client asks for and
  whatever the resolver answers, an address that the endpoint connects to is global unless the
  settings allow private networks or the destination comes from the configuration; a socket is
  counted exactly when the connection is established.\<close>

theorem tcp_connects_to_public_addresses:
  assumes "tcp_connect lookup_host connect settings self meta m = (m', r)"
  shows "(\<forall>peer. select_peer lookup_host (tf_allow_private_network self) settings (tm_destination meta) = Ok peer \<longrightarrow>
      is_global_ip (sa_ip peer) \<or> tf_allow_private_network self \<or> se_allow_private_network_connections settings)
    \<and> (case r of
        Inr stream \<Rightarrow> me_outbound_tcp_sockets m' = me_outbound_tcp_sockets m + 1 \<and>
          (\<exists>peer. select_peer lookup_host (tf_allow_private_network self) settings (tm_destination meta) = Ok peer
            \<and> connect peer = Ok stream)
      | Inl e \<Rightarrow> m' = m)"
proof -
  note global = select_peer_global [of lookup_host "tf_allow_private_network self" settings "tm_destination meta"]
  have counter: "drop_tcp_socket_counter (outbound_tcp_socket_counter m) = m"
      "me_outbound_tcp_sockets (outbound_tcp_socket_counter m) = me_outbound_tcp_sockets m + 1"
    by (simp_all add: drop_tcp_socket_counter_def outbound_tcp_socket_counter_def)
  show ?thesis
  proof (cases "select_peer lookup_host (tf_allow_private_network self) settings (tm_destination meta)")
    case (Inl e)
    then show ?thesis
      using assms by (auto simp: tcp_connect_def)
  next
    case (Inr peer)
    then show ?thesis
      using assms global [OF Inr]
      by (cases "connect peer") (auto simp: tcp_connect_def Let_def counter)
  qed
qed

definition sample_tcp_meta :: tcp_connection_meta where
  "sample_tcp_meta = \<lparr>tm_client_address = V4 1, tm_destination = Address \<lparr>sa_ip = V4 0x7F000001, sa_port = 80\<rparr>,
     tm_auth = None, tm_tls_domain = ''a'', tm_user_agent = None\<rparr>"

theorem tcp_connects_to_public_addresses_witness:
  "tcp_connect localhost_lookup (\<lambda>a. Ok (sa_port a)) settings_builder_new new_for_configured_destination sample_tcp_meta
      (metrics_new False) = (outbound_tcp_socket_counter (metrics_new False), Ok 80) \<and>
   me_outbound_tcp_sockets (outbound_tcp_socket_counter (metrics_new False)) = me_outbound_tcp_sockets (metrics_new False) + 1"
proof -
  have 1: "tcp_connect localhost_lookup (\<lambda>a. Ok (sa_port a)) settings_builder_new new_for_configured_destination
      sample_tcp_meta (metrics_new False) = (outbound_tcp_socket_counter (metrics_new False), Ok 80)"
    by (simp add: tcp_connect_def select_peer_def new_for_configured_destination_def sample_tcp_meta_def Let_def)
  then show ?thesis
    using tcp_connects_to_public_addresses [OF 1] by simp
qed

end
