(* ===== verification/Udp_Forwarder.thy ===== *)
theory Udp_Forwarder
  imports Datagram_Codec Metrics
begin

text \<open>
  The UDP multiplexer of the direct forwarder, \<^verbatim>\<open>lib/src/udp_forwarder.rs\<close>, and the interface it
  implements, \<open>UdpDatagramPipeShared\<close> of \<^verbatim>\<open>lib/src/forwarder.rs\<close>: one connected socket per pair of
  client address and destination. Sockets are opaque values; creating, reading and writing one gives a
  result that is an argument of the operation. The wake channel holds at most one message. The
  contract of the interface is the locale \<open>udp_shared\<close>.
\<close>

section \<open>The interface\<close>

text \<open>A \<open>dyn UdpDatagramPipeShared\<close>: its two methods over the state of the multiplexer.\<close>

record 'f udp_shared_ops =
  op_on_new_udp_connection :: "client_udp_meta \<Rightarrow> 'f \<Rightarrow> 'f \<times> (io_error, unit) result"
  op_on_connection_closed :: "udp_meta \<Rightarrow> 'f \<Rightarrow> 'f"

datatype read_status = Read udp_datagram | UdpClose udp_meta io_error

text \<open>\<open>opened f\<close> is the set of connections that hold a socket, by their client-oriented key.
  A failed call opens none; a close takes the server-oriented key and removes the connection.\<close>

locale udp_shared =
  fixes ops :: "'f udp_shared_ops" and opened :: "'f \<Rightarrow> udp_meta set"
  assumes new_ok: "op_on_new_udp_connection ops meta f = (f', Inr u) \<Longrightarrow> opened f' = insert (meta_from meta) (opened f)"
    and new_err: "op_on_new_udp_connection ops meta f = (f', Inl e) \<Longrightarrow> opened f' \<subseteq> opened f"
    and closed: "opened (op_on_connection_closed ops m f) = opened f - {reversed m}"

section \<open>The multiplexer\<close>

record 's udp_socket_entry =
  ue_socket :: 's
  ue_being_listened :: bool

text \<open>\<open>MultiplexerShared\<close> with the state of the two halves: the wake channel (whether a message is
  in it, whether the receiver lives), the closures to report, and \<open>mx_futures\<close>, the sockets that the
  running \<open>poll_events\<close> waits on, if it runs.\<close>

record 's multiplexer =
  mx_connections :: "udp_meta \<rightharpoonup> 's udp_socket_entry"
  mx_metrics :: metrics
  mx_wake :: bool
  mx_receiver :: bool
  mx_pending_closures :: "(udp_meta \<times> io_error) list"
  mx_futures :: "(udp_meta \<times> 's) set option"

definition make_multiplexer :: "metrics \<Rightarrow> 's multiplexer" where
  "make_multiplexer m = \<lparr>mx_connections = Map.empty, mx_metrics = m, mx_wake = False, mx_receiver = True,
     mx_pending_closures = [], mx_futures = None\<rparr>"

text \<open>Removing a connection drops the guard of its socket counter.\<close>

definition remove_connection :: "udp_meta \<Rightarrow> 's multiplexer \<Rightarrow> 's multiplexer" where
  "remove_connection meta self =
    (if mx_connections self meta = None then self
     else self\<lparr>mx_connections := (mx_connections self)(meta := None),
               mx_metrics := drop_udp_socket_counter (mx_metrics self)\<rparr>)"

definition on_new_udp_connection ::
  "settings \<Rightarrow> (socket_addr \<Rightarrow> (io_error, 's) result) \<Rightarrow> client_udp_meta \<Rightarrow> 's multiplexer
   \<Rightarrow> 's multiplexer \<times> (io_error, unit) result" where
  "on_new_udp_connection settings make_udp_socket meta self =
    (if \<not> se_allow_private_network_connections settings \<and> \<not> is_global_ip (sa_ip (cm_destination meta))
     then (self, Err (IoError PermissionDenied ''UDP destination is in a non-routable network''))
     else if mx_connections self (meta_from meta) \<noteq> None then (self, Err (IoError Other ''Already present''))
     else
       (let m = outbound_udp_socket_counter (mx_metrics self)
        in case make_udp_socket (cm_destination meta) of
             Inl e \<Rightarrow> (self\<lparr>mx_metrics := drop_udp_socket_counter m\<rparr>, Err e)
           | Inr socket \<Rightarrow>
               (self\<lparr>mx_connections := (mx_connections self)(meta_from meta \<mapsto>
                        \<lparr>ue_socket = socket, ue_being_listened = False\<rparr>), mx_metrics := m\<rparr>, Ok ())))"

definition on_connection_closed :: "udp_meta \<Rightarrow> 's multiplexer \<Rightarrow> 's multiplexer" where
  "on_connection_closed meta self = remove_connection (reversed meta) self"

definition direct_shared ::
  "settings \<Rightarrow> (socket_addr \<Rightarrow> (io_error, 's) result) \<Rightarrow> 's multiplexer udp_shared_ops" where
  "direct_shared settings make_udp_socket =
    \<lparr>op_on_new_udp_connection = on_new_udp_connection settings make_udp_socket,
     op_on_connection_closed = on_connection_closed\<rparr>"

subsection \<open>The source\<close>

definition on_socket_error :: "udp_meta \<Rightarrow> io_error \<Rightarrow> 's multiplexer \<Rightarrow> 's multiplexer" where
  "on_socket_error meta error self =
    (if mx_connections self meta = None then self
     else (remove_connection meta self)\<lparr>mx_pending_closures := mx_pending_closures self @ [(meta, error)]\<rparr>)"

text \<open>\<open>recv\<close> is what \<open>try_recv_buf\<close> of the socket returns; the buffer holds the largest payload.\<close>

definition read_pending_socket ::
  "('s \<Rightarrow> (io_error, bytes) result) \<Rightarrow> udp_meta \<Rightarrow> 's multiplexer \<Rightarrow> 's multiplexer \<times> read_status option" where
  "read_pending_socket recv meta self =
    (case mx_connections self meta of
       None \<Rightarrow> (self, None)
     | Some conn \<Rightarrow>
         (case recv (ue_socket conn) of
            Inr buffer \<Rightarrow> (self, Some (Read \<lparr>ud_meta = reversed meta, ud_payload = take MAX_UDP_PAYLOAD_SIZE buffer\<rparr>))
          | Inl (IoError kind message) \<Rightarrow>
              if kind = WouldBlock then (self, None)
              else (on_socket_error meta (IoError kind message) self, None)))"

text \<open>The start of \<open>poll_events\<close> takes the sockets to wait on, its end is one of these events.\<close>

datatype poll_event = PendingRead udp_meta | SocketError udp_meta io_error | Woken | WakeSenderDropped

definition poll_start :: "'s multiplexer \<Rightarrow> 's multiplexer" where
  "poll_start self =
    self\<lparr>mx_futures := Some {(meta, ue_socket conn) | meta conn. mx_connections self meta = Some conn}\<rparr>"

definition on_poll_event ::
  "('s \<Rightarrow> (io_error, bytes) result) \<Rightarrow> poll_event \<Rightarrow> 's multiplexer
   \<Rightarrow> 's multiplexer \<times> (io_error, read_status option) result" where
  "on_poll_event recv event self =
    (let self = self\<lparr>mx_futures := None\<rparr>
     in case event of
          PendingRead meta \<Rightarrow> (case read_pending_socket recv meta self of (self, r) \<Rightarrow> (self, Ok r))
        | SocketError meta io \<Rightarrow> (on_socket_error meta io self, Ok None)
        | Woken \<Rightarrow> (self\<lparr>mx_wake := False\<rparr>, Ok None)
        | WakeSenderDropped \<Rightarrow> (self, Err (IoError UnexpectedEof [])))"

text \<open>\<open>read\<close> over the events of its polls; an exhausted list is a poll in progress.\<close>

fun mux_read ::
  "('s \<Rightarrow> (io_error, bytes) result) \<Rightarrow> poll_event list \<Rightarrow> 's multiplexer
   \<Rightarrow> 's multiplexer \<times> (io_error, read_status) result poll" where
  "mux_read recv events self =
    (case mx_pending_closures self of
       (meta, error) # closures \<Rightarrow> (self\<lparr>mx_pending_closures := closures\<rparr>, Ready (Ok (UdpClose meta error)))
     | [] \<Rightarrow>
         (case events of
            [] \<Rightarrow> (poll_start self, Pending)
          | event # events \<Rightarrow>
              (case on_poll_event recv event (poll_start self) of
                 (self, Inl e) \<Rightarrow> (self, Ready (Err e))
               | (self, Inr (Some x)) \<Rightarrow> (self, Ready (Ok x))
               | (self, Inr None) \<Rightarrow> mux_read recv events self)))"

declare mux_read.simps [simp del]

text \<open>The rest of \<open>read\<close> from a running poll.\<close>

definition mux_resume ::
  "('s \<Rightarrow> (io_error, bytes) result) \<Rightarrow> poll_event \<Rightarrow> 's multiplexer
   \<Rightarrow> 's multiplexer \<times> (io_error, read_status) result poll" where
  "mux_resume recv event self =
    (case on_poll_event recv event self of
       (self, Inl e) \<Rightarrow> (self, Ready (Err e))
     | (self, Inr (Some x)) \<Rightarrow> (self, Ready (Ok x))
     | (self, Inr None) \<Rightarrow> mux_read recv [] self)"

subsection \<open>The sink\<close>

text \<open>\<open>write\<close> before and after it awaits the socket.\<close>

definition write_socket :: "client_udp_datagram \<Rightarrow> 's multiplexer \<Rightarrow> (io_error, 's) result" where
  "write_socket datagram self =
    (case mx_connections self (meta_from (cu_meta datagram)) of
       Some c \<Rightarrow> Ok (ue_socket c) | None \<Rightarrow> Err (IoError NotFound []))"

definition write_sent :: "client_udp_datagram \<Rightarrow> 's multiplexer \<Rightarrow> 's multiplexer \<times> (io_error, send_status) result" where
  "write_sent datagram self =
    (let meta = meta_from (cu_meta datagram)
     in case mx_connections self meta of
          None \<Rightarrow> (self, Ok Sent)
        | Some conn \<Rightarrow>
            if ue_being_listened conn then (self, Ok Sent)
            else if mx_receiver self
            then (self\<lparr>mx_wake := True,
                       mx_connections := (mx_connections self)(meta \<mapsto> conn\<lparr>ue_being_listened := True\<rparr>)\<rparr>, Ok Sent)
            else (self, Err (IoError Other ''Failed to wake up UDP listener task: channel closed'')))"

definition mux_write ::
  "('s \<Rightarrow> bytes \<Rightarrow> (io_error, unit) result) \<Rightarrow> client_udp_datagram \<Rightarrow> 's multiplexer
   \<Rightarrow> 's multiplexer \<times> (io_error, send_status) result" where
  "mux_write send datagram self =
    (case write_socket datagram self of
       Inl e \<Rightarrow> (self, Err e)
     | Inr socket \<Rightarrow>
         (case send socket (cu_payload datagram) of
            Inl e \<Rightarrow> (self, Err e)
          | Inr _ \<Rightarrow> write_sent datagram self))"

section \<open>The contract holds\<close>

lemma meta_from_simps [simp]:
  "um_source (meta_from m) = cm_source m" "um_destination (meta_from m) = cm_destination m"
  by (simp_all add: meta_from_def)

lemma reversed_simps [simp]:
  "um_source (reversed m) = um_destination m" "um_destination (reversed m) = um_source m"
  by (simp_all add: reversed_def)

lemma remove_connection_simps [simp]:
  "mx_connections (remove_connection meta self) = (mx_connections self)(meta := None)"
  "mx_wake (remove_connection meta self) = mx_wake self"
  "mx_receiver (remove_connection meta self) = mx_receiver self"
  "mx_pending_closures (remove_connection meta self) = mx_pending_closures self"
  "mx_futures (remove_connection meta self) = mx_futures self"
  by (auto simp: remove_connection_def)

definition mux_open :: "'s multiplexer \<Rightarrow> udp_meta set" where
  "mux_open self = dom (mx_connections self)"

interpretation direct: udp_shared "direct_shared settings make_udp_socket" mux_open
  by unfold_locales
    (auto simp: direct_shared_def on_new_udp_connection_def on_connection_closed_def mux_open_def Let_def
      split: if_splits sum.splits)

lemma mux_read_Nil:
  "mux_read recv [] self =
    (case mx_pending_closures self of
       (meta, error) # closures \<Rightarrow> (self\<lparr>mx_pending_closures := closures\<rparr>, Ready (Ok (UdpClose meta error)))
     | [] \<Rightarrow> (poll_start self, Pending))"
  by (simp add: mux_read.simps [of recv "[]"] split: list.split)

lemma mux_read_Cons:
  "mx_pending_closures self = [] \<Longrightarrow> on_poll_event recv event (poll_start self) = (self', Inr None) \<Longrightarrow>
    mux_read recv (event # events) self = mux_read recv events self'"
  by (subst mux_read.simps) simp

section \<open>Invariant\<close>

definition destination_allowed :: "settings \<Rightarrow> udp_meta \<Rightarrow> bool" where
  "destination_allowed settings meta \<longleftrightarrow>
    se_allow_private_network_connections settings \<or> is_global_ip (sa_ip (um_destination meta))"

text \<open>The sockets are counted, and lead to allowed destinations only. A running poll waits on open
  sockets; a socket that was written to is waited on, unless a wake-up is underway.\<close>

definition sockets_ok :: "settings \<Rightarrow> int \<Rightarrow> 's multiplexer \<Rightarrow> bool" where
  "sockets_ok settings base self \<longleftrightarrow>
    finite (mux_open self) \<and>
    me_outbound_udp_sockets (mx_metrics self) = base + int (card (mux_open self)) \<and>
    (\<forall>meta \<in> mux_open self. destination_allowed settings meta)"

definition polling_ok :: "'s multiplexer \<Rightarrow> bool" where
  "polling_ok self \<longleftrightarrow>
    (\<forall>waited. mx_futures self = Some waited \<longrightarrow>
      (\<forall>meta socket. (meta, socket) \<in> waited \<longrightarrow> map_option ue_socket (mx_connections self meta) = Some socket) \<and>
      (\<forall>meta conn. mx_connections self meta = Some conn \<and> ue_being_listened conn \<and> \<not> mx_wake self \<longrightarrow>
        (meta, ue_socket conn) \<in> waited))"

definition mux_inv :: "settings \<Rightarrow> int \<Rightarrow> 's multiplexer \<Rightarrow> bool" where
  "mux_inv settings base self \<longleftrightarrow>
    sockets_ok settings base self \<and> polling_ok self \<and> mx_pending_closures self = []"

lemma mux_inv_new: "mux_inv settings (me_outbound_udp_sockets m) (make_multiplexer m)"
  by (simp add: mux_inv_def sockets_ok_def polling_ok_def make_multiplexer_def mux_open_def)

lemma mux_open_simps [simp]:
  "mux_open (self\<lparr>mx_metrics := m\<rparr>) = mux_open self"
  "mux_open (self\<lparr>mx_wake := w\<rparr>) = mux_open self"
  "mux_open (self\<lparr>mx_futures := f\<rparr>) = mux_open self"
  "mux_open (self\<lparr>mx_pending_closures := c\<rparr>) = mux_open self"
  "mux_open (poll_start self) = mux_open self"
  "mux_open (remove_connection meta self) = mux_open self - {meta}"
  by (auto simp: mux_open_def poll_start_def)

lemma sockets_ok_simps [simp]:
  "sockets_ok settings base (self\<lparr>mx_wake := w\<rparr>) = sockets_ok settings base self"
  "sockets_ok settings base (self\<lparr>mx_futures := f\<rparr>) = sockets_ok settings base self"
  "sockets_ok settings base (self\<lparr>mx_pending_closures := c\<rparr>) = sockets_ok settings base self"
  "sockets_ok settings base (poll_start self) = sockets_ok settings base self"
  by (auto simp: sockets_ok_def poll_start_def)

lemma polling_ok_None [simp]: "mx_futures self = None \<Longrightarrow> polling_ok self"
  by (simp add: polling_ok_def)

lemma polling_ok_poll_start [simp]: "polling_ok (poll_start self)"
  by (auto simp: polling_ok_def poll_start_def)

lemma sockets_ok_remove:
  assumes "sockets_ok settings base self"
  shows "sockets_ok settings base (remove_connection meta self)"
proof (cases "mx_connections self meta")
  case (Some conn)
  then have "meta \<in> mux_open self"
    by (auto simp: mux_open_def)
  then have "int (card (mux_open self - {meta})) = int (card (mux_open self)) - 1"
    using assms by (auto simp: sockets_ok_def card_Diff_singleton int_ops(6) card_gt_0_iff Suc_leI)
  then show ?thesis
    using assms Some by (auto simp: sockets_ok_def remove_connection_def drop_udp_socket_counter_def mux_open_def dom_fun_upd)
qed (use assms in \<open>simp add: remove_connection_def\<close>)

lemma mux_inv_on_connection_closed:
  "mux_inv settings base self \<Longrightarrow> mx_futures self = None \<Longrightarrow> mux_inv settings base (on_connection_closed meta self)"
  by (simp add: mux_inv_def on_connection_closed_def sockets_ok_remove)

lemma mux_inv_on_new_udp_connection:
  assumes "mux_inv settings base self" "on_new_udp_connection settings make_udp_socket meta self = (self', r)"
  shows "mux_inv settings base self' \<and> mx_futures self' = mx_futures self"
proof (cases "r = Inr ()")
  case True
  then obtain socket where new: "destination_allowed settings (meta_from meta)" "mx_connections self (meta_from meta) = None"
      "self' = self\<lparr>mx_connections := (mx_connections self)(meta_from meta \<mapsto> \<lparr>ue_socket = socket, ue_being_listened = False\<rparr>),
        mx_metrics := outbound_udp_socket_counter (mx_metrics self)\<rparr>"
    using assms(2) by (auto simp: on_new_udp_connection_def destination_allowed_def Let_def split: if_splits sum.splits)
  then have "meta_from meta \<notin> mux_open self" and o: "mux_open self' = insert (meta_from meta) (mux_open self)"
    by (auto simp: mux_open_def)
  then have "sockets_ok settings base self'"
    using assms(1) new by (auto simp: mux_inv_def sockets_ok_def outbound_udp_socket_counter_def)
  moreover have "polling_ok self'"
    using assms(1) new by (fastforce simp: mux_inv_def polling_ok_def)
  ultimately show ?thesis
    using assms(1) new by (simp add: mux_inv_def)
next
  case False
  then have "self' = self"
    using assms(2)
    by (auto simp: on_new_udp_connection_def Let_def drop_udp_socket_counter_def outbound_udp_socket_counter_def
        split: if_splits sum.splits)
  then show ?thesis
    using assms(1) by simp
qed

lemma mux_inv_write_sent:
  assumes "mux_inv settings base self" "write_sent datagram self = (self', r)"
  shows "mux_inv settings base self' \<and> mux_open self' = mux_open self"
proof (cases "self' = self")
  case False
  then obtain conn where *: "mx_connections self (meta_from (cu_meta datagram)) = Some conn"
      "self' = self\<lparr>mx_wake := True, mx_connections := (mx_connections self)
        (meta_from (cu_meta datagram) \<mapsto> conn\<lparr>ue_being_listened := True\<rparr>)\<rparr>"
    using assms(2) by (auto simp: write_sent_def Let_def split: option.splits if_splits)
  then have "mux_open self' = mux_open self"
    by (auto simp: mux_open_def)
  moreover have "polling_ok self'"
    using assms(1) * by (fastforce simp: mux_inv_def polling_ok_def)
  ultimately show ?thesis
    using assms(1) * by (simp add: mux_inv_def sockets_ok_def)
qed (use assms in simp)

lemma mux_inv_mux_read_Nil:
  assumes "mux_inv settings base self" "mux_read recv [] self = (self', r)"
  shows "mux_inv settings base self' \<and> r = Pending \<and> mux_open self' = mux_open self"
  using assms by (auto simp: mux_inv_def mux_read_Nil, simp add: poll_start_def)

text \<open>What the end of a poll does: an error ends the source, a datagram comes from an open
  connection, a connection that is reported closed holds no socket any more.\<close>

lemma mux_inv_mux_resume:
  assumes inv: "mux_inv settings base self" and r: "mux_resume recv event self = (self', r)"
  shows "mux_inv settings base self' \<and> mux_open self' \<subseteq> mux_open self \<and>
    (case r of
       Pending \<Rightarrow> True
     | Ready (Inl e) \<Rightarrow> event = WakeSenderDropped
     | Ready (Inr (Read d)) \<Rightarrow> reversed (ud_meta d) \<in> mux_open self' \<and> mx_futures self' = None
     | Ready (Inr (UdpClose meta e)) \<Rightarrow> meta \<notin> mux_open self' \<and> mx_futures self' = None)"
proof -
  let ?self = "self\<lparr>mx_futures := None\<rparr>"
  have idle: "mux_inv settings base ?self"
    using inv by (simp add: mux_inv_def)
  have error: "mux_read recv [] (on_socket_error meta e ?self) =
      (if meta \<in> mux_open self then (remove_connection meta ?self, Ready (Ok (UdpClose meta e)))
       else (poll_start ?self, Pending))" for meta e
    using inv by (auto simp: mux_read_Nil on_socket_error_def mux_inv_def mux_open_def)
  have removed: "mux_inv settings base (remove_connection meta ?self)" for meta
    using inv by (simp add: mux_inv_def sockets_ok_remove)
  have start: "mux_inv settings base (poll_start (self\<lparr>mx_futures := None, mx_wake := w\<rparr>))"
      "mux_inv settings base (poll_start ?self)" for w
    using inv by (simp_all add: mux_inv_def, simp_all add: poll_start_def)
  have again: "mux_read recv [] ?self = (poll_start ?self, Pending)"
      "mux_read recv [] (self\<lparr>mx_futures := None, mx_wake := w\<rparr>) =
        (poll_start (self\<lparr>mx_futures := None, mx_wake := w\<rparr>), Pending)" for w
    using inv by (simp_all add: mux_inv_def mux_read_Nil)
  note defs = mux_resume_def on_poll_event_def Let_def
  show ?thesis
  proof (cases event)
    case (PendingRead meta)
    show ?thesis
    proof (cases "mx_connections self meta")
      case None
      then show ?thesis
        using r start by (auto simp: PendingRead defs read_pending_socket_def again)
    next
      case (Some conn)
      then have "meta \<in> mux_open self"
        by (auto simp: mux_open_def)
      then show ?thesis
        using r start Some idle error [of meta] removed [of meta]
        by (cases "recv (ue_socket conn)")
          (auto simp: PendingRead defs read_pending_socket_def again split: io_error.splits if_splits)
    qed
  next
    case (SocketError meta e)
    then show ?thesis
      using r start removed [of meta] by (auto simp: defs error split: if_splits)
  next
    case Woken
    then show ?thesis
      using r start by (auto simp: defs again)
  next
    case WakeSenderDropped
    then show ?thesis
      using r idle by (auto simp: defs)
  qed
qed

end
