(* ===== verification/Udp_Pipe.thy ===== *)
theory Udp_Pipe
  imports Udp_Forwarder
begin

text \<open>
  The UDP pipe of a tunnel, \<^verbatim>\<open>lib/src/udp_pipe.rs\<close>: it keeps an entry with the time of the last packet
  for every connection, opens and closes the connections of the forwarder behind it, and closes idle
  ones on a timer. The forwarder is a parameter (its state and its operations), so the same pipe runs
  over the direct multiplexer and over the SOCKS5 one. Instants are integers. The turns of the two
  loops and the timer interleave in the step relation \<open>pipe_step\<close>, for the direct multiplexer.
\<close>

section \<open>State\<close>

record udp_connection =
  uc_last_activity :: int
  uc_plain_dns_info :: "nat option"
  uc_log_id :: id_chain

datatype udp_connection_status = StContinue | StDone

text \<open>\<open>DuplexPipe\<close> with the shared state of its halves; \<open>up_updates\<close> records the calls of
  \<open>update_metrics\<close>.\<close>

record 'f udp_pipe =
  up_connections :: "udp_meta \<rightharpoonup> udp_connection"
  up_forwarder :: 'f
  up_source_id :: id_chain
  up_next_connection_id :: u64
  up_updates :: "(simplex_direction \<times> nat) list"
  up_timeout :: int

definition udp_pipe_new :: "id_chain \<Rightarrow> 'f \<Rightarrow> int \<Rightarrow> 'f udp_pipe" where
  "udp_pipe_new source_id fwd timeout =
    \<lparr>up_connections = Map.empty, up_forwarder = fwd, up_source_id = source_id, up_next_connection_id = 0,
     up_updates = [], up_timeout = timeout\<rparr>"

section \<open>Connections\<close>

definition register_outgoing_packet :: "int \<Rightarrow> udp_connection \<Rightarrow> udp_connection" where
  "register_outgoing_packet now self =
    self\<lparr>uc_last_activity := now,
         uc_plain_dns_info := map_option (\<lambda>pending_queries. pending_queries + 1) (uc_plain_dns_info self)\<rparr>"

definition register_incoming_packet :: "int \<Rightarrow> udp_connection \<Rightarrow> udp_connection \<times> udp_connection_status" where
  "register_incoming_packet now self =
    (let self = self\<lparr>uc_last_activity := now\<rparr>
     in case uc_plain_dns_info self of
          None \<Rightarrow> (self, StContinue)
        | Some pending_queries \<Rightarrow>
            let pending_queries = pending_queries - 1
            in (self\<lparr>uc_plain_dns_info := Some pending_queries\<rparr>,
                if pending_queries = 0 then StDone else StContinue))"

section \<open>From the client\<close>

definition touch_outgoing :: "int \<Rightarrow> udp_meta \<Rightarrow> 'f udp_pipe \<Rightarrow> 'f udp_pipe" where
  "touch_outgoing now meta self =
    (case up_connections self meta of
       None \<Rightarrow> self
     | Some conn \<Rightarrow>
         self\<lparr>up_connections := (up_connections self)(meta \<mapsto> register_outgoing_packet now conn)\<rparr>)"

definition left_on_udp_packet ::
  "'f udp_shared_ops \<Rightarrow> int \<Rightarrow> client_udp_meta \<Rightarrow> 'f udp_pipe \<Rightarrow> 'f udp_pipe \<times> (io_error, unit) result" where
  "left_on_udp_packet ops now meta self =
    (if up_connections self (meta_from meta) \<noteq> None then (touch_outgoing now (meta_from meta) self, Ok ())
     else
       (let is_plain_dns = (sa_port (cm_destination meta) = PLAIN_DNS_PORT_NUMBER);
            conn = \<lparr>uc_last_activity = now, uc_plain_dns_info = (if is_plain_dns then Some 0 else None),
                    uc_log_id = extended (up_source_id self) (CONNECTION_ID_FMT, up_next_connection_id self)\<rparr>;
            self = self\<lparr>up_connections := (up_connections self)(meta_from meta \<mapsto> conn),
                        up_next_connection_id := up_next_connection_id self + 1\<rparr>
        in case op_on_new_udp_connection ops meta (up_forwarder self) of
             (fwd, Inl e) \<Rightarrow> (self\<lparr>up_forwarder := fwd\<rparr>, Err e)
           | (fwd, Inr _) \<Rightarrow> (touch_outgoing now (meta_from meta) (self\<lparr>up_forwarder := fwd\<rparr>), Ok ())))"

text \<open>One turn of \<open>LeftPipe::exchange\<close> after a datagram was read: a datagram whose connection cannot
  be opened is dropped; an error of the sink ends the loop.\<close>

definition left_finish ::
  "client_udp_datagram \<Rightarrow> 'f \<times> (io_error, send_status) result \<Rightarrow> 'f udp_pipe \<Rightarrow> 'f udp_pipe \<times> (io_error, unit) result" where
  "left_finish datagram w self =
    (case w of
       (fwd, Inl e) \<Rightarrow> (self\<lparr>up_forwarder := fwd\<rparr>, Err e)
     | (fwd, Inr Sent) \<Rightarrow>
         (self\<lparr>up_forwarder := fwd, up_updates := up_updates self @ [(Outgoing, length (cu_payload datagram))]\<rparr>, Ok ())
     | (fwd, Inr Dropped) \<Rightarrow> (self\<lparr>up_forwarder := fwd\<rparr>, Ok ()))"

definition left_exchange ::
  "'f udp_shared_ops \<Rightarrow> (client_udp_datagram \<Rightarrow> 'f \<Rightarrow> 'f \<times> (io_error, send_status) result) \<Rightarrow> int
   \<Rightarrow> client_udp_datagram \<Rightarrow> 'f udp_pipe \<Rightarrow> 'f udp_pipe \<times> (io_error, unit) result" where
  "left_exchange ops write now datagram self =
    (case left_on_udp_packet ops now (cu_meta datagram) self of
       (self, Inl e) \<Rightarrow> (self, Ok ())
     | (self, Inr _) \<Rightarrow> left_finish datagram (write datagram (up_forwarder self)) self)"

section \<open>To the client\<close>

definition right_on_udp_packet :: "int \<Rightarrow> udp_meta \<Rightarrow> 'f udp_pipe \<Rightarrow> 'f udp_pipe \<times> udp_connection_status" where
  "right_on_udp_packet now meta self =
    (case up_connections self meta of
       None \<Rightarrow> (self, StContinue)
     | Some conn \<Rightarrow>
         (case register_incoming_packet now conn of
            (conn, status) \<Rightarrow> (self\<lparr>up_connections := (up_connections self)(meta \<mapsto> conn)\<rparr>, status)))"

text \<open>One turn of \<open>RightPipe::exchange\<close>: what it does with a closed connection, and with a datagram
  once the client's sink answered.\<close>

definition right_closed :: "udp_meta \<Rightarrow> 'f udp_pipe \<Rightarrow> 'f udp_pipe" where
  "right_closed meta self = self\<lparr>up_connections := (up_connections self)(meta := None)\<rparr>"

definition right_delivered ::
  "'f udp_shared_ops \<Rightarrow> int \<Rightarrow> udp_datagram \<Rightarrow> (io_error, send_status) result \<Rightarrow> 'f udp_pipe
   \<Rightarrow> 'f udp_pipe \<times> (io_error, unit) result" where
  "right_delivered ops now datagram w self =
    (case w of
       Inl e \<Rightarrow> (self, Err e)
     | Inr status \<Rightarrow>
         (let meta = ud_meta datagram;
              self = (if status = Sent
                then self\<lparr>up_updates := up_updates self @ [(Incoming, length (ud_payload datagram))]\<rparr> else self)
          in case right_on_udp_packet now (reversed meta) self of
               (self, StContinue) \<Rightarrow> (self, Ok ())
             | (self, StDone) \<Rightarrow>
                 (self\<lparr>up_connections := (up_connections self)(reversed meta := None),
                       up_forwarder := op_on_connection_closed ops meta (up_forwarder self)\<rparr>, Ok ())))"

definition right_exchange ::
  "'f udp_shared_ops \<Rightarrow> int \<Rightarrow> read_status \<Rightarrow> (io_error, send_status) result \<Rightarrow> 'f udp_pipe
   \<Rightarrow> 'f udp_pipe \<times> (io_error, unit) result" where
  "right_exchange ops now r w self =
    (case r of
       UdpClose meta e \<Rightarrow> (right_closed meta self, Ok ())
     | Read datagram \<Rightarrow> right_delivered ops now datagram w self)"

section \<open>The timer\<close>

definition expired :: "int \<Rightarrow> 'f udp_pipe \<Rightarrow> udp_meta set" where
  "expired now self =
    {meta. \<exists>conn. up_connections self meta = Some conn \<and> uc_last_activity conn < now - up_timeout self}"

text \<open>\<open>on_timer_tick\<close>, over the expired connections in the order of the hash map.\<close>

fun close_expired :: "'f udp_shared_ops \<Rightarrow> udp_meta list \<Rightarrow> 'f udp_pipe \<Rightarrow> 'f udp_pipe" where
  "close_expired ops [] self = self"
| "close_expired ops (meta # metas) self =
    close_expired ops metas
      (self\<lparr>up_connections := (up_connections self)(meta := None),
            up_forwarder := op_on_connection_closed ops (reversed meta) (up_forwarder self)\<rparr>)"

definition on_timer_tick ::
  "(udp_meta set \<Rightarrow> udp_meta list) \<Rightarrow> 'f udp_shared_ops \<Rightarrow> int \<Rightarrow> 'f udp_pipe \<Rightarrow> 'f udp_pipe" where
  "on_timer_tick map_order ops now self = close_expired ops (map_order (expired now self)) self"

section \<open>Tracked connections\<close>

definition known :: "'f udp_pipe \<Rightarrow> udp_meta set" where
  "known self = dom (up_connections self)"

text \<open>Every connection that holds a socket has an entry in the pipe.\<close>

definition tracked :: "('f \<Rightarrow> udp_meta set) \<Rightarrow> 'f udp_pipe \<Rightarrow> bool" where
  "tracked opened self \<longleftrightarrow> opened (up_forwarder self) \<subseteq> known self"

lemma known_simps [simp]:
  "known (self\<lparr>up_connections := (up_connections s)(m \<mapsto> x)\<rparr>) = insert m (known s)"
  "known (self\<lparr>up_connections := (up_connections s)(m := None)\<rparr>) = known s - {m}"
  "known (self\<lparr>up_forwarder := f\<rparr>) = known self"
  "known (self\<lparr>up_updates := u\<rparr>) = known self"
  "known (self\<lparr>up_next_connection_id := n\<rparr>) = known self"
  by (simp_all add: known_def)

lemma touch_outgoing_simps [simp]:
  "up_forwarder (touch_outgoing now meta self) = up_forwarder self"
  "known (touch_outgoing now meta self) = known self"
  "up_timeout (touch_outgoing now meta self) = up_timeout self"
  by (auto simp: touch_outgoing_def known_def split: option.splits)

lemma right_on_udp_packet_simps:
  assumes "right_on_udp_packet now meta self = (self', status)"
  shows "up_forwarder self' = up_forwarder self" "known self' = known self"
  using assms by (auto simp: right_on_udp_packet_def known_def split: option.splits prod.splits if_splits)

context udp_shared
begin

lemma tracked_left_on_udp_packet:
  assumes "tracked opened self" "left_on_udp_packet ops now meta self = (self', r)"
  shows "tracked opened self'"
proof (cases "up_connections self (meta_from meta)")
  case None
  obtain f q where "op_on_new_udp_connection ops meta (up_forwarder self) = (f, q)"
    by fastforce
  note new = this
  then have "opened f \<subseteq> insert (meta_from meta) (known self)"
    using assms(1) new_ok [of meta "up_forwarder self" f] new_err [of meta "up_forwarder self" f]
    by (cases q) (auto simp: tracked_def)
  then show ?thesis
    using assms(2) None new
    by (cases q) (auto simp: left_on_udp_packet_def tracked_def Let_def simp del: fun_upd_apply)
qed (use assms in \<open>auto simp: left_on_udp_packet_def tracked_def\<close>)

lemma tracked_right_delivered:
  assumes "tracked opened self" "right_delivered ops now datagram w self = (self', r)"
  shows "tracked opened self'"
proof (cases w)
  case (Inr status)
  let ?self = "if status = Sent then self\<lparr>up_updates := up_updates self @ [(Incoming, length (ud_payload datagram))]\<rparr> else self"
  obtain self1 st where p: "right_on_udp_packet now (reversed (ud_meta datagram)) ?self = (self1, st)"
    by fastforce
  have "up_forwarder self1 = up_forwarder self" "known self1 = known self"
    using right_on_udp_packet_simps [OF p] by simp_all
  then show ?thesis
    using assms Inr p closed [of "ud_meta datagram" "up_forwarder self"]
    by (cases st) (auto simp: right_delivered_def tracked_def Let_def)
qed (use assms in \<open>simp add: right_delivered_def\<close>)

lemma close_expired_opened:
  "opened (up_forwarder (close_expired ops metas self)) = opened (up_forwarder self) - set metas"
  by (induction metas arbitrary: self) (auto simp: closed)

lemma close_expired_connections:
  "up_connections (close_expired ops metas self) = (up_connections self) |` (- set metas)"
  by (induction metas arbitrary: self) (auto simp: restrict_map_def fun_eq_iff)

lemma tracked_timer_tick:
  assumes "tracked opened self"
  shows "tracked opened (on_timer_tick map_order ops now self)"
  using assms by (auto simp: on_timer_tick_def tracked_def known_def close_expired_opened close_expired_connections)

text \<open>After a tick, a socket that is still open had a packet within the timeout.\<close>

lemma timer_tick_closes_idle:
  assumes "tracked opened self" "set (map_order (expired now self)) = expired now self"
    and "meta \<in> opened (up_forwarder (on_timer_tick map_order ops now self))"
  shows "\<exists>conn. up_connections self meta = Some conn \<and> now - up_timeout self \<le> uc_last_activity conn"
proof -
  have "meta \<in> known self" "meta \<notin> expired now self"
    using assms by (auto simp: on_timer_tick_def tracked_def close_expired_opened)
  then show ?thesis
    by (auto simp: known_def expired_def linorder_not_less)
qed

end


section \<open>Runs over the direct multiplexer\<close>

text \<open>Where the two loops stand: the left one waits for a datagram of the client or for the socket,
  the right one for the multiplexer or for the client's sink. An error ends the run.\<close>

datatype 's left_state = LReading | LSending client_udp_datagram 's
datatype right_state = RReading | RWriting udp_datagram

record 's pipe_run =
  ru_pipe :: "'s multiplexer udp_pipe"
  ru_left :: "'s left_state"
  ru_right :: right_state
  ru_error :: "io_error option"

text \<open>The datagram is looked up in the multiplexer as soon as its connection is known.\<close>

definition left_read ::
  "'s multiplexer udp_shared_ops \<Rightarrow> int \<Rightarrow> client_udp_datagram \<Rightarrow> 's pipe_run \<Rightarrow> 's pipe_run" where
  "left_read ops now d self =
    (case left_on_udp_packet ops now (cu_meta d) (ru_pipe self) of
       (pipe, Inl e) \<Rightarrow> self\<lparr>ru_pipe := pipe\<rparr>
     | (pipe, Inr _) \<Rightarrow>
         (case write_socket d (up_forwarder pipe) of
            Inl e \<Rightarrow> self\<lparr>ru_pipe := pipe, ru_error := Some e\<rparr>
          | Inr s \<Rightarrow> self\<lparr>ru_pipe := pipe, ru_left := LSending d s\<rparr>))"

definition left_sent ::
  "client_udp_datagram \<Rightarrow> (io_error, unit) result \<Rightarrow> 's pipe_run \<Rightarrow> 's pipe_run" where
  "left_sent d sent self =
    (case sent of
       Inl e \<Rightarrow> self\<lparr>ru_error := Some e\<rparr>
     | Inr _ \<Rightarrow>
         (case left_finish d (write_sent d (up_forwarder (ru_pipe self))) (ru_pipe self) of
            (pipe, Inl e) \<Rightarrow> self\<lparr>ru_pipe := pipe, ru_error := Some e\<rparr>
          | (pipe, Inr _) \<Rightarrow> self\<lparr>ru_pipe := pipe, ru_left := LReading\<rparr>))"

definition right_read ::
  "'s multiplexer \<times> (io_error, read_status) result poll \<Rightarrow> 's pipe_run \<Rightarrow> 's pipe_run" where
  "right_read m self =
    (let pipe = (ru_pipe self)\<lparr>up_forwarder := fst m\<rparr>
     in case snd m of
          Pending \<Rightarrow> self\<lparr>ru_pipe := pipe\<rparr>
        | Ready (Inl e) \<Rightarrow> self\<lparr>ru_pipe := pipe, ru_error := Some e\<rparr>
        | Ready (Inr (Read d)) \<Rightarrow> self\<lparr>ru_pipe := pipe, ru_right := RWriting d\<rparr>
        | Ready (Inr (UdpClose meta e)) \<Rightarrow> self\<lparr>ru_pipe := right_closed meta pipe\<rparr>)"

definition right_written ::
  "'s multiplexer udp_shared_ops \<Rightarrow> int \<Rightarrow> udp_datagram \<Rightarrow> (io_error, send_status) result \<Rightarrow> 's pipe_run \<Rightarrow> 's pipe_run" where
  "right_written ops now d w self =
    (case right_delivered ops now d w (ru_pipe self) of
       (pipe, Inl e) \<Rightarrow> self\<lparr>ru_pipe := pipe, ru_error := Some e\<rparr>
     | (pipe, Inr _) \<Rightarrow> self\<lparr>ru_pipe := pipe, ru_right := RReading\<rparr>)"

text \<open>A tick drops the futures of both loops, which start again.\<close>

definition tick ::
  "(udp_meta set \<Rightarrow> udp_meta list) \<Rightarrow> 's multiplexer udp_shared_ops \<Rightarrow> int \<Rightarrow> 's pipe_run \<Rightarrow> 's pipe_run" where
  "tick map_order ops now self =
    (let pipe = ru_pipe self;
         pipe = pipe\<lparr>up_forwarder := (up_forwarder pipe)\<lparr>mx_futures := None\<rparr>\<rparr>
     in self\<lparr>ru_pipe := on_timer_tick map_order ops now pipe, ru_left := LReading, ru_right := RReading\<rparr>)"

text \<open>A poll ends with an event of a socket it waits on, or with the wake-up.\<close>

definition enabled :: "'s multiplexer \<Rightarrow> poll_event \<Rightarrow> bool" where
  "enabled self event \<longleftrightarrow>
    (case (mx_futures self, event) of
       (Some waited, PendingRead meta) \<Rightarrow> meta \<in> fst ` waited
     | (Some waited, SocketError meta e) \<Rightarrow> meta \<in> fst ` waited
     | (Some waited, Woken) \<Rightarrow> mx_wake self
     | _ \<Rightarrow> False)"

inductive pipe_step ::
  "settings \<Rightarrow> (socket_addr \<Rightarrow> (io_error, 's) result) \<Rightarrow> (udp_meta set \<Rightarrow> udp_meta list)
   \<Rightarrow> 's pipe_run \<Rightarrow> 's pipe_run \<Rightarrow> bool"
  for settings make_udp_socket map_order where
  left_read: "ru_error self = None \<Longrightarrow> ru_left self = LReading
    \<Longrightarrow> pipe_step settings make_udp_socket map_order self (left_read (direct_shared settings make_udp_socket) now d self)"
| left_sent: "ru_error self = None \<Longrightarrow> ru_left self = LSending d s
    \<Longrightarrow> pipe_step settings make_udp_socket map_order self (left_sent d sent self)"
| right_start: "ru_error self = None \<Longrightarrow> ru_right self = RReading \<Longrightarrow> mx_futures (up_forwarder (ru_pipe self)) = None
    \<Longrightarrow> pipe_step settings make_udp_socket map_order self (right_read (mux_read recv [] (up_forwarder (ru_pipe self))) self)"
| right_event: "ru_error self = None \<Longrightarrow> ru_right self = RReading \<Longrightarrow> enabled (up_forwarder (ru_pipe self)) event
    \<Longrightarrow> pipe_step settings make_udp_socket map_order self
      (right_read (mux_resume recv event (up_forwarder (ru_pipe self))) self)"
| right_written: "ru_error self = None \<Longrightarrow> ru_right self = RWriting d
    \<Longrightarrow> pipe_step settings make_udp_socket map_order self (right_written (direct_shared settings make_udp_socket) now d w self)"
| tick: "ru_error self = None
    \<Longrightarrow> pipe_step settings make_udp_socket map_order self (tick map_order (direct_shared settings make_udp_socket) now self)"

definition run_start :: "id_chain \<Rightarrow> metrics \<Rightarrow> int \<Rightarrow> 's pipe_run" where
  "run_start source_id m timeout =
    \<lparr>ru_pipe = udp_pipe_new source_id (make_multiplexer m) timeout, ru_left = LReading, ru_right = RReading,
     ru_error = None\<rparr>"

section \<open>The invariant of a run\<close>

definition run_inv :: "settings \<Rightarrow> int \<Rightarrow> 's pipe_run \<Rightarrow> bool" where
  "run_inv settings base self \<longleftrightarrow>
    (let mux = up_forwarder (ru_pipe self)
     in mux_inv settings base mux \<and> tracked mux_open (ru_pipe self) \<and>
        (case ru_right self of
           RReading \<Rightarrow> True
         | RWriting d \<Rightarrow> mx_futures mux = None \<and> reversed (ud_meta d) \<in> mux_open mux))"

lemma run_inv_start: "run_inv settings (me_outbound_udp_sockets m) (run_start source_id m timeout)"
  using mux_inv_new [of settings m]
  by (simp add: run_inv_def run_start_def udp_pipe_new_def tracked_def mux_open_def make_multiplexer_def)

lemma direct_shared_simps [simp]:
  "op_on_new_udp_connection (direct_shared settings mk) = on_new_udp_connection settings mk"
  "op_on_connection_closed (direct_shared settings mk) = on_connection_closed"
  by (simp_all add: direct_shared_def)

lemma left_on_udp_packet_mux:
  assumes "left_on_udp_packet (direct_shared settings mk) now meta self = (self', r)"
    and "mux_inv settings base (up_forwarder self)"
  shows "mux_inv settings base (up_forwarder self') \<and> mx_futures (up_forwarder self') = mx_futures (up_forwarder self)
    \<and> mux_open (up_forwarder self) \<subseteq> mux_open (up_forwarder self')"
proof (cases "up_connections self (meta_from meta)")
  case None
  obtain f q where new: "on_new_udp_connection settings mk meta (up_forwarder self) = (f, q)"
    by fastforce
  have "mux_open (up_forwarder self) \<subseteq> mux_open f"
    using new by (auto simp: on_new_udp_connection_def mux_open_def Let_def split: if_splits sum.splits)
  then show ?thesis
    using assms None new mux_inv_on_new_udp_connection [OF assms(2) new]
    by (cases q) (auto simp: left_on_udp_packet_def Let_def)
qed (use assms in \<open>auto simp: left_on_udp_packet_def\<close>)

lemma tracked_cong:
  "tracked opened self \<Longrightarrow> opened (up_forwarder self') \<subseteq> opened (up_forwarder self) \<Longrightarrow> known self' = known self
    \<Longrightarrow> tracked opened self'"
  by (auto simp: tracked_def)

lemma close_expired_mux:
  "mux_inv settings base (up_forwarder self) \<Longrightarrow> mx_futures (up_forwarder self) = None
    \<Longrightarrow> mux_inv settings base (up_forwarder (close_expired (direct_shared settings mk) metas self))"
proof (induction metas arbitrary: self)
  case (Cons meta metas)
  then show ?case
    using mux_inv_on_connection_closed [of settings base "up_forwarder self" "reversed meta"]
    by (auto intro!: Cons.IH simp: on_connection_closed_def)
qed simp


lemma run_inv_left_read:
  assumes "run_inv settings base self" "ru_left self = LReading"
  shows "run_inv settings base (left_read (direct_shared settings mk) now d self)"
proof -
  obtain pipe r where p: "left_on_udp_packet (direct_shared settings mk) now (cu_meta d) (ru_pipe self) = (pipe, r)"
    by fastforce
  have inv: "mux_inv settings base (up_forwarder (ru_pipe self))" "tracked mux_open (ru_pipe self)"
    using assms(1) by (simp_all add: run_inv_def Let_def)
  note left_on_udp_packet_mux [OF p inv(1)] direct.tracked_left_on_udp_packet [OF inv(2) p]
  then show ?thesis
    using assms p
    by (auto simp: left_read_def run_inv_def Let_def split: sum.splits right_state.splits)
qed

lemma run_inv_left_sent:
  assumes "run_inv settings base self"
  shows "run_inv settings base (left_sent d sent self)"
proof (cases sent)
  case (Inr u)
  obtain mux r where w: "write_sent d (up_forwarder (ru_pipe self)) = (mux, r)"
    by fastforce
  have "mux_inv settings base (up_forwarder (ru_pipe self))"
    using assms by (simp add: run_inv_def Let_def)
  from mux_inv_write_sent [OF this w]
  have mux: "mux_inv settings base mux" "mux_open mux = mux_open (up_forwarder (ru_pipe self))"
    by simp_all
  have futures: "mx_futures mux = mx_futures (up_forwarder (ru_pipe self))"
    using w by (auto simp: write_sent_def Let_def split: option.splits if_splits)
  show ?thesis
    using assms Inr w mux futures
    by (auto simp: left_sent_def left_finish_def run_inv_def tracked_def Let_def
        split: sum.splits send_status.splits right_state.splits)
qed (use assms in \<open>simp add: left_sent_def run_inv_def Let_def\<close>)

lemma run_inv_right_read:
  assumes "run_inv settings base self" "ru_right self = RReading"
    and mux: "mux_inv settings base mux" "mux_open mux \<subseteq> mux_open (up_forwarder (ru_pipe self))"
    and r: "case r of
       Pending \<Rightarrow> True
     | Ready (Inl e) \<Rightarrow> True
     | Ready (Inr (Read d)) \<Rightarrow> reversed (ud_meta d) \<in> mux_open mux \<and> mx_futures mux = None
     | Ready (Inr (UdpClose meta e)) \<Rightarrow> meta \<notin> mux_open mux"
  shows "run_inv settings base (right_read (mux, r) self)"
proof -
  have "tracked mux_open ((ru_pipe self)\<lparr>up_forwarder := mux\<rparr>)"
    using assms(1) mux(2) by (auto simp: run_inv_def tracked_def Let_def)
  then show ?thesis
    using assms
    by (auto simp: right_read_def run_inv_def Let_def right_closed_def tracked_def
        split: poll.splits sum.splits read_status.splits)
qed

lemma run_inv_right_written:
  assumes "run_inv settings base self" "ru_right self = RWriting d"
  shows "run_inv settings base (right_written (direct_shared settings mk) now d w self)"
proof -
  obtain pipe r where p: "right_delivered (direct_shared settings mk) now d w (ru_pipe self) = (pipe, r)"
    by fastforce
  have inv: "mux_inv settings base (up_forwarder (ru_pipe self))" "tracked mux_open (ru_pipe self)"
      "mx_futures (up_forwarder (ru_pipe self)) = None"
    using assms by (simp_all add: run_inv_def Let_def)
  have tr: "tracked mux_open pipe"
    by (rule direct.tracked_right_delivered [OF inv(2) p])
  have "up_forwarder pipe = up_forwarder (ru_pipe self) \<or>
      up_forwarder pipe = on_connection_closed (ud_meta d) (up_forwarder (ru_pipe self))"
    using p
    by (auto simp: right_delivered_def Let_def split: sum.splits prod.splits udp_connection_status.splits if_splits
        dest!: right_on_udp_packet_simps(1))
  then have "mux_inv settings base (up_forwarder pipe)"
    using inv(1,3) mux_inv_on_connection_closed by auto
  moreover have "r = Inl e \<Longrightarrow> up_forwarder pipe = up_forwarder (ru_pipe self)" for e
    using p by (auto simp: right_delivered_def Let_def split: sum.splits prod.splits udp_connection_status.splits)
  ultimately show ?thesis
    using assms p tr by (cases r) (auto simp: right_written_def run_inv_def Let_def)
qed

lemma run_inv_tick:
  assumes "run_inv settings base self"
  shows "run_inv settings base (tick map_order (direct_shared settings mk) now self)"
proof -
  let ?pipe = "(ru_pipe self)\<lparr>up_forwarder := (up_forwarder (ru_pipe self))\<lparr>mx_futures := None\<rparr>\<rparr>"
  have "tracked mux_open ?pipe" "mux_inv settings base (up_forwarder ?pipe)"
    using assms by (auto simp: run_inv_def tracked_def Let_def mux_inv_def)
  then show ?thesis
    using direct.tracked_timer_tick [of ?pipe map_order settings mk now]
    by (simp add: tick_def run_inv_def Let_def on_timer_tick_def close_expired_mux)
qed

lemma run_inv_step:
  assumes "pipe_step settings mk map_order self self'" "run_inv settings base self"
  shows "run_inv settings base self'"
  using assms
proof cases
  case (right_start recv)
  obtain mux r where m: "mux_read recv [] (up_forwarder (ru_pipe self)) = (mux, r)"
    by fastforce
  have "mux_inv settings base (up_forwarder (ru_pipe self))"
    using assms(2) by (simp add: run_inv_def Let_def)
  from mux_inv_mux_read_Nil [OF this m] show ?thesis
    using assms(2) right_start m run_inv_right_read [of settings base self mux r] by simp
next
  case (right_event event recv)
  obtain mux r where m: "mux_resume recv event (up_forwarder (ru_pipe self)) = (mux, r)"
    by fastforce
  have "mux_inv settings base (up_forwarder (ru_pipe self))"
    using assms(2) by (simp add: run_inv_def Let_def)
  note res = mux_inv_mux_resume [OF this m]
  have "run_inv settings base (right_read (mux, r) self)"
    by (rule run_inv_right_read [OF assms(2) right_event(3)])
      (use res in \<open>auto split: poll.splits sum.splits read_status.splits\<close>)
  then show ?thesis
    using right_event(1) m by simp
qed (auto intro: run_inv_left_read run_inv_left_sent run_inv_right_written run_inv_tick)

lemma run_inv_reachable:
  assumes "(pipe_step settings mk map_order)\<^sup>*\<^sup>* (run_start source_id m timeout) self"
  shows "run_inv settings (me_outbound_udp_sockets m) self"
  using assms by (induction rule: rtranclp_induct) (auto intro: run_inv_start run_inv_step)


lemma known_left_on_udp_packet:
  "left_on_udp_packet ops now meta self = (self', r) \<Longrightarrow> known self' \<subseteq> insert (meta_from meta) (known self)"
  by (auto simp: left_on_udp_packet_def Let_def split: if_splits prod.splits sum.splits)

lemma known_right_delivered:
  assumes "right_delivered ops now d w self = (self', r)"
  shows "known self' \<subseteq> known self"
proof (cases w)
  case (Inr status)
  let ?self = "if status = Sent then self\<lparr>up_updates := up_updates self @ [(Incoming, length (ud_payload d))]\<rparr> else self"
  obtain self1 st where p: "right_on_udp_packet now (reversed (ud_meta d)) ?self = (self1, st)"
    by fastforce
  have k: "known self1 = known self"
    using right_on_udp_packet_simps(2) [OF p] by simp
  have "self' = self1 \<or> self' = self1\<lparr>up_connections := (up_connections self1)(reversed (ud_meta d) := None),
      up_forwarder := op_on_connection_closed ops (ud_meta d) (up_forwarder self1)\<rparr>"
    using assms Inr p by (cases st) (simp_all add: right_delivered_def Let_def)
  then show ?thesis
    by (elim disjE) (simp_all add: k)
qed (use assms in \<open>simp add: right_delivered_def\<close>)

lemma known_close_expired: "known (close_expired ops metas self) \<subseteq> known self"
proof (induction metas arbitrary: self)
  case (Cons meta metas)
  show ?case
    unfolding close_expired.simps by (rule order_trans [OF Cons.IH]) auto
qed simp

lemma finite_known_step:
  assumes "pipe_step settings mk map_order self self'" "finite (known (ru_pipe self))"
  shows "finite (known (ru_pipe self'))"
proof -
  have "\<exists>x. known (ru_pipe self') \<subseteq> insert x (known (ru_pipe self))"
    using assms(1)
  proof cases
    case (left_read now d)
    then show ?thesis
      by (auto simp: left_read_def split: prod.splits sum.splits dest!: known_left_on_udp_packet)
  next
    case (left_sent d s sent)
    then show ?thesis
      by (auto simp: left_sent_def left_finish_def split: prod.splits sum.splits send_status.splits)
  next
    case (right_written d now w)
    then show ?thesis
      by (auto simp: right_written_def split: prod.splits sum.splits dest!: known_right_delivered)
  next
    case (tick now)
    then show ?thesis
      by (auto simp: tick_def on_timer_tick_def Let_def dest!: subsetD [OF known_close_expired])
  qed (auto simp: right_read_def right_closed_def Let_def split: poll.splits sum.splits read_status.splits)
  then show ?thesis
    using assms(2) by (meson finite_insert finite_subset)
qed

lemma finite_known_reachable:
  assumes "(pipe_step settings mk map_order)\<^sup>*\<^sup>* (run_start source_id m timeout) self"
  shows "finite (known (ru_pipe self))"
  using assms
proof (induction rule: rtranclp_induct)
  case base
  show ?case
    by (simp add: run_start_def udp_pipe_new_def known_def)
qed (rule finite_known_step)

section \<open>Properties\<close>

text \<open>C12: No outbound UDP socket escapes the pipe. However datagrams in both directions, socket
  errors, wake-ups and timer ticks interleave, every open socket has an entry in the pipe's table (so
  that the timer will close it), leads to a global address unless private networks are allowed, and is
  counted once in the metrics; a datagram on its way to the client comes from such a socket, with the
  addresses exchanged.\<close>

theorem udp_sockets_tracked:
  assumes "(pipe_step settings make_udp_socket map_order)\<^sup>*\<^sup>* (run_start source_id m timeout) self"
  shows "let mux = up_forwarder (ru_pipe self) in
    (\<forall>meta \<in> dom (mx_connections mux). meta \<in> dom (up_connections (ru_pipe self)) \<and>
      (se_allow_private_network_connections settings \<or> is_global_ip (sa_ip (um_destination meta)))) \<and>
    me_outbound_udp_sockets (mx_metrics mux) = me_outbound_udp_sockets m + int (card (dom (mx_connections mux))) \<and>
    (\<forall>d. ru_right self = RWriting d \<longrightarrow> reversed (ud_meta d) \<in> dom (mx_connections mux))"
  using run_inv_reachable [OF assms]
  by (auto simp: run_inv_def Let_def mux_inv_def sockets_ok_def tracked_def known_def mux_open_def
      destination_allowed_def)

definition open_settings :: settings where
  "open_settings = settings_builder_new\<lparr>se_allow_private_network_connections := True\<rparr>"

definition sample_client_datagram :: client_udp_datagram where
  "sample_client_datagram =
    \<lparr>cu_meta = \<lparr>cm_source = \<lparr>sa_ip = V4 1, sa_port = 5000\<rparr>, cm_destination = \<lparr>sa_ip = V4 2, sa_port = 443\<rparr>, cm_app_name = None\<rparr>,
     cu_payload = [7]\<rparr>"

definition sample_run :: "nat pipe_run" where
  "sample_run = left_sent sample_client_datagram (Inr ())
     (left_read (direct_shared open_settings (\<lambda>_. Ok 0)) 5 sample_client_datagram (run_start [] (metrics_new False) 10))"

lemmas sample_run_eval = sample_run_def left_sent_def left_read_def left_on_udp_packet_def left_finish_def
  write_socket_def write_sent_def on_new_udp_connection_def touch_outgoing_def run_start_def udp_pipe_new_def
  make_multiplexer_def open_settings_def

lemma sample_run_reachable:
  "(pipe_step open_settings (\<lambda>_. Ok 0) map_order)\<^sup>*\<^sup>* (run_start [] (metrics_new False) 10) sample_run"
proof -
  let ?step = "pipe_step open_settings (\<lambda>_. Ok 0) map_order"
  let ?s1 = "left_read (direct_shared open_settings (\<lambda>_. Ok 0)) 5 sample_client_datagram
    (run_start [] (metrics_new False) 10) :: nat pipe_run"
  have "?step (run_start [] (metrics_new False) 10) ?s1"
    by (rule pipe_step.left_read) (simp_all add: run_start_def)
  moreover have "?step ?s1 (left_sent sample_client_datagram (Inr ()) ?s1)"
    by (rule pipe_step.left_sent [where s = 0]) (simp_all add: sample_run_eval Let_def)
  ultimately show ?thesis
    unfolding sample_run_def by (rule converse_rtranclp_into_rtranclp [OF _ r_into_rtranclp])
qed

theorem udp_sockets_tracked_witness:
  "dom (mx_connections (up_forwarder (ru_pipe sample_run))) = {meta_from (cu_meta sample_client_datagram)} \<and>
   me_outbound_udp_sockets (mx_metrics (up_forwarder (ru_pipe sample_run))) =
     me_outbound_udp_sockets (metrics_new False) + 1"
proof -
  have "dom (mx_connections (up_forwarder (ru_pipe sample_run))) = {meta_from (cu_meta sample_client_datagram)}"
    by (simp add: sample_run_eval Let_def)
  then show ?thesis
    using udp_sockets_tracked [OF sample_run_reachable [of "\<lambda>_. []"]] by (simp add: Let_def)
qed

text \<open>C14: Idle sockets are closed. In every reachable state of the pipe, once the timer has ticked,
  each socket that is still open belongs to a connection on which a packet was seen within the
  timeout.\<close>

theorem idle_udp_sockets_closed:
  assumes "(pipe_step settings make_udp_socket map_order)\<^sup>*\<^sup>* (run_start source_id m timeout) self"
    and "\<forall>metas. finite metas \<longrightarrow> set (map_order metas) = metas"
    and "meta \<in> dom (mx_connections (up_forwarder (ru_pipe
           (tick map_order (direct_shared settings make_udp_socket) now self))))"
  shows "\<exists>conn. up_connections (ru_pipe self) meta = Some conn
    \<and> now - up_timeout (ru_pipe self) \<le> uc_last_activity conn"
proof -
  let ?pipe = "(ru_pipe self)\<lparr>up_forwarder := (up_forwarder (ru_pipe self))\<lparr>mx_futures := None\<rparr>\<rparr>"
  have "tracked mux_open ?pipe"
    using run_inv_reachable [OF assms(1)] by (auto simp: run_inv_def tracked_def Let_def)
  moreover have "finite (expired now ?pipe)"
    by (rule finite_subset [OF _ finite_known_reachable [OF assms(1)]]) (auto simp: expired_def known_def)
  ultimately show ?thesis
    using direct.timer_tick_closes_idle [of ?pipe map_order now meta settings make_udp_socket] assms(2,3)
    by (simp add: tick_def Let_def mux_open_def)
qed


theorem idle_udp_sockets_closed_witness:
  "\<exists>map_order :: udp_meta set \<Rightarrow> udp_meta list. (\<forall>metas. finite metas \<longrightarrow> set (map_order metas) = metas) \<and>
    (\<exists>conn. up_connections (ru_pipe sample_run) (meta_from (cu_meta sample_client_datagram)) = Some conn
      \<and> 12 - up_timeout (ru_pipe sample_run) \<le> uc_last_activity conn)"
proof -
  obtain map_order :: "udp_meta set \<Rightarrow> udp_meta list"
    where order: "\<forall>metas. finite metas \<longrightarrow> set (map_order metas) = metas"
    using finite_list by metis
  let ?ops = "direct_shared open_settings (\<lambda>_. Ok 0)"
  let ?pipe = "(ru_pipe sample_run)\<lparr>up_forwarder := (up_forwarder (ru_pipe sample_run))\<lparr>mx_futures := None\<rparr>\<rparr>"
  have "expired 12 ?pipe = {}"
    by (auto simp: expired_def sample_run_eval Let_def register_outgoing_packet_def split: if_splits)
  then have "map_order (expired 12 ?pipe) = []"
    using order by (metis finite.emptyI set_empty2)
  then have "ru_pipe (tick map_order ?ops 12 sample_run) = ?pipe"
    by (simp add: tick_def on_timer_tick_def Let_def)
  moreover have "meta_from (cu_meta sample_client_datagram) \<in> dom (mx_connections (up_forwarder (ru_pipe sample_run)))"
    by (simp add: sample_run_eval Let_def)
  ultimately have "meta_from (cu_meta sample_client_datagram)
      \<in> dom (mx_connections (up_forwarder (ru_pipe (tick map_order ?ops 12 sample_run))))"
    by simp
  note closed = idle_udp_sockets_closed [OF sample_run_reachable order this]
  show ?thesis
    by (rule exI [of _ map_order], rule conjI [OF order closed])
qed


definition waiting_run :: "nat pipe_run" where
  "waiting_run = right_read (mux_read (\<lambda>_. Ok []) [] (up_forwarder (ru_pipe sample_run))) sample_run"


text \<open>C21: A denied destination costs the client its whole UDP tunnel. The first datagram to a
  non-global address is dropped, as intended, but leaves an entry in the pipe's table; the second one
  finds the entry, is passed to the multiplexer, which has no socket for it, and ends the pipe with
  \<open>NotFound\<close>, with all its other connections.\<close>

theorem denied_udp_destination_ends_pipe:
  assumes "\<not> se_allow_private_network_connections settings"
    and "\<not> is_global_ip (sa_ip (cm_destination (cu_meta datagram)))"
    and "up_connections self (meta_from (cu_meta datagram)) = None"
    and "mx_connections (up_forwarder self) (meta_from (cu_meta datagram)) = None"
  shows "let exchange = left_exchange (direct_shared settings make_udp_socket) (mux_write send);
             (self1, r1) = exchange now1 datagram self;
             (self2, r2) = exchange now2 datagram self1
         in r1 = Ok () \<and> up_forwarder self1 = up_forwarder self \<and> r2 = Err (IoError NotFound [])"
proof -
  let ?meta = "meta_from (cu_meta datagram)"
  obtain self1 where first: "left_exchange (direct_shared settings make_udp_socket) (mux_write send) now1 datagram self = (self1, Ok ())"
      and self1: "up_connections self1 ?meta \<noteq> None" "up_forwarder self1 = up_forwarder self"
    using assms
    by (simp add: left_exchange_def left_on_udp_packet_def on_new_udp_connection_def Let_def)
  have "up_forwarder (touch_outgoing now2 ?meta self1) = up_forwarder self"
    using self1 by simp
  then have "snd (left_exchange (direct_shared settings make_udp_socket) (mux_write send) now2 datagram self1) = Err (IoError NotFound [])"
    using self1(1) assms(4)
    by (simp add: left_exchange_def left_on_udp_packet_def mux_write_def write_socket_def left_finish_def)
  then show ?thesis
    using first self1(2) by (simp add: Let_def case_prod_beta)
qed

definition denied_datagram :: client_udp_datagram where
  "denied_datagram = \<lparr>cu_meta = \<lparr>cm_source = \<lparr>sa_ip = V4 1, sa_port = 5000\<rparr>,
     cm_destination = \<lparr>sa_ip = V4 0x7F000001, sa_port = 53\<rparr>, cm_app_name = None\<rparr>, cu_payload = [7]\<rparr>"

theorem denied_udp_destination_ends_pipe_witness:
  "\<not> is_global_ip (sa_ip (cm_destination (cu_meta denied_datagram))) \<and>
   (let exchange = left_exchange (direct_shared settings_builder_new (\<lambda>_. Ok (0 :: nat))) (mux_write (\<lambda>_ _. Ok ()));
        (self1, r1) = exchange 0 denied_datagram (udp_pipe_new [] (make_multiplexer (metrics_new False)) 10);
        (self2, r2) = exchange 1 denied_datagram self1
    in r2 = Err (IoError NotFound []))"
proof -
  have "\<not> is_global_ip (V4 0x7F000001)"
    by (simp add: is_global_ipv4_def is_loopback_v4_def octet_def ipv4_octets_def to_be_eval)
  then have hyps: "\<not> se_allow_private_network_connections settings_builder_new"
      "\<not> is_global_ip (sa_ip (cm_destination (cu_meta denied_datagram)))"
      "up_connections (udp_pipe_new [] (make_multiplexer (metrics_new False)) 10) (meta_from (cu_meta denied_datagram)) = None"
      "mx_connections (up_forwarder (udp_pipe_new [] (make_multiplexer (metrics_new False)) 10))
        (meta_from (cu_meta denied_datagram)) = None"
    by (simp_all add: settings_builder_new_def default_allow_private_network_connections_def udp_pipe_new_def
        make_multiplexer_def denied_datagram_def)
  from denied_udp_destination_ends_pipe [OF this, of "\<lambda>_. Ok (0 :: nat)" "\<lambda>_ _. Ok ()" 0 1] hyps(2)
  show ?thesis
    unfolding Let_def case_prod_beta by blast
qed

text \<open>A plain DNS connection is closed with its last answer. A connection to port 53 on which
  \<open>n + 1\<close> queries were sent stays open for the first \<open>n\<close> answers and is reported done with the next
  one, whenever the packets arrive.\<close>

fun answers :: "int list \<Rightarrow> udp_connection \<Rightarrow> udp_connection_status list" where
  "answers [] conn = []"
| "answers (now # instants) conn =
    (case register_incoming_packet now conn of (conn, status) \<Rightarrow> status # answers instants conn)"

lemma answers_pending:
  "uc_plain_dns_info conn = Some (Suc n) \<Longrightarrow> length instants = Suc n \<Longrightarrow> answers instants conn = replicate n StContinue @ [StDone]"
proof (induction n arbitrary: instants conn)
  case 0
  then show ?case
    by (cases instants) (auto simp: register_incoming_packet_def Let_def)
next
  case (Suc n)
  then obtain now rest where "instants = now # rest" "length rest = Suc n"
    by (cases instants) auto
  then show ?case
    using Suc by (auto simp: register_incoming_packet_def Let_def)
qed

theorem dns_connection_done_after_last_answer:
  assumes "uc_plain_dns_info conn = Some 0" "length queries = Suc n" "length instants = Suc n"
  shows "answers instants (fold register_outgoing_packet queries conn) = replicate n StContinue @ [StDone]"
proof -
  have "uc_plain_dns_info (fold register_outgoing_packet queries conn) = Some (k + length queries)"
    if "uc_plain_dns_info conn = Some k" for k
    using that
  proof (induction queries arbitrary: conn k)
    case (Cons q queries)
    then show ?case
      using Cons.IH [of "register_outgoing_packet q conn" "k + 1"] by (simp add: register_outgoing_packet_def)
  qed simp
  from this [OF assms(1)] show ?thesis
    using assms(2,3) by (intro answers_pending) simp_all
qed

theorem dns_connection_done_after_last_answer_witness:
  "answers [3, 4] (fold register_outgoing_packet [1, 2]
     \<lparr>uc_last_activity = 0, uc_plain_dns_info = Some 0, uc_log_id = []\<rparr>) = [StContinue, StDone]"
  using dns_connection_done_after_last_answer
    [of "\<lparr>uc_last_activity = 0, uc_plain_dns_info = Some 0, uc_log_id = []\<rparr>" "[1, 2]" 1 "[3, 4]"]
  by simp

end
