(* ===== verification/Socks5_Forwarder.thy ===== *)
theory Socks5_Forwarder
  imports Socks5_Client Tcp_Forwarder Udp_Pipe
begin

text \<open>
  Forwarding through an upstream SOCKS5 server, \<^verbatim>\<open>lib/src/socks5_forwarder.rs\<close>: the credentials that
  are presented to it, TCP connections, and the UDP transceiver with one association per client
  address. Connecting to the server and to its UDP socket are parameters, the handshake is the one of
  \<^verbatim>\<open>Socks5_Client.thy\<close>. The transceiver implements the same interface as the direct multiplexer; its
  interpretation of the contract is \<open>socks\<close>.
\<close>

section \<open>Credentials\<close>

text \<open>\<open>base64_decode\<close> is the decoder of the \<open>base64\<close> crate.\<close>

fun make_auth :: "(string \<Rightarrow> (string, bytes) result) \<Rightarrow> auth_source \<Rightarrow> (string, socks_authentication) result" where
  "make_auth base64_decode (Sni x) = Ok (UsernamePassword x x)"
| "make_auth base64_decode (ProxyBasic x) =
    rbind (base64_decode x) (\<lambda>b.
    case from_utf8 b of
      Inl _ \<Rightarrow> Err ''invalid utf-8 sequence''
    | Inr creds \<Rightarrow>
        (case split_once (CHR '':'') creds of
           Some (u, p) \<Rightarrow> Ok (UsernamePassword u p)
         | None \<Rightarrow> Err ''Expected colon-separated credentials''))"

definition make_extended_auth ::
  "auth_source \<Rightarrow> string \<Rightarrow> ip_addr \<Rightarrow> string option \<Rightarrow> (string, socks_authentication) result" where
  "make_extended_auth auth tls_domain client_addr agent =
    Ok (Extended ([Domain tls_domain, ClientAddress client_addr]
      @ (case agent of Some u \<Rightarrow> [UserAgent u] | None \<Rightarrow> [])
      @ (case auth of Sni _ \<Rightarrow> [SniAuth] | ProxyBasic x \<Rightarrow> [BasicProxyAuth x])))"

text \<open>A direct forwarder has no SOCKS settings.\<close>

definition socks_settings :: "settings \<Rightarrow> socks5_forwarder_settings outcome" where
  "socks_settings settings = (case se_forward_protocol settings of Socks5 x \<Rightarrow> Ret x | Direct \<Rightarrow> Panic)"

definition make_socks_auth ::
  "(string \<Rightarrow> (string, bytes) result) \<Rightarrow> socks5_forwarder_settings \<Rightarrow> string \<Rightarrow> ip_addr \<Rightarrow> string option \<Rightarrow> auth_source
   \<Rightarrow> (string, socks_authentication) result" where
  "make_socks_auth base64_decode ss tls_domain client_addr agent auth =
    (if so_extended_auth ss then make_extended_auth auth tls_domain client_addr agent
     else make_auth base64_decode auth)"

text \<open>\<open>Option<...>.map(...).transpose()\<close>.\<close>

definition optional_auth ::
  "(auth_source \<Rightarrow> (string, socks_authentication) result) \<Rightarrow> auth_source option
   \<Rightarrow> (string, socks_authentication option) result" where
  "optional_auth mk auth = (case auth of None \<Rightarrow> Ok None | Some a \<Rightarrow> rbind (mk a) (\<lambda>x. Ok (Some x)))"

section \<open>TCP connections\<close>

fun socks_error_to_connection_error :: "socks_error \<Rightarrow> connection_error" where
  "socks_error_to_connection_error (SeIo x) = CeIo x"
| "socks_error_to_connection_error (SeProtocol x) = CeOther (''SOCKS protocol error: '' @ x)"
| "socks_error_to_connection_error (SeAuthentication x) = CeAuthentication x"

fun reply_code_debug :: "reply_code \<Rightarrow> string" where
  "reply_code_debug Succeeded = ''Succeeded''"
| "reply_code_debug GeneralFailure = ''GeneralFailure''"
| "reply_code_debug NotAllowed = ''NotAllowed''"
| "reply_code_debug RcNetworkUnreachable = ''NetworkUnreachable''"
| "reply_code_debug RcHostUnreachable = ''HostUnreachable''"
| "reply_code_debug RcConnectionRefused = ''ConnectionRefused''"
| "reply_code_debug TtlExpired = ''TtlExpired''"
| "reply_code_debug CommandNotSupported = ''CommandNotSupported''"
| "reply_code_debug AddressTypeNotSupported = ''AddressTypeNotSupported''"

fun reply_to_connection_error :: "reply_code \<Rightarrow> connection_error" where
  "reply_to_connection_error RcHostUnreachable = CeHostUnreachable"
| "reply_to_connection_error RcNetworkUnreachable = CeHostUnreachable"
| "reply_to_connection_error RcConnectionRefused = CeIo (IoError ConnectionRefused [])"
| "reply_to_connection_error TtlExpired = CeTimeout"
| "reply_to_connection_error x = CeOther (''SOCKS server replied with error code: '' @ reply_code_debug x)"

text \<open>What the code takes from the outside: connecting to the server, and its UDP socket.\<close>

record 'u socks_env =
  sv_tcp_connect :: "socket_addr \<Rightarrow> (io_error, socks_io) result"
  sv_udp_bind :: "(io_error, 'u \<times> socket_addr) result"
  sv_udp_connect :: "'u \<Rightarrow> socket_addr \<Rightarrow> (io_error, unit) result"
  sv_base64_decode :: "string \<Rightarrow> (string, bytes) result"

definition socks_connect ::
  "'u socks_env \<Rightarrow> socks_authentication option \<Rightarrow> socks_request \<Rightarrow> socks_io
   \<Rightarrow> socks_io \<times> (socks_error, 'u connect_result) result" where
  "socks_connect env auth request io = connect_inner (sv_udp_bind env) (sv_udp_connect env) auth request io"

definition socks_destination :: "tcp_destination \<Rightarrow> socks_address \<times> u16" where
  "socks_destination d =
    (case d of Address x \<Rightarrow> (IpAddress (sa_ip x), sa_port x) | HostName h p \<Rightarrow> (DomainName h, p))"

text \<open>\<open>TcpConnector::connect\<close>; the result of a connection is the stream after the handshake.\<close>

definition socks_tcp_connect ::
  "'u socks_env \<Rightarrow> settings \<Rightarrow> socks5_forwarder_settings \<Rightarrow> tcp_connection_meta \<Rightarrow> metrics
   \<Rightarrow> (metrics \<times> (connection_error, socks_io) result) outcome" where
  "socks_tcp_connect env settings ss meta m =
    (let denied = (case tm_destination meta of
           Address a \<Rightarrow> \<not> se_allow_private_network_connections settings \<and> \<not> is_global_ip (sa_ip a)
         | HostName _ _ \<Rightarrow> False);
         (destination, port) = socks_destination (tm_destination meta)
     in if denied
        then Ret (m, Err (case tm_destination meta of
               Address a \<Rightarrow> if ip_is_loopback (sa_ip a) then CeDnsLoopback else CeDnsNonroutable
             | HostName _ _ \<Rightarrow> CeDnsNonroutable))
        else
          (case sv_tcp_connect env (so_address ss) of
             Inl e \<Rightarrow> Ret (m, Err (CeIo e))
           | Inr stream \<Rightarrow>
               (case optional_auth (make_socks_auth (sv_base64_decode env) ss (tm_tls_domain meta) (tm_client_address meta)
                       (tm_user_agent meta)) (tm_auth meta) of
                  Inl x \<Rightarrow> Ret (m, Err (CeOther x))
                | Inr auth \<Rightarrow>
                    (case socks_connect env auth (Connect destination port) stream of
                       (stream, Inr TcpConnection) \<Rightarrow> Ret (outbound_tcp_socket_counter m, Ok stream)
                     | (_, Inr (UdpAssociation _)) \<Rightarrow> Panic
                     | (_, Inr (Failure x)) \<Rightarrow> Ret (m, Err (reply_to_connection_error x))
                     | (_, Inl e) \<Rightarrow> Ret (m, Err (socks_error_to_connection_error e))))))"

text \<open>\<open>DatagramMuxAuthenticator::check_auth\<close>.\<close>

definition socks_check_auth ::
  "'u socks_env \<Rightarrow> socks5_forwarder_settings \<Rightarrow> ip_addr \<Rightarrow> string \<Rightarrow> auth_source \<Rightarrow> string option
   \<Rightarrow> (connection_error, unit) result outcome" where
  "socks_check_auth env ss client_addr tls_domain auth agent =
    (case sv_tcp_connect env (so_address ss) of
       Inl e \<Rightarrow> Ret (Err (CeIo e))
     | Inr stream \<Rightarrow>
         (case make_socks_auth (sv_base64_decode env) ss tls_domain client_addr agent auth of
            Inl x \<Rightarrow> Ret (Err (CeIo (IoError Other x)))
          | Inr a \<Rightarrow>
              (case socks_connect env (Some a) UdpAssociate stream of
                 (_, Inr TcpConnection) \<Rightarrow> Panic
               | (_, Inr (UdpAssociation _)) \<Rightarrow> Ret (Ok ())
               | (_, Inr (Failure x)) \<Rightarrow>
                   Ret (Err (CeOther (''SOCKS server replied with error code: '' @ reply_code_debug x)))
               | (_, Inl e) \<Rightarrow> Ret (Err (socks_error_to_connection_error e)))))"

section \<open>The UDP transceiver\<close>

record 'u udp_association =
  as_socket :: 'u
  as_peers :: "socket_addr set"

text \<open>\<open>DatagramTransceiverShared\<close> with the state of the source.\<close>

record 'u transceiver =
  tr_associations :: "socket_addr \<rightharpoonup> 'u udp_association"
  tr_metrics :: metrics
  tr_new_socket :: bool
  tr_receiver :: bool
  tr_auth :: "socks_authentication option"
  tr_pending_read :: "socket_addr option"
  tr_pending_closures :: "(udp_meta \<times> io_error) list"

definition make_transceiver ::
  "'u socks_env \<Rightarrow> socks5_forwarder_settings \<Rightarrow> ip_addr \<Rightarrow> string \<Rightarrow> string option \<Rightarrow> auth_source option \<Rightarrow> metrics
   \<Rightarrow> (io_error, 'u transceiver) result" where
  "make_transceiver env ss client_addr tls_domain agent auth m =
    (case optional_auth (make_socks_auth (sv_base64_decode env) ss tls_domain client_addr agent) auth of
       Inl x \<Rightarrow> Err (IoError Other x)
     | Inr a \<Rightarrow> Ok \<lparr>tr_associations = Map.empty, tr_metrics = m, tr_new_socket = False, tr_receiver = True,
                    tr_auth = a, tr_pending_read = None, tr_pending_closures = []\<rparr>)"

text \<open>Dropping an association drops the guard of its socket counter; \<open>clear\<close> drops all of them.\<close>

definition remove_association :: "socket_addr \<Rightarrow> 'u transceiver \<Rightarrow> 'u transceiver" where
  "remove_association source self =
    (if tr_associations self source = None then self
     else self\<lparr>tr_associations := (tr_associations self)(source := None),
               tr_metrics := drop_udp_socket_counter (tr_metrics self)\<rparr>)"

definition clear_associations :: "'u transceiver \<Rightarrow> 'u transceiver" where
  "clear_associations self =
    self\<lparr>tr_associations := Map.empty,
         tr_metrics := (drop_udp_socket_counter ^^ card (dom (tr_associations self))) (tr_metrics self)\<rparr>"

text \<open>The new association is inserted, counted and announced to the source; the connection to the server
  is awaited without other changes to the transceiver.\<close>

definition insert_association :: "client_udp_meta \<Rightarrow> 'u \<Rightarrow> 'u transceiver \<Rightarrow> 'u transceiver \<times> (io_error, unit) result" where
  "insert_association meta socket self =
    (let self = self\<lparr>tr_metrics := outbound_udp_socket_counter (tr_metrics self),
           tr_associations := (tr_associations self)(cm_source meta \<mapsto>
             \<lparr>as_socket = socket, as_peers = {cm_destination meta}\<rparr>)\<rparr>
     in if tr_receiver self then (self\<lparr>tr_new_socket := True\<rparr>, Ok ())
        else (remove_association (cm_source meta) self, Err (IoError Other ''Source waker is unexpectedly closed'')))"

definition socks_on_new_udp_connection ::
  "'u socks_env \<Rightarrow> settings \<Rightarrow> socks5_forwarder_settings \<Rightarrow> client_udp_meta \<Rightarrow> 'u transceiver
   \<Rightarrow> 'u transceiver \<times> (io_error, unit) result" where
  "socks_on_new_udp_connection env settings ss meta self =
    (if \<not> se_allow_private_network_connections settings \<and> \<not> is_global_ip (sa_ip (cm_destination meta))
     then (self, Err (IoError PermissionDenied ''UDP destination is in a non-routable network''))
     else
       (case tr_associations self (cm_source meta) of
          Some x \<Rightarrow>
            (self\<lparr>tr_associations := (tr_associations self)(cm_source meta \<mapsto>
                x\<lparr>as_peers := insert (cm_destination meta) (as_peers x)\<rparr>)\<rparr>, Ok ())
        | None \<Rightarrow>
            (case sv_tcp_connect env (so_address ss) of
               Inl e \<Rightarrow> (self, Err e)
             | Inr stream \<Rightarrow>
                 (case snd (socks_connect env (tr_auth self) UdpAssociate stream) of
                    Inr (UdpAssociation socket) \<Rightarrow> insert_association meta socket self
                  | Inr (Failure x) \<Rightarrow>
                      (self, Err (IoError Other (''SOCKS server replied with error code: '' @ reply_code_debug x)))
                  | Inr TcpConnection \<Rightarrow> (self, Err (IoError Other ''unreachable''))
                  | Inl (SeIo x) \<Rightarrow> (self, Err x)
                  | Inl (SeProtocol x) \<Rightarrow> (self, Err (IoError Other (''SOCKS protocol error: '' @ x)))
                  | Inl (SeAuthentication x) \<Rightarrow>
                      (clear_associations self, Err (IoError Other (''Authentication error: '' @ x)))))))"

definition socks_on_connection_closed :: "udp_meta \<Rightarrow> 'u transceiver \<Rightarrow> 'u transceiver" where
  "socks_on_connection_closed meta self =
    (case tr_associations self (um_destination meta) of
       None \<Rightarrow> self
     | Some x \<Rightarrow>
         (let peers = as_peers x - {um_source meta}
          in if peers = {} then remove_association (um_destination meta) self
             else self\<lparr>tr_associations := (tr_associations self)(um_destination meta \<mapsto> x\<lparr>as_peers := peers\<rparr>)\<rparr>))"

definition socks_shared :: "'u socks_env \<Rightarrow> settings \<Rightarrow> socks5_forwarder_settings \<Rightarrow> 'u transceiver udp_shared_ops" where
  "socks_shared env settings ss =
    \<lparr>op_on_new_udp_connection = socks_on_new_udp_connection env settings ss,
     op_on_connection_closed = socks_on_connection_closed\<rparr>"

subsection \<open>The source\<close>

fun socks_to_io_error :: "socks_error \<Rightarrow> io_error" where
  "socks_to_io_error (SeIo e) = e"
| "socks_to_io_error (SeProtocol e) = IoError Other (''SOCKS protocol error: '' @ e)"
| "socks_to_io_error (SeAuthentication e) = IoError Other (''Authentication error: '' @ e)"

text \<open>\<open>recv\<close> is the datagram that the socket of an association receives.\<close>

definition socks_read_pending_socket ::
  "('u \<Rightarrow> (io_error, bytes) result) \<Rightarrow> socket_addr \<Rightarrow> 'u transceiver \<Rightarrow> (io_error, read_status option) result outcome" where
  "socks_read_pending_socket recv source self =
    (case tr_associations self source of
       None \<Rightarrow> Ret (Ok None)
     | Some x \<Rightarrow>
         (case recv (as_socket x) of
            Inl e \<Rightarrow> Ret (Err (socks_to_io_error (SeIo e)))
          | Inr packet \<Rightarrow>
              obind (recv_from MAX_UDP_PAYLOAD_SIZE packet) (\<lambda>r.
              case r of
                Inl e \<Rightarrow> Ret (Err (socks_to_io_error e))
              | Inr (n, buffer, peer) \<Rightarrow>
                  Ret (Ok (Some (Read \<lparr>ud_meta = \<lparr>um_source = peer, um_destination = source\<rparr>,
                                       ud_payload = take n buffer\<rparr>))))))"

text \<open>The peers are reported in the order of the hash set.\<close>

definition socks_on_socket_error ::
  "(socket_addr set \<Rightarrow> socket_addr list) \<Rightarrow> socket_addr \<Rightarrow> io_error \<Rightarrow> 'u transceiver \<Rightarrow> 'u transceiver" where
  "socks_on_socket_error set_order source error self =
    (case tr_associations self source of
       None \<Rightarrow> self
     | Some a \<Rightarrow>
         (remove_association source self)\<lparr>tr_pending_closures := tr_pending_closures self
           @ map (\<lambda>peer. (\<lparr>um_source = peer, um_destination = source\<rparr>, error)) (set_order (as_peers a))\<rparr>)"

datatype socks_poll_event = SocksReady socket_addr | SocksSocketError socket_addr io_error
  | SocksNewSocket | SocksSenderDropped

definition socks_on_poll_event ::
  "(socket_addr set \<Rightarrow> socket_addr list) \<Rightarrow> socks_poll_event \<Rightarrow> 'u transceiver
   \<Rightarrow> 'u transceiver \<times> (io_error, unit) result" where
  "socks_on_poll_event set_order event self =
    (case event of
       SocksReady source \<Rightarrow> (self\<lparr>tr_pending_read := Some source\<rparr>, Ok ())
     | SocksSocketError source io \<Rightarrow> (socks_on_socket_error set_order source io self, Ok ())
     | SocksNewSocket \<Rightarrow> (self\<lparr>tr_new_socket := False\<rparr>, Ok ())
     | SocksSenderDropped \<Rightarrow> (self, Err (IoError UnexpectedEof [])))"

text \<open>\<open>read\<close> over the events of its polls and the datagrams received.\<close>

fun socks_read ::
  "(socket_addr set \<Rightarrow> socket_addr list) \<Rightarrow> ('u \<Rightarrow> (io_error, bytes) result) \<Rightarrow> socks_poll_event list \<Rightarrow> 'u transceiver
   \<Rightarrow> ('u transceiver \<times> (io_error, read_status) result poll) outcome" where
  "socks_read set_order recv events self =
    obind (case tr_pending_read self of
             None \<Rightarrow> Ret (self, None)
           | Some source \<Rightarrow>
               (let self = self\<lparr>tr_pending_read := None\<rparr>
                in obind (socks_read_pending_socket recv source self) (\<lambda>r.
                   case r of
                     Inr x \<Rightarrow> Ret (self, x)
                   | Inl e \<Rightarrow> Ret (socks_on_socket_error set_order source e self, None)))) (\<lambda>(self, x).
    case x of
      Some x \<Rightarrow> Ret (self, Ready (Ok x))
    | None \<Rightarrow>
        (case tr_pending_closures self of
           (meta, error) # closures \<Rightarrow>
             Ret (self\<lparr>tr_pending_closures := closures\<rparr>, Ready (Ok (UdpClose meta error)))
         | [] \<Rightarrow>
             (case events of
                [] \<Rightarrow> Ret (self, Pending)
              | event # events \<Rightarrow>
                  (case socks_on_poll_event set_order event self of
                     (self, Inl e) \<Rightarrow> Ret (self, Ready (Err e))
                   | (self, Inr _) \<Rightarrow> socks_read set_order recv events self))))"

declare socks_read.simps [simp del]

subsection \<open>The sink\<close>

definition socks_write ::
  "('u \<Rightarrow> bytes \<Rightarrow> (io_error, unit) result) \<Rightarrow> client_udp_datagram \<Rightarrow> 'u transceiver
   \<Rightarrow> 'u transceiver \<times> (io_error, send_status) result" where
  "socks_write send datagram self =
    (case tr_associations self (cm_source (cu_meta datagram)) of
       None \<Rightarrow> (self, Err (IoError NotFound []))
     | Some x \<Rightarrow>
         (case send (as_socket x) (send_to_packet (cu_payload datagram) (cm_destination (cu_meta datagram))) of
            Inl e \<Rightarrow> (self, Err (socks_to_io_error (SeIo e)))
          | Inr _ \<Rightarrow> (self, Ok Sent)))"


section \<open>The contract holds\<close>

definition socks_open :: "'u transceiver \<Rightarrow> udp_meta set" where
  "socks_open self =
    {m. \<exists>x. tr_associations self (um_source m) = Some x \<and> um_destination m \<in> as_peers x}"

lemma remove_association_simps [simp]:
  "tr_associations (remove_association source self) = (tr_associations self)(source := None)"
  by (auto simp: remove_association_def)

lemma udp_meta_eq_iff: "(m :: udp_meta) = m' \<longleftrightarrow> um_source m = um_source m' \<and> um_destination m = um_destination m'"
  by (cases m; cases m') simp

text \<open>The branch that the code marks unreachable.\<close>

lemma udp_associate_result:
  "snd (connect_inner udp_bind connect_udp auth UdpAssociate io) \<noteq> Inr TcpConnection"
proof
  assume "snd (connect_inner udp_bind connect_udp auth UdpAssociate io) = Inr TcpConnection"
  then obtain io' where "connect_inner udp_bind connect_udp auth UdpAssociate io = (io', Inr TcpConnection)"
    by (metis prod.collapse)
  then show False
    by (auto simp: connect_inner_def sbind_eq_Inr split: sum.splits if_splits socks_address.splits)
qed

lemma insert_association_open:
  assumes "insert_association meta socket self = (self', r)" "tr_associations self (cm_source meta) = None"
  shows "r = Inr u \<Longrightarrow> socks_open self' = insert (meta_from meta) (socks_open self)"
    and "r = Inl e \<Longrightarrow> socks_open self' = socks_open self"
  using assms
  by (auto simp: insert_association_def socks_open_def udp_meta_eq_iff Let_def split: if_splits)

lemma clear_associations_open [simp]: "socks_open (clear_associations self) = {}"
  by (simp add: socks_open_def clear_associations_def)

interpretation socks: udp_shared "socks_shared env settings ss" socks_open
proof
  fix meta :: client_udp_meta and f f' :: "'a transceiver" and u
  assume "op_on_new_udp_connection (socks_shared env settings ss) meta f = (f', Inr u)"
  then have new: "socks_on_new_udp_connection env settings ss meta f = (f', Inr u)"
    by (simp add: socks_shared_def)
  show "socks_open f' = insert (meta_from meta) (socks_open f)"
  proof (cases "tr_associations f (cm_source meta)")
    case None
    with new obtain socket where "insert_association meta socket f = (f', Inr u)"
      by (auto simp: socks_on_new_udp_connection_def split: if_splits sum.splits connect_result.splits socks_error.splits)
    then show ?thesis
      using None by (rule insert_association_open(1)) simp
  next
    case (Some x)
    with new show ?thesis
      by (auto simp: socks_on_new_udp_connection_def socks_open_def udp_meta_eq_iff split: if_splits)
  qed
next
  fix meta :: client_udp_meta and f f' :: "'a transceiver" and e
  assume "op_on_new_udp_connection (socks_shared env settings ss) meta f = (f', Inl e)"
  then show "socks_open f' \<subseteq> socks_open f"
    by (auto simp: socks_shared_def socks_on_new_udp_connection_def insert_association_open(2)
        split: if_splits option.splits sum.splits connect_result.splits socks_error.splits)
next
  fix m and f :: "'a transceiver"
  show "socks_open (op_on_connection_closed (socks_shared env settings ss) m f) = socks_open f - {reversed m}"
    by (auto simp: socks_shared_def socks_on_connection_closed_def socks_open_def udp_meta_eq_iff Let_def
        split: option.splits if_splits)
qed


section \<open>Properties\<close>

text \<open>C22: A failed association ends the client's UDP tunnel. When the socket of an association fails,
  the source reports its connections closed with the server-oriented key (peer first), while the pipe
  files them under the client-oriented one: the pipe's entry stays, and the next datagram of the
  client to that peer finds the entry, does not open a new association, and ends the whole pipe with
  \<open>NotFound\<close>. The direct multiplexer reports the client-oriented key.\<close>

theorem socks_closure_orientation:
  assumes "tr_associations mux source = Some a" "as_peers a = {peer}"
    and "tr_pending_read mux = None" "tr_pending_closures mux = []" "set_order {peer} = [peer]"
    and "up_connections self \<lparr>um_source = source, um_destination = peer\<rparr> = Some conn" "source \<noteq> peer"
    and "cm_source (cu_meta datagram) = source" "cm_destination (cu_meta datagram) = peer"
  shows "\<exists>mux'. socks_read set_order recv [SocksSocketError source e] mux =
      Ret (mux', Ready (Ok (UdpClose \<lparr>um_source = peer, um_destination = source\<rparr> e))) \<and>
    snd (left_exchange (socks_shared env settings ss) (socks_write send) now datagram
      (right_closed \<lparr>um_source = peer, um_destination = source\<rparr> (self\<lparr>up_forwarder := mux'\<rparr>))) =
      Err (IoError NotFound [])"
proof -
  let ?mux = "socks_on_socket_error set_order source e mux"
  let ?mux' = "?mux\<lparr>tr_pending_closures := []\<rparr>"
  let ?rev = "\<lparr>um_source = peer, um_destination = source\<rparr>"
  have closures: "tr_pending_closures ?mux = [(?rev, e)]" "tr_pending_read ?mux = None"
      "tr_associations ?mux' source = None"
    using assms by (simp_all add: socks_on_socket_error_def remove_association_def)
  have read: "socks_read set_order recv [SocksSocketError source e] mux = Ret (?mux', Ready (Ok (UdpClose ?rev e)))"
    using assms closures
    by (simp add: socks_read.simps [of _ _ "[SocksSocketError source e]"] socks_read.simps [of _ _ "[]"]
        socks_on_poll_event_def)
  have m: "meta_from (cu_meta datagram) = \<lparr>um_source = source, um_destination = peer\<rparr>"
    using assms by (simp add: meta_from_def)
  have "up_connections (right_closed ?rev (self\<lparr>up_forwarder := ?mux'\<rparr>)) (meta_from (cu_meta datagram)) = Some conn"
    using assms(6,7) by (simp add: m right_closed_def)
  moreover have "up_forwarder (touch_outgoing now (meta_from (cu_meta datagram))
      (right_closed ?rev (self\<lparr>up_forwarder := ?mux'\<rparr>))) = ?mux'"
    by (simp add: right_closed_def)
  ultimately have "snd (left_exchange (socks_shared env settings ss) (socks_write send) now datagram
      (right_closed ?rev (self\<lparr>up_forwarder := ?mux'\<rparr>))) = Err (IoError NotFound [])"
    using assms closures(3)
    by (simp add: left_exchange_def left_on_udp_packet_def left_finish_def socks_write_def)
  with read show ?thesis
    by blast
qed

definition sample_mux :: "nat transceiver" where
  "sample_mux = \<lparr>tr_associations = [\<lparr>sa_ip = V4 1, sa_port = 5000\<rparr> \<mapsto>
       \<lparr>as_socket = 0, as_peers = {\<lparr>sa_ip = V4 2, sa_port = 443\<rparr>}\<rparr>],
     tr_metrics = metrics_new False, tr_new_socket = False, tr_receiver = True, tr_auth = None,
     tr_pending_read = None, tr_pending_closures = []\<rparr>"

definition sample_socks_env :: "nat socks_env" where
  "sample_socks_env = \<lparr>sv_tcp_connect = (\<lambda>_. Ok sample_server), sv_udp_bind = Err (IoError Other []),
     sv_udp_connect = (\<lambda>_ _. Ok ()), sv_base64_decode = (\<lambda>s. Ok (as_bytes s))\<rparr>"

definition sample_socks_settings :: socks5_forwarder_settings where
  "sample_socks_settings = \<lparr>so_address = \<lparr>sa_ip = V4 9, sa_port = 1080\<rparr>, so_extended_auth = False\<rparr>"

definition sample_socks_pipe :: "nat transceiver udp_pipe" where
  "sample_socks_pipe = \<lparr>up_connections = [\<lparr>um_source = \<lparr>sa_ip = V4 1, sa_port = 5000\<rparr>,
         um_destination = \<lparr>sa_ip = V4 2, sa_port = 443\<rparr>\<rparr> \<mapsto>
       \<lparr>uc_last_activity = 0, uc_plain_dns_info = None, uc_log_id = []\<rparr>], up_forwarder = sample_mux,
     up_source_id = [], up_next_connection_id = 1, up_updates = [], up_timeout = 10\<rparr>"

theorem socks_closure_orientation_witness:
  "\<exists>mux'. socks_read (\<lambda>_. [\<lparr>sa_ip = V4 2, sa_port = 443\<rparr>]) (\<lambda>_. Ok [])
      [SocksSocketError \<lparr>sa_ip = V4 1, sa_port = 5000\<rparr> (IoError ConnectionReset [])] sample_mux =
      Ret (mux', Ready (Ok (UdpClose \<lparr>um_source = \<lparr>sa_ip = V4 2, sa_port = 443\<rparr>,
        um_destination = \<lparr>sa_ip = V4 1, sa_port = 5000\<rparr>\<rparr> (IoError ConnectionReset []))))"
proof -
  let ?source = "\<lparr>sa_ip = V4 1, sa_port = 5000\<rparr>" and ?peer = "\<lparr>sa_ip = V4 2, sa_port = 443\<rparr>"
  have "tr_associations sample_mux ?source = Some \<lparr>as_socket = 0, as_peers = {?peer}\<rparr>"
      "as_peers \<lparr>as_socket = 0 :: nat, as_peers = {?peer}\<rparr> = {?peer}" "tr_pending_read sample_mux = None"
      "tr_pending_closures sample_mux = []" "(\<lambda>_. [?peer]) {?peer} = [?peer]"
      "up_connections sample_socks_pipe \<lparr>um_source = ?source, um_destination = ?peer\<rparr> =
        Some \<lparr>uc_last_activity = 0, uc_plain_dns_info = None, uc_log_id = []\<rparr>"
      "?source \<noteq> ?peer" "cm_source (cu_meta sample_client_datagram) = ?source"
      "cm_destination (cu_meta sample_client_datagram) = ?peer"
    by (simp_all add: sample_mux_def sample_socks_pipe_def sample_client_datagram_def)
  from socks_closure_orientation [where set_order = "\<lambda>_. [?peer]", OF this, of "\<lambda>_. Ok []" "IoError ConnectionReset []"
      sample_socks_env settings_builder_new sample_socks_settings "\<lambda>_ _. Ok ()" 0]
  show ?thesis
    by (elim exE conjE) (rule exI)
qed



definition sample_socks_meta :: tcp_connection_meta where
  "sample_socks_meta = \<lparr>tm_client_address = V4 1, tm_destination = HostName ''x'' 80,
     tm_auth = Some (ProxyBasic ''a:b''), tm_tls_domain = ''d'', tm_user_agent = None\<rparr>"


text \<open>The credentials of a client reach the SOCKS server as its user name and password. For the
  credentials that the endpoint itself computes for a client, the message carries the configured name
  and password exactly when the name contains no colon.\<close>

theorem socks_credentials_of_client:
  assumes "\<And>s. base64_decode (base64 s) = Ok (as_bytes s)"
    and "is_str (cl_username c @ '':'' @ cl_password c)"
  shows "make_auth base64_decode (ProxyBasic (credentials base64 c)) = Ok (UsernamePassword (cl_username c) (cl_password c))
    \<longleftrightarrow> CHR '':'' \<notin> set (cl_username c)"
proof -
  let ?s = "cl_username c @ '':'' @ cl_password c"
  have dec: "make_auth base64_decode (ProxyBasic (credentials base64 c)) =
      (case split_once (CHR '':'') ?s of
         Some (u, p) \<Rightarrow> Ok (UsernamePassword u p) | None \<Rightarrow> Err ''Expected colon-separated credentials'')"
    using assms by (simp add: credentials_def)
  obtain u p where up: "split_once (CHR '':'') ?s = Some (u, p)"
    using split_once_None [of "CHR '':''" ?s] by (cases "split_once (CHR '':'') ?s") auto
  then have s: "?s = u @ '':'' @ p" "CHR '':'' \<notin> set u"
    by (auto simp: split_once_Some)
  show ?thesis
  proof
    assume "make_auth base64_decode (ProxyBasic (credentials base64 c)) = Ok (UsernamePassword (cl_username c) (cl_password c))"
    then show "CHR '':'' \<notin> set (cl_username c)"
      using dec up s(2) by simp
  next
    assume c: "CHR '':'' \<notin> set (cl_username c)"
    have "split_once (CHR '':'') ?s = Some (cl_username c, cl_password c)"
      using c by (simp add: split_once_Some)
    then show "make_auth base64_decode (ProxyBasic (credentials base64 c)) = Ok (UsernamePassword (cl_username c) (cl_password c))"
      using dec by simp
  qed
qed


theorem socks_credentials_of_client_witness:
  "make_auth (\<lambda>s. Ok (as_bytes s)) (ProxyBasic (credentials (\<lambda>s. s) \<lparr>cl_username = ''ab'', cl_password = ''c'', cl_max_http2_conns = None, cl_max_http3_conns = None\<rparr>)) =
    Ok (UsernamePassword ''ab'' ''c'')"
proof -
  have "utf8_valid (as_bytes ''ab:c'')"
    by (rule ascii_utf8_valid) (simp add: as_bytes_def)
  then have "is_str ''ab:c''"
    by (simp add: is_str_def)
  then show ?thesis
    using socks_credentials_of_client [of "\<lambda>s. Ok (as_bytes s)" "\<lambda>s. s" "\<lparr>cl_username = ''ab'', cl_password = ''c'', cl_max_http2_conns = None, cl_max_http3_conns = None\<rparr>"]
    by (simp del: make_auth.simps)
qed

end
