(* ===== verification/Spec2Isabelle.thy ===== *)
theory Spec2Isabelle
  imports Deeplink_Decode Deeplink_Cert Udp_Codec Icmp_Codec Endpoint Socks5_Forwarder
begin

text \<open>
  Verification of TrustTunnel (a VPN endpoint and its deep-link library).

  \<^item> \<open>Prelude\<close>: machine integers, results, big-endian layout, UTF-8, strings.
  \<^item> \<open>Deeplink_Types\<close>, \<open>Varint\<close>, \<open>Deeplink_Encode\<close>, \<open>Deeplink_Decode\<close>, \<open>Deeplink_Cert\<close>:
    the deep-link library under \<^verbatim>\<open>deeplink/src\<close>.
\<close>

end
